theory Spec2Isabelle
  imports Complex_Main "HOL-Library.AList"
begin

section \<open>Numbers of the source language\<close>

text \<open>
  A number of the source language is an IEEE 754 binary64 value: a finite value, modelled
  by the real number it denotes, or one of the three special values. The sign of zero is
  not modelled, and a zero divisor is taken as the positive zero: the divisors of the
  program are a molar mass (a sum started at \<^verbatim>\<open>0\<close>, which is never the negative zero),
  the literal \<^verbatim>\<open>100\<close>, a coefficient after \<^verbatim>\<open>|| 1\<close> and a theoretical mass already
  compared with \<^verbatim>\<open>0\<close>.
\<close>

datatype numero = Num real | Infinito | MenosInfinito | NaN

text \<open>
  Every arithmetic operation computes the exact result of two finite operands and rounds
  it. The rounding is the first argument \<open>rd\<close> of every function below: the program runs
  with \<open>binary64\<close>; \<open>exacta\<close>, which keeps the exact result, states what holds over exact
  arithmetic.
\<close>

type_synonym redondeo = "real \<Rightarrow> numero"

definition exacta :: redondeo where
  "exacta x = Num x"

text \<open>The power of two with an integer exponent.\<close>

definition dos_a :: "int \<Rightarrow> real" where
  "dos_a k = (if 0 \<le> k then 2 ^ nat k else 1 / 2 ^ nat (- k))"

text \<open>
  The binary exponent of a positive real \<open>x\<close>, the integer \<open>e\<close> with
  \<open>2 ^ e \<le> x < 2 ^ (e + 1)\<close>: counted upwards for \<open>1 \<le> x\<close> and downwards for \<open>x < 1\<close>.
\<close>

function exp_sube :: "real \<Rightarrow> int" where
  "exp_sube x = (if x < 2 then 0 else exp_sube (x / 2) + 1)"
  by pat_completeness auto
termination
proof (relation "measure (\<lambda>x. nat \<lfloor>x\<rfloor>)")
  fix x :: real
  assume "\<not> x < 2"
  then have "\<lfloor>x / 2\<rfloor> < \<lfloor>x\<rfloor>" by linarith
  moreover from \<open>\<not> x < 2\<close> have "0 < \<lfloor>x\<rfloor>" by linarith
  ultimately show "(x / 2, x) \<in> measure (\<lambda>x. nat \<lfloor>x\<rfloor>)" by simp
qed simp

function exp_baja :: "real \<Rightarrow> int" where
  "exp_baja x = (if x \<le> 0 \<or> 1 \<le> x then 0 else exp_baja (2 * x) - 1)"
  by pat_completeness auto
termination
proof (relation "measure (\<lambda>x. nat \<lfloor>1 / x\<rfloor>)")
  fix x :: real
  assume "\<not> (x \<le> 0 \<or> 1 \<le> x)"
  then have x: "0 < x" "x < 1" by simp_all
  define y where "y = 1 / x"
  from x have y: "1 < y" by (simp add: y_def)
  have a: "\<lfloor>y / 2\<rfloor> < \<lfloor>y\<rfloor>"
  proof (cases "y < 2")
    case True
    then have "y / 2 < 1" by simp
    then have "\<lfloor>y / 2\<rfloor> < 1" by (simp only: floor_less_iff of_int_1)
    moreover from y have "1 \<le> \<lfloor>y\<rfloor>" by (simp add: le_floor_iff)
    ultimately show ?thesis by linarith
  next
    case False
    then show ?thesis by linarith
  qed
  from y have c: "0 < \<lfloor>y\<rfloor>" by (simp add: less_floor_iff)
  have d: "1 / (2 * x) = y / 2" by (simp add: y_def)
  have "nat \<lfloor>1 / (2 * x)\<rfloor> < nat \<lfloor>1 / x\<rfloor>"
    unfolding d y_def [symmetric] using a c by (simp only: zless_nat_conj)
  then show "(2 * x, x) \<in> measure (\<lambda>x. nat \<lfloor>1 / x\<rfloor>)"
    by (simp only: in_measure)
qed simp

definition exponente :: "real \<Rightarrow> int" where
  "exponente x = (if 1 \<le> x then exp_sube x else exp_baja x)"

text \<open>The integer nearest to a real, the even one of the two when they are equally near.\<close>

definition rne :: "real \<Rightarrow> int" where
  "rne y = (let f = \<lfloor>y\<rfloor>; d = y - of_int f
            in if d < 1 / 2 then f else if 1 / 2 < d then f + 1
               else if even f then f else f + 1)"

text \<open>
  The binary64 value of a real (round to nearest, ties to even): the real is rounded to a
  multiple of \<open>2 ^ (e - 52)\<close>, where \<open>e\<close> is its binary exponent and at least -1022 (below
  \<open>2 ^ (- 1022)\<close> the values are subnormal), and a result of magnitude \<open>2 ^ 1024\<close> overflows to
  an infinity.
\<close>

definition binary64 :: redondeo where
  "binary64 x =
     (if x = 0 then Num 0
      else let e = max (exponente \<bar>x\<bar>) (- 1022);
               q = dos_a (e - 52);
               r = of_int (rne (x / q)) * q
           in if 2 ^ 1024 \<le> \<bar>r\<bar> then (if 0 < x then Infinito else MenosInfinito)
              else Num r)"

fun mas :: "redondeo \<Rightarrow> numero \<Rightarrow> numero \<Rightarrow> numero" where
  "mas rd NaN _ = NaN"
| "mas rd _ NaN = NaN"
| "mas rd (Num a) (Num b) = rd (a + b)"
| "mas rd (Num a) Infinito = Infinito"
| "mas rd (Num a) MenosInfinito = MenosInfinito"
| "mas rd Infinito (Num b) = Infinito"
| "mas rd MenosInfinito (Num b) = MenosInfinito"
| "mas rd Infinito Infinito = Infinito"
| "mas rd Infinito MenosInfinito = NaN"
| "mas rd MenosInfinito Infinito = NaN"
| "mas rd MenosInfinito MenosInfinito = MenosInfinito"

fun restar :: "redondeo \<Rightarrow> numero \<Rightarrow> numero \<Rightarrow> numero" where
  "restar rd NaN _ = NaN"
| "restar rd _ NaN = NaN"
| "restar rd (Num a) (Num b) = rd (a - b)"
| "restar rd (Num a) Infinito = MenosInfinito"
| "restar rd (Num a) MenosInfinito = Infinito"
| "restar rd Infinito (Num b) = Infinito"
| "restar rd MenosInfinito (Num b) = MenosInfinito"
| "restar rd Infinito Infinito = NaN"
| "restar rd Infinito MenosInfinito = Infinito"
| "restar rd MenosInfinito Infinito = MenosInfinito"
| "restar rd MenosInfinito MenosInfinito = NaN"

fun multiplicar :: "redondeo \<Rightarrow> numero \<Rightarrow> numero \<Rightarrow> numero" where
  "multiplicar rd NaN _ = NaN"
| "multiplicar rd _ NaN = NaN"
| "multiplicar rd (Num a) (Num b) = rd (a * b)"
| "multiplicar rd (Num a) Infinito =
     (if a = 0 then NaN else if 0 < a then Infinito else MenosInfinito)"
| "multiplicar rd (Num a) MenosInfinito =
     (if a = 0 then NaN else if 0 < a then MenosInfinito else Infinito)"
| "multiplicar rd Infinito (Num b) =
     (if b = 0 then NaN else if 0 < b then Infinito else MenosInfinito)"
| "multiplicar rd MenosInfinito (Num b) =
     (if b = 0 then NaN else if 0 < b then MenosInfinito else Infinito)"
| "multiplicar rd Infinito Infinito = Infinito"
| "multiplicar rd Infinito MenosInfinito = MenosInfinito"
| "multiplicar rd MenosInfinito Infinito = MenosInfinito"
| "multiplicar rd MenosInfinito MenosInfinito = Infinito"

fun dividir :: "redondeo \<Rightarrow> numero \<Rightarrow> numero \<Rightarrow> numero" where
  "dividir rd NaN _ = NaN"
| "dividir rd _ NaN = NaN"
| "dividir rd (Num a) (Num b) =
     (if b \<noteq> 0 then rd (a / b)
      else if a = 0 then NaN else if 0 < a then Infinito else MenosInfinito)"
| "dividir rd (Num a) Infinito = Num 0"
| "dividir rd (Num a) MenosInfinito = Num 0"
| "dividir rd Infinito (Num b) = (if 0 \<le> b then Infinito else MenosInfinito)"
| "dividir rd MenosInfinito (Num b) = (if 0 \<le> b then MenosInfinito else Infinito)"
| "dividir rd Infinito Infinito = NaN"
| "dividir rd Infinito MenosInfinito = NaN"
| "dividir rd MenosInfinito Infinito = NaN"
| "dividir rd MenosInfinito MenosInfinito = NaN"

text \<open>The comparison \<^verbatim>\<open><\<close>: false as soon as one side is NaN.\<close>

fun menor :: "numero \<Rightarrow> numero \<Rightarrow> bool" where
  "menor NaN _ = False"
| "menor _ NaN = False"
| "menor (Num a) (Num b) = (a < b)"
| "menor (Num a) Infinito = True"
| "menor (Num a) MenosInfinito = False"
| "menor Infinito _ = False"
| "menor MenosInfinito (Num b) = True"
| "menor MenosInfinito Infinito = True"
| "menor MenosInfinito MenosInfinito = False"

text \<open>The comparison \<^verbatim>\<open>===\<close> of two numbers: NaN is equal to nothing.\<close>

fun igual :: "numero \<Rightarrow> numero \<Rightarrow> bool" where
  "igual NaN _ = False"
| "igual _ NaN = False"
| "igual a b = (a = b)"

text \<open>A number in a condition or on the left of \<^verbatim>\<open>||\<close>: zero and NaN are falsy.\<close>

definition verdadero :: "numero \<Rightarrow> bool" where
  "verdadero x \<longleftrightarrow> x \<noteq> Num 0 \<and> x \<noteq> NaN"

text \<open>
  An optional numeric property of an input object is \<open>None\<close> when it is
  \<^verbatim>\<open>undefined\<close>; in arithmetic \<^verbatim>\<open>undefined\<close> is NaN.
\<close>

definition a_numero :: "numero option \<Rightarrow> numero" where
  "a_numero v = (case v of None \<Rightarrow> NaN | Some x \<Rightarrow> x)"

section \<open>Strings and objects of the source language\<close>

text \<open>
  A JavaScript string is a sequence of UTF-16 code units; a code unit is modelled as a
  natural number (below 65536 in every string the program can receive; no definition
  depends on the bound). \<open>js\<close> turns an ASCII literal into such a sequence.
\<close>

type_synonym jsstring = "nat list"

definition js :: "string \<Rightarrow> jsstring" where
  "js s = map of_char s"

text \<open>The regular expressions \<^verbatim>\<open>/\d/\<close>, \<^verbatim>\<open>/[A-Z]/\<close> and \<^verbatim>\<open>/[a-z]/\<close> test one code unit.\<close>

definition es_digito :: "nat \<Rightarrow> bool" where
  "es_digito c \<longleftrightarrow> 48 \<le> c \<and> c \<le> 57"

definition es_mayuscula :: "nat \<Rightarrow> bool" where
  "es_mayuscula c \<longleftrightarrow> 65 \<le> c \<and> c \<le> 90"

definition es_minuscula :: "nat \<Rightarrow> bool" where
  "es_minuscula c \<longleftrightarrow> 97 \<le> c \<and> c \<le> 122"

text \<open>
  \<^verbatim>\<open>parseInt\<close> on a non-empty run of decimal digits: the number value of the integer
  that the digits write, which is that integer rounded. (The language lets an
  implementation replace the digits after the twentieth by zeros before rounding; the
  model rounds the integer itself.)
\<close>

definition parseInt :: "redondeo \<Rightarrow> jsstring \<Rightarrow> numero" where
  "parseInt rd ds = rd (real (foldl (\<lambda>n d. 10 * n + (d - 48)) 0 ds))"

text \<open>
  \<^verbatim>\<open>String.prototype.trim\<close>: the white space and line terminator code units of
  ECMAScript are removed from both ends.
\<close>

definition es_espacio :: "nat \<Rightarrow> bool" where
  "es_espacio c \<longleftrightarrow>
     (9 \<le> c \<and> c \<le> 13) \<or> c = 32 \<or> c = 160 \<or> c = 5760 \<or> (8192 \<le> c \<and> c \<le> 8202) \<or>
     c = 8232 \<or> c = 8233 \<or> c = 8239 \<or> c = 8287 \<or> c = 12288 \<or> c = 65279"

definition trim :: "jsstring \<Rightarrow> jsstring" where
  "trim s = rev (dropWhile es_espacio (rev (dropWhile es_espacio s)))"

text \<open>
  \<^verbatim>\<open>s.replace(/c/g, '->')\<close> for a pattern of one code unit \<open>c\<close>: every occurrence
  is replaced by the two code units of \<^verbatim>\<open>->\<close> (45 and 62).
\<close>

definition flecha :: jsstring where
  "flecha = [45, 62]"

definition replace_all :: "nat \<Rightarrow> jsstring \<Rightarrow> jsstring \<Rightarrow> jsstring" where
  "replace_all c por s = concat (map (\<lambda>x. if x = c then por else [x]) s)"

text \<open>
  \<^verbatim>\<open>s.split(sep)\<close> for a non-empty separator: the text is cut at every occurrence of
  the separator found scanning from the left; \<open>acc\<close> is the part being collected.
\<close>

function js_split :: "jsstring \<Rightarrow> jsstring \<Rightarrow> jsstring \<Rightarrow> jsstring list" where
  "js_split sep acc [] = [acc]"
| "js_split sep acc (c # cs) =
     (if sep \<noteq> [] \<and> take (length sep) (c # cs) = sep
      then acc # js_split sep [] (drop (length sep) (c # cs))
      else js_split sep (acc @ [c]) cs)"
  by pat_completeness auto
termination
  by (relation "measure (\<lambda>(sep, acc, s). length s)") auto

text \<open>
  An object used as a dictionary from element symbol to count: an association list with
  the keys in insertion order, which is the order of \<^verbatim>\<open>for ... in\<close> and of
  \<^verbatim>\<open>Object.keys\<close>. \<open>AList.update\<close> overwrites a key in place and appends a new one.
\<close>

type_synonym conteo = "(jsstring \<times> numero) list"

text \<open>
  The statement \<^verbatim>\<open>if (g[e]) { g[e] += n } else { g[e] = n }\<close>: the first branch is taken
  when the key is present with a truthy count.
\<close>

definition sumar :: "redondeo \<Rightarrow> jsstring \<Rightarrow> numero \<Rightarrow> conteo \<Rightarrow> conteo" where
  "sumar rd e n g =
     (case map_of g e of
        Some v \<Rightarrow> if verdadero v then AList.update e (mas rd v n) g else AList.update e n g
      | None \<Rightarrow> AList.update e n g)"

datatype error =
    FlechaUnica
  | TypeError
  | ElementoNoReconocido jsstring
  | SinReactivo
  | SinProducto
  | ElementosNoReconocidos "jsstring list"
  | ErrorDeValidacion "error option"
  | NoBalanceada

section \<open>Parsing formulas and equations\<close>

text \<open>
  The state of the loop of \<^verbatim>\<open>parsearFormula\<close>. \<open>base\<close> is the object
  \<^verbatim>\<open>resultado\<close>; it is the bottom entry of the array \<^verbatim>\<open>pila\<close> until a closing
  parenthesis without an opening one pops it (\<open>base_en_pila\<close>). \<open>grupos\<close> are the
  objects pushed by opening parentheses, the innermost first.
\<close>

record pila =
  base :: conteo
  base_en_pila :: bool
  grupos :: "conteo list"

text \<open>\<^verbatim>\<open>pila[pila.length - 1]\<close>; \<open>None\<close> is \<^verbatim>\<open>undefined\<close>.\<close>

definition tope :: "pila \<Rightarrow> conteo option" where
  "tope p = (case grupos p of g # _ \<Rightarrow> Some g
             | [] \<Rightarrow> if base_en_pila p then Some (base p) else None)"

definition poner_tope :: "conteo \<Rightarrow> pila \<Rightarrow> pila" where
  "poner_tope g p = (case grupos p of _ # gs \<Rightarrow> p\<lparr>grupos := g # gs\<rparr>
                     | [] \<Rightarrow> p\<lparr>base := g\<rparr>)"

text \<open>\<^verbatim>\<open>pila.pop()\<close>: the popped object (\<open>None\<close> on an empty array) and the new array.\<close>

definition pop :: "pila \<Rightarrow> conteo option \<times> pila" where
  "pop p = (case grupos p of g # gs \<Rightarrow> (Some g, p\<lparr>grupos := gs\<rparr>)
            | [] \<Rightarrow> if base_en_pila p then (Some (base p), p\<lparr>base_en_pila := False\<rparr>)
                    else (None, p))"

text \<open>
  The branch of a closing parenthesis after the multiplier has been read: the group is
  popped and each of its entries is folded into the new top. Reading a property of the
  undefined top raises a TypeError; a \<^verbatim>\<open>for ... in\<close> over an undefined or empty
  group has no iteration and raises nothing.
\<close>

definition cerrar_grupo :: "redondeo \<Rightarrow> numero \<Rightarrow> pila \<Rightarrow> error + pila" where
  "cerrar_grupo rd multiplicador p =
     (let (grupo, p') = pop p in
      case grupo of
        None \<Rightarrow> Inr p'
      | Some [] \<Rightarrow> Inr p'
      | Some (x # xs) \<Rightarrow>
          (case tope p' of
             None \<Rightarrow> Inl TypeError
           | Some grupoActual \<Rightarrow>
               Inr (poner_tope
                     (foldl (\<lambda>g (elemento, n).
                               sumar rd elemento (multiplicar rd n multiplicador) g)
                        grupoActual (x # xs)) p')))"

text \<open>The branch of an element token: its subscript is added to the top object.\<close>

definition agregar :: "redondeo \<Rightarrow> jsstring \<Rightarrow> numero \<Rightarrow> pila \<Rightarrow> error + pila" where
  "agregar rd elemento subindice p =
     (case tope p of
        None \<Rightarrow> Inl TypeError
      | Some grupoActual \<Rightarrow> Inr (poner_tope (sumar rd elemento subindice grupoActual) p))"

text \<open>A run of digits read as a number, 1 when the run is empty.\<close>

definition leer_numero :: "redondeo \<Rightarrow> jsstring \<Rightarrow> numero" where
  "leer_numero rd ds = (if ds \<noteq> [] then parseInt rd ds else Num 1)"

text \<open>The main loop of \<^verbatim>\<open>parsearFormula\<close>, on the text from index \<open>i\<close> on.\<close>

function bucle :: "redondeo \<Rightarrow> pila \<Rightarrow> jsstring \<Rightarrow> error + pila" where
  "bucle rd p [] = Inr p"
| "bucle rd p (c # cs) =
     (if c = 40 then bucle rd (p\<lparr>grupos := [] # grupos p\<rparr>) cs
      else if c = 41 then
        (case cerrar_grupo rd (leer_numero rd (takeWhile es_digito cs)) p of
           Inl e \<Rightarrow> Inl e
         | Inr p' \<Rightarrow> bucle rd p' (dropWhile es_digito cs))
      else if es_mayuscula c then
        (case agregar rd (c # takeWhile es_minuscula cs)
                (leer_numero rd (takeWhile es_digito (dropWhile es_minuscula cs))) p of
           Inl e \<Rightarrow> Inl e
         | Inr p' \<Rightarrow> bucle rd p' (dropWhile es_digito (dropWhile es_minuscula cs)))
      else bucle rd p cs)"
  by pat_completeness auto
termination
proof (relation "measure (\<lambda>(rd, p, s). length s)")
  fix p :: pila and c :: nat and cs :: jsstring and rd :: redondeo
  have a: "length (dropWhile es_digito cs) \<le> length cs"
    by (rule length_dropWhile_le)
  have b: "length (dropWhile es_digito (dropWhile es_minuscula cs)) \<le> length cs"
    using length_dropWhile_le [of es_digito "dropWhile es_minuscula cs"]
          length_dropWhile_le [of es_minuscula cs] by linarith
  fix q :: pila
  show "((rd, q, dropWhile es_digito cs), (rd, p, c # cs)) \<in> measure (\<lambda>(rd, p, s). length s)"
    using a by simp
  show "((rd, q, dropWhile es_digito (dropWhile es_minuscula cs)), (rd, p, c # cs))
          \<in> measure (\<lambda>(rd, p, s). length s)"
    using b by simp
qed auto

definition parsearFormula :: "redondeo \<Rightarrow> jsstring \<Rightarrow> error + conteo" where
  "parsearFormula rd formula =
     (case bucle rd \<lparr>base = [], base_en_pila = True, grupos = []\<rparr> formula of
        Inl e \<Rightarrow> Inl e
      | Inr p \<Rightarrow> Inr (base p))"

text \<open>A monadic map: the callback is applied from the left and the first exception ends it.\<close>

fun mapear :: "('a \<Rightarrow> error + 'b) \<Rightarrow> 'a list \<Rightarrow> error + 'b list" where
  "mapear f [] = Inr []"
| "mapear f (x # xs) =
     (case f x of
        Inl e \<Rightarrow> Inl e
      | Inr y \<Rightarrow> (case mapear f xs of Inl e \<Rightarrow> Inl e | Inr ys \<Rightarrow> Inr (y # ys)))"

record compuesto =
  coeficiente :: numero
  formula :: jsstring
  elementos :: conteo

definition parsearCompuesto :: "redondeo \<Rightarrow> jsstring \<Rightarrow> error + compuesto" where
  "parsearCompuesto rd compuesto =
     (let recortado = trim compuesto;
          digitos = takeWhile es_digito recortado;
          resto = dropWhile es_digito recortado
      in case parsearFormula rd resto of
           Inl e \<Rightarrow> Inl e
         | Inr els \<Rightarrow>
             Inr \<lparr>coeficiente = leer_numero rd digitos, formula = resto, elementos = els\<rparr>)"

record ecuacion =
  reactivos :: "compuesto list"
  productos :: "compuesto list"

text \<open>The two \<^verbatim>\<open>replace\<close> calls: the arrow U+2192 (8594) and \<^verbatim>\<open>=\<close> (61) become \<^verbatim>\<open>->\<close>.\<close>

definition normalizar :: "jsstring \<Rightarrow> jsstring" where
  "normalizar ecuacion = replace_all 61 flecha (replace_all 8594 flecha ecuacion)"

definition parsearEcuacion :: "redondeo \<Rightarrow> jsstring \<Rightarrow> error + ecuacion" where
  "parsearEcuacion rd ecuacion =
     (case js_split flecha [] (normalizar ecuacion) of
        [parte0, parte1] \<Rightarrow>
          (case mapear (parsearCompuesto rd) (js_split [43] [] (trim parte0)) of
             Inl e \<Rightarrow> Inl e
           | Inr rs \<Rightarrow>
               (case mapear (parsearCompuesto rd) (js_split [43] [] (trim parte1)) of
                  Inl e \<Rightarrow> Inl e
                | Inr ps \<Rightarrow> Inr \<lparr>reactivos = rs, productos = ps\<rparr>))
      | _ \<Rightarrow> Inl FlechaUnica)"

section \<open>Balance and validation\<close>

definition contarAtomos :: "redondeo \<Rightarrow> compuesto list \<Rightarrow> conteo" where
  "contarAtomos rd compuestos =
     foldl (\<lambda>conteo c.
              foldl (\<lambda>conteo (elemento, n).
                       sumar rd elemento (multiplicar rd n (coeficiente c)) conteo)
                conteo (elementos c))
       [] compuestos"

text \<open>\<^verbatim>\<open>obj[k] || 0\<close> on a dictionary of counts.\<close>

definition valor_o_cero :: "conteo \<Rightarrow> jsstring \<Rightarrow> numero" where
  "valor_o_cero obj k =
     (case map_of obj k of Some v \<Rightarrow> if verdadero v then v else Num 0 | None \<Rightarrow> Num 0)"

text \<open>The keys of a \<^verbatim>\<open>Set\<close> built from a list: the first occurrence of each, in order.\<close>

definition claves_set :: "jsstring list \<Rightarrow> jsstring list" where
  "claves_set ks = rev (remdups (rev ks))"

record detalle =
  en_reactivos :: numero
  en_productos :: numero
  balanceado :: bool

record balance =
  balanceada :: bool
  detalles :: "(jsstring \<times> detalle) list"

definition verificarBalance :: "redondeo \<Rightarrow> jsstring \<Rightarrow> error + balance" where
  "verificarBalance rd ecuacion =
     (case parsearEcuacion rd ecuacion of
        Inl e \<Rightarrow> Inl e
      | Inr parseada \<Rightarrow>
          (let atomosReactivos = contarAtomos rd (reactivos parseada);
               atomosProductos = contarAtomos rd (productos parseada);
               els = claves_set (map fst atomosReactivos @ map fst atomosProductos)
           in Inr (foldl
                (\<lambda>b elemento.
                   let enReactivos = valor_o_cero atomosReactivos elemento;
                       enProductos = valor_o_cero atomosProductos elemento
                   in \<lparr>balanceada =
                          (if \<not> igual enReactivos enProductos then False else balanceada b),
                       detalles = AList.update elemento
                         \<lparr>en_reactivos = enReactivos, en_productos = enProductos,
                          balanceado = igual enReactivos enProductos\<rparr> (detalles b)\<rparr>)
                \<lparr>balanceada = True, detalles = []\<rparr> els)))"

text \<open>
  The element table \<^verbatim>\<open>ELEMENTOS\<close> is data defined outside \<^verbatim>\<open>quimica.js\<close>; it is a
  parameter of every function that reads it: the atomic mass of each symbol it holds.
\<close>

type_synonym tabla = "jsstring \<Rightarrow> real option"

record validacion_formula =
  formula_valida :: bool
  elementosInvalidos :: "jsstring list"

definition validarElementos ::
  "redondeo \<Rightarrow> tabla \<Rightarrow> jsstring \<Rightarrow> error + validacion_formula" where
  "validarElementos rd ELEMENTOS f =
     (case parsearFormula rd f of
        Inl e \<Rightarrow> Inl e
      | Inr els \<Rightarrow>
          (let invalidos = filter (\<lambda>simbolo. ELEMENTOS simbolo = None) (map fst els)
           in Inr \<lparr>formula_valida = (length invalidos = 0), elementosInvalidos = invalidos\<rparr>))"

record validacion =
  valida :: bool
  error :: "error option"

text \<open>The loop of \<^verbatim>\<open>validarEcuacion\<close> over the compounds of both sides.\<close>

fun validar_compuestos :: "redondeo \<Rightarrow> tabla \<Rightarrow> compuesto list \<Rightarrow> validacion" where
  "validar_compuestos rd ELEMENTOS [] = \<lparr>valida = True, error = None\<rparr>"
| "validar_compuestos rd ELEMENTOS (c # cs) =
     (case validarElementos rd ELEMENTOS (formula c) of
        Inl e \<Rightarrow> \<lparr>valida = False, error = Some e\<rparr>
      | Inr v \<Rightarrow>
          if \<not> formula_valida v
          then \<lparr>valida = False, error = Some (ElementosNoReconocidos (elementosInvalidos v))\<rparr>
          else validar_compuestos rd ELEMENTOS cs)"

definition validarEcuacion :: "redondeo \<Rightarrow> tabla \<Rightarrow> jsstring \<Rightarrow> validacion" where
  "validarEcuacion rd ELEMENTOS ecuacion =
     (case parsearEcuacion rd ecuacion of
        Inl e \<Rightarrow> \<lparr>valida = False, error = Some e\<rparr>
      | Inr parseada \<Rightarrow>
          if length (reactivos parseada) = 0 then \<lparr>valida = False, error = Some SinReactivo\<rparr>
          else if length (productos parseada) = 0
            then \<lparr>valida = False, error = Some SinProducto\<rparr>
          else validar_compuestos rd ELEMENTOS (reactivos parseada @ productos parseada))"

section \<open>Molar mass and conversions\<close>

text \<open>The loop of \<^verbatim>\<open>calcularMasaMolar\<close> over the entries of the parsed formula.\<close>

fun sumar_masas :: "redondeo \<Rightarrow> tabla \<Rightarrow> numero \<Rightarrow> conteo \<Rightarrow> error + numero" where
  "sumar_masas rd ELEMENTOS masaTotal [] = Inr masaTotal"
| "sumar_masas rd ELEMENTOS masaTotal ((simbolo, n) # resto) =
     (case ELEMENTOS simbolo of
        None \<Rightarrow> Inl (ElementoNoReconocido simbolo)
      | Some masaAtomica \<Rightarrow>
          sumar_masas rd ELEMENTOS
            (mas rd masaTotal (multiplicar rd (Num masaAtomica) n)) resto)"

definition calcularMasaMolar :: "redondeo \<Rightarrow> tabla \<Rightarrow> jsstring \<Rightarrow> error + numero" where
  "calcularMasaMolar rd ELEMENTOS f =
     (case parsearFormula rd f of
        Inl e \<Rightarrow> Inl e
      | Inr els \<Rightarrow> sumar_masas rd ELEMENTOS (Num 0) els)"

definition masaAMoles :: "redondeo \<Rightarrow> tabla \<Rightarrow> numero \<Rightarrow> jsstring \<Rightarrow> error + numero" where
  "masaAMoles rd ELEMENTOS masa f =
     (case calcularMasaMolar rd ELEMENTOS f of
        Inl e \<Rightarrow> Inl e
      | Inr masaMolar \<Rightarrow> Inr (dividir rd masa masaMolar))"

definition molesAMasa :: "redondeo \<Rightarrow> tabla \<Rightarrow> numero \<Rightarrow> jsstring \<Rightarrow> error + numero" where
  "molesAMasa rd ELEMENTOS moles f =
     (case calcularMasaMolar rd ELEMENTOS f of
        Inl e \<Rightarrow> Inl e
      | Inr masaMolar \<Rightarrow> Inr (multiplicar rd moles masaMolar))"

section \<open>Stoichiometry\<close>

text \<open>
  An entry of \<^verbatim>\<open>datosReactivos\<close> as \<^verbatim>\<open>encontrarReactivoLimitante\<close> and
  \<^verbatim>\<open>calcularExceso\<close> read it; \<^verbatim>\<open>moles\<close> and \<^verbatim>\<open>pureza\<close> are only used in
  arithmetic, where an undefined value is NaN.
\<close>

record reactivo_con_moles =
  rcm_formula :: jsstring
  masaInicial :: numero
  rcm_moles :: numero
  rcm_pureza :: numero

record efectivo =
  ef_formula :: jsstring
  ef_moles :: numero
  ef_coeficiente :: numero

record reactivo_limitante =
  lim_formula :: jsstring
  lim_moles :: numero
  proporcion :: numero

text \<open>
  \<^verbatim>\<open>parseada.reactivos.find(r => r.formula === f)?.coeficiente || 1\<close>: 1 when no
  reactant has the formula and when the coefficient found is falsy.
\<close>

definition coeficiente_de :: "compuesto list \<Rightarrow> jsstring \<Rightarrow> numero" where
  "coeficiente_de rs f =
     (case find (\<lambda>r. formula r = f) rs of
        None \<Rightarrow> Num 1
      | Some r \<Rightarrow> if verdadero (coeficiente r) then coeficiente r else Num 1)"

definition molesEfectivos ::
  "redondeo \<Rightarrow> compuesto list \<Rightarrow> reactivo_con_moles list \<Rightarrow> efectivo list" where
  "molesEfectivos rd rs datosReactivos =
     map (\<lambda>dato. \<lparr>ef_formula = rcm_formula dato,
                   ef_moles = multiplicar rd (rcm_moles dato)
                                (dividir rd (rcm_pureza dato) (Num 100)),
                   ef_coeficiente = coeficiente_de rs (rcm_formula dato)\<rparr>) datosReactivos"

text \<open>
  The loop that keeps the smallest ratio: the state is \<^verbatim>\<open>limitante\<close> (\<open>None\<close> is
  \<^verbatim>\<open>null\<close>) and \<^verbatim>\<open>menorProporcion\<close>.
\<close>

fun buscar_menor ::
  "redondeo \<Rightarrow> efectivo option \<times> numero \<Rightarrow> efectivo list \<Rightarrow> efectivo option \<times> numero"
where
  "buscar_menor rd st [] = st"
| "buscar_menor rd (limitante, menorProporcion) (reactivo # resto) =
     (let prop = dividir rd (ef_moles reactivo) (ef_coeficiente reactivo)
      in if menor prop menorProporcion
         then buscar_menor rd (Some reactivo, prop) resto
         else buscar_menor rd (limitante, menorProporcion) resto)"

definition encontrarReactivoLimitante ::
  "redondeo \<Rightarrow> jsstring \<Rightarrow> reactivo_con_moles list \<Rightarrow> error + reactivo_limitante" where
  "encontrarReactivoLimitante rd ecuacion datosReactivos =
     (case parsearEcuacion rd ecuacion of
        Inl e \<Rightarrow> Inl e
      | Inr parseada \<Rightarrow>
          (case buscar_menor rd (None, Infinito)
                  (molesEfectivos rd (reactivos parseada) datosReactivos) of
             (None, _) \<Rightarrow> Inl TypeError
           | (Some l, menorProporcion) \<Rightarrow>
               Inr \<lparr>lim_formula = ef_formula l, lim_moles = ef_moles l,
                    proporcion = menorProporcion\<rparr>))"

record exceso =
  ex_formula :: jsstring
  molesIniciales :: numero
  molesUsados :: numero
  molesSobrantes :: numero
  masaSobrante :: numero

text \<open>The loop of \<^verbatim>\<open>calcularExceso\<close>; both \<^verbatim>\<open>continue\<close> statements skip the entry.\<close>

fun excesos_de ::
  "redondeo \<Rightarrow> tabla \<Rightarrow> compuesto list \<Rightarrow> reactivo_limitante \<Rightarrow> reactivo_con_moles list
     \<Rightarrow> error + exceso list"
where
  "excesos_de rd ELEMENTOS rs limitante [] = Inr []"
| "excesos_de rd ELEMENTOS rs limitante (dato # resto) =
     (if rcm_formula dato = lim_formula limitante
      then excesos_de rd ELEMENTOS rs limitante resto
      else case find (\<lambda>r. formula r = rcm_formula dato) rs of
        None \<Rightarrow> excesos_de rd ELEMENTOS rs limitante resto
      | Some reactivo \<Rightarrow>
          (let efectivos = multiplicar rd (rcm_moles dato)
                             (dividir rd (rcm_pureza dato) (Num 100));
               molesNecesarios = multiplicar rd (proporcion limitante) (coeficiente reactivo);
               sobrantes = restar rd efectivos molesNecesarios
           in case molesAMasa rd ELEMENTOS sobrantes (rcm_formula dato) of
                Inl e \<Rightarrow> Inl e
              | Inr masa \<Rightarrow>
                  (case excesos_de rd ELEMENTOS rs limitante resto of
                     Inl e \<Rightarrow> Inl e
                   | Inr excesos \<Rightarrow>
                       Inr (\<lparr>ex_formula = rcm_formula dato, molesIniciales = efectivos,
                             molesUsados = molesNecesarios, molesSobrantes = sobrantes,
                             masaSobrante = masa\<rparr> # excesos))))"

definition calcularExceso ::
  "redondeo \<Rightarrow> tabla \<Rightarrow> jsstring \<Rightarrow> reactivo_con_moles list \<Rightarrow> reactivo_limitante
     \<Rightarrow> error + exceso list"
where
  "calcularExceso rd ELEMENTOS ecuacion datosReactivos limitante =
     (case parsearEcuacion rd ecuacion of
        Inl e \<Rightarrow> Inl e
      | Inr parseada \<Rightarrow> excesos_de rd ELEMENTOS (reactivos parseada) limitante datosReactivos)"

record producto_teorico =
  pt_formula :: jsstring
  pt_coeficiente :: numero
  molesTeoricoS :: numero
  masaTeorica :: numero

definition calcularRendimientoTeorico ::
  "redondeo \<Rightarrow> tabla \<Rightarrow> jsstring \<Rightarrow> reactivo_limitante \<Rightarrow> error + producto_teorico list"
where
  "calcularRendimientoTeorico rd ELEMENTOS ecuacion limitante =
     (case parsearEcuacion rd ecuacion of
        Inl e \<Rightarrow> Inl e
      | Inr parseada \<Rightarrow>
          mapear (\<lambda>producto.
                    let m = multiplicar rd (proporcion limitante) (coeficiente producto)
                    in case molesAMasa rd ELEMENTOS m (formula producto) of
                         Inl e \<Rightarrow> Inl e
                       | Inr masa \<Rightarrow>
                           Inr \<lparr>pt_formula = formula producto,
                                pt_coeficiente = coeficiente producto,
                                molesTeoricoS = m, masaTeorica = masa\<rparr>)
            (productos parseada))"

definition calcularPorcentajeRendimiento :: "redondeo \<Rightarrow> numero \<Rightarrow> numero \<Rightarrow> numero" where
  "calcularPorcentajeRendimiento rd rendimientoReal rendimientoTeorico =
     (if rendimientoTeorico = Num 0 then Num 0
      else multiplicar rd (dividir rd rendimientoReal rendimientoTeorico) (Num 100))"

text \<open>The inputs of \<^verbatim>\<open>calcularEstequiometria\<close>; an absent property is \<open>None\<close>.\<close>

record dato_reactivo =
  dato_formula :: jsstring
  masa :: "numero option"
  moles :: "numero option"
  pureza :: "numero option"

record producto_real =
  pr_formula :: jsstring
  masaReal :: "numero option"
  molesReales :: "numero option"

text \<open>The callback that builds \<^verbatim>\<open>reactivosConMoles\<close>.\<close>

definition con_moles :: "redondeo \<Rightarrow> tabla \<Rightarrow> dato_reactivo \<Rightarrow> error + reactivo_con_moles" where
  "con_moles rd ELEMENTOS dato =
     (case (if masa dato \<noteq> None \<and> moles dato = None
            then (case masaAMoles rd ELEMENTOS (a_numero (masa dato)) (dato_formula dato) of
                    Inl e \<Rightarrow> Inl e
                  | Inr n \<Rightarrow> Inr (Some n))
            else Inr (moles dato)) of
        Inl e \<Rightarrow> Inl e
      | Inr m \<Rightarrow>
          (case (if masa dato \<noteq> None \<and> verdadero (a_numero (masa dato))
                 then Inr (a_numero (masa dato))
                 else molesAMasa rd ELEMENTOS (a_numero m) (dato_formula dato)) of
             Inl e \<Rightarrow> Inl e
           | Inr inicial \<Rightarrow>
               Inr \<lparr>rcm_formula = dato_formula dato, masaInicial = inicial,
                    rcm_moles = a_numero m,
                    rcm_pureza = (if pureza dato \<noteq> None \<and> verdadero (a_numero (pureza dato))
                                  then a_numero (pureza dato) else Num 100)\<rparr>))"

text \<open>
  The block that computes \<^verbatim>\<open>porcentajeRendimiento\<close>; \<open>None\<close> is \<^verbatim>\<open>null\<close>, for
  the argument and for the result.
\<close>

definition porcentaje_de ::
  "redondeo \<Rightarrow> tabla \<Rightarrow> producto_teorico list \<Rightarrow> producto_real option
     \<Rightarrow> error + numero option" where
  "porcentaje_de rd ELEMENTOS productosTeoricos datosProductoReal =
     (case datosProductoReal of
        None \<Rightarrow> Inr None
      | Some d \<Rightarrow>
          (case find (\<lambda>p. pt_formula p = pr_formula d) productosTeoricos of
             None \<Rightarrow> Inr None
           | Some productoTeorico \<Rightarrow>
               (case (if molesReales d \<noteq> None
                      then molesAMasa rd ELEMENTOS (a_numero (molesReales d)) (pr_formula d)
                      else Inr (a_numero (masaReal d))) of
                  Inl e \<Rightarrow> Inl e
                | Inr masa_real \<Rightarrow>
                    Inr (Some (calcularPorcentajeRendimiento rd masa_real
                                 (masaTeorica productoTeorico))))))"

record limitante_res =
  rl_formula :: jsstring
  rl_masaMolar :: numero
  rl_molesUsados :: numero

record exceso_res =
  er_formula :: jsstring
  er_masaMolar :: numero
  er_molesIniciales :: numero
  er_molesUsados :: numero
  er_molesSobrantes :: numero
  er_masaSobrante :: numero

record producto_res =
  ps_formula :: jsstring
  ps_masaMolar :: numero
  molesTeoricos :: numero
  ps_masaTeorica :: numero

record resultado =
  ecuacionValida :: bool
  res_balanceada :: bool
  reactivoLimitante :: limitante_res
  reactivosEnExceso :: "exceso_res list"
  res_productos :: "producto_res list"
  porcentajeRendimiento :: "numero option"

text \<open>The object returned at the end; every molar mass is computed again.\<close>

definition armar ::
  "redondeo \<Rightarrow> tabla \<Rightarrow> reactivo_limitante \<Rightarrow> exceso list \<Rightarrow> producto_teorico list
     \<Rightarrow> numero option \<Rightarrow> error + resultado" where
  "armar rd ELEMENTOS limitante excesos productosTeoricos porcentaje =
     (case calcularMasaMolar rd ELEMENTOS (lim_formula limitante) of
        Inl e \<Rightarrow> Inl e
      | Inr mm \<Rightarrow>
          (case mapear (\<lambda>e. case calcularMasaMolar rd ELEMENTOS (ex_formula e) of
                               Inl err \<Rightarrow> Inl err
                             | Inr m \<Rightarrow>
                                 Inr \<lparr>er_formula = ex_formula e, er_masaMolar = m,
                                      er_molesIniciales = molesIniciales e,
                                      er_molesUsados = molesUsados e,
                                      er_molesSobrantes = molesSobrantes e,
                                      er_masaSobrante = masaSobrante e\<rparr>) excesos of
             Inl e \<Rightarrow> Inl e
           | Inr es \<Rightarrow>
               (case mapear (\<lambda>p. case calcularMasaMolar rd ELEMENTOS (pt_formula p) of
                                    Inl err \<Rightarrow> Inl err
                                  | Inr m \<Rightarrow>
                                      Inr \<lparr>ps_formula = pt_formula p, ps_masaMolar = m,
                                           molesTeoricos = molesTeoricoS p,
                                           ps_masaTeorica = masaTeorica p\<rparr>)
                       productosTeoricos of
                  Inl e \<Rightarrow> Inl e
                | Inr ps \<Rightarrow>
                    Inr \<lparr>ecuacionValida = True, res_balanceada = True,
                         reactivoLimitante =
                           \<lparr>rl_formula = lim_formula limitante, rl_masaMolar = mm,
                            rl_molesUsados = lim_moles limitante\<rparr>,
                         reactivosEnExceso = es, res_productos = ps,
                         porcentajeRendimiento = porcentaje\<rparr>)))"

definition calcularEstequiometria ::
  "redondeo \<Rightarrow> tabla \<Rightarrow> jsstring \<Rightarrow> dato_reactivo list \<Rightarrow> producto_real option
     \<Rightarrow> error + resultado" where
  "calcularEstequiometria rd ELEMENTOS ecuacion datosReactivos datosProductoReal =
     (let validacion = validarEcuacion rd ELEMENTOS ecuacion in
      if \<not> valida validacion then Inl (ErrorDeValidacion (error validacion))
      else case verificarBalance rd ecuacion of
        Inl e \<Rightarrow> Inl e
      | Inr bal \<Rightarrow>
          if \<not> balanceada bal then Inl NoBalanceada
          else case mapear (con_moles rd ELEMENTOS) datosReactivos of
            Inl e \<Rightarrow> Inl e
          | Inr reactivosConMoles \<Rightarrow>
              (case encontrarReactivoLimitante rd ecuacion reactivosConMoles of
                 Inl e \<Rightarrow> Inl e
               | Inr limitante \<Rightarrow>
                   (case calcularExceso rd ELEMENTOS ecuacion reactivosConMoles limitante of
                      Inl e \<Rightarrow> Inl e
                    | Inr excesos \<Rightarrow>
                        (case calcularRendimientoTeorico rd ELEMENTOS ecuacion limitante of
                           Inl e \<Rightarrow> Inl e
                         | Inr productosTeoricos \<Rightarrow>
                             (case porcentaje_de rd ELEMENTOS productosTeoricos
                                     datosProductoReal of
                                Inl e \<Rightarrow> Inl e
                              | Inr porcentaje \<Rightarrow>
                                  armar rd ELEMENTOS limitante excesos productosTeoricos
                                    porcentaje)))))"

section \<open>Notions of the statements\<close>

text \<open>The number of occurrences of \<^verbatim>\<open>->\<close> in a text; two occurrences cannot overlap.\<close>

fun contar_flechas :: "jsstring \<Rightarrow> nat" where
  "contar_flechas (a # b # cs) =
     (if a = 45 \<and> b = 62 then 1 + contar_flechas cs else contar_flechas (b # cs))"
| "contar_flechas _ = 0"

text \<open>
  A text in which every character \<^verbatim>\<open>0\<close> directly follows a digit, so that no number
  is written with a leading zero; the flag tells whether the previous character was a
  digit.
\<close>

fun ceros_tras_digito :: "bool \<Rightarrow> jsstring \<Rightarrow> bool" where
  "ceros_tras_digito previo [] = True"
| "ceros_tras_digito previo (c # cs) =
     ((c = 48 \<longrightarrow> previo) \<and> ceros_tras_digito (es_digito c) cs)"

definition sin_cero_inicial :: "jsstring \<Rightarrow> bool" where
  "sin_cero_inicial s = ceros_tras_digito False s"

text \<open>
  The integer that a run of decimal digits writes: the digit at position \<open>i\<close> from the
  right counts \<open>10 ^ i\<close> times its value.
\<close>

definition valor_decimal :: "jsstring \<Rightarrow> nat" where
  "valor_decimal ds =
     sum_list (map (\<lambda>(d, i). (d - 48) * 10 ^ i) (zip (rev ds) [0..<length ds]))"

text \<open>
  A finite number that is a non-negative integer; a count that is a non-negative integer,
  Infinity or NaN; a count that is a positive integer or Infinity.
\<close>

definition es_natural :: "numero \<Rightarrow> bool" where
  "es_natural v = (case v of Num r \<Rightarrow> 0 \<le> r \<and> of_int \<lfloor>r\<rfloor> = r | _ \<Rightarrow> False)"

definition entero_no_negativo :: "numero \<Rightarrow> bool" where
  "entero_no_negativo v \<longleftrightarrow> es_natural v \<or> v = Infinito \<or> v = NaN"

definition entero_positivo :: "numero \<Rightarrow> bool" where
  "entero_positivo v \<longleftrightarrow> (es_natural v \<and> v \<noteq> Num 0) \<or> v = Infinito"

text \<open>
  A number that a rounding keeps, and a regular count: a non-negative integer that the
  rounding keeps, Infinity or NaN. A rounding is regular on the natural numbers when it
  keeps 0 and 1 and takes every natural number to Infinity or to a natural number that it
  keeps, positive for a positive argument; \<open>binary64\<close> and \<open>exacta\<close> are.
\<close>

definition conservado :: "redondeo \<Rightarrow> numero \<Rightarrow> bool" where
  "conservado rd v = (case v of Num r \<Rightarrow> rd r = Num r | _ \<Rightarrow> True)"

definition regular :: "redondeo \<Rightarrow> numero \<Rightarrow> bool" where
  "regular rd v \<longleftrightarrow> entero_no_negativo v \<and> conservado rd v"

definition redondea_naturales :: "redondeo \<Rightarrow> bool" where
  "redondea_naturales rd \<longleftrightarrow>
     rd 0 = Num 0 \<and> rd 1 = Num 1 \<and>
     (\<forall>n::nat. rd (real n) = Infinito \<or>
        (\<exists>k::nat. (0 < n \<longrightarrow> 0 < k) \<and> rd (real n) = Num (real k) \<and>
           rd (real k) = Num (real k)))"

text \<open>A dictionary, and a parser state, whose counts all have a property.\<close>

definition todos :: "(numero \<Rightarrow> bool) \<Rightarrow> conteo \<Rightarrow> bool" where
  "todos P g = list_all (\<lambda>(e, n). P n) g"

definition pila_todos :: "(numero \<Rightarrow> bool) \<Rightarrow> pila \<Rightarrow> bool" where
  "pila_todos P p \<longleftrightarrow> todos P (base p) \<and> list_all (todos P) (grupos p)"

text \<open>
  The ratio of a reactant as the limiting-reagent search computes it: the effective moles
  (moles times purity over 100) divided by the coefficient found for the formula.
\<close>

definition razon :: "redondeo \<Rightarrow> compuesto list \<Rightarrow> reactivo_con_moles \<Rightarrow> numero" where
  "razon rd rs dato =
     dividir rd (multiplicar rd (rcm_moles dato) (dividir rd (rcm_pureza dato) (Num 100)))
       (coeficiente_de rs (rcm_formula dato))"


text \<open>
  The balance in the words of its statement, over the integers: the count of an element in
  one compound (0 when the element is absent), the atoms of an element on one side
  (coefficient times the count, summed over the compounds, without rounding) and the
  elements present on a side. \<open>valor\<close> is the real that a finite number denotes.
\<close>

definition valor :: "numero \<Rightarrow> real" where
  "valor v = (case v of Num r \<Rightarrow> r | _ \<Rightarrow> 0)"

definition cuenta :: "conteo \<Rightarrow> jsstring \<Rightarrow> real" where
  "cuenta g e = (case map_of g e of None \<Rightarrow> 0 | Some n \<Rightarrow> valor n)"

definition atomos_lado :: "compuesto list \<Rightarrow> jsstring \<Rightarrow> real" where
  "atomos_lado cs e = sum_list (map (\<lambda>c. valor (coeficiente c) * cuenta (elementos c) e) cs)"

definition presentes :: "compuesto list \<Rightarrow> jsstring set" where
  "presentes cs = (\<Union>c \<in> set cs. fst ` set (elementos c))"

text \<open>A finite number, and compounds whose coefficient and counts are all finite.\<close>

definition es_finito :: "numero \<Rightarrow> bool" where
  "es_finito v = (case v of Num r \<Rightarrow> True | _ \<Rightarrow> False)"

definition finitos :: "compuesto list \<Rightarrow> bool" where
  "finitos cs = list_all (\<lambda>c. es_finito (coeficiente c) \<and> todos es_finito (elementos c)) cs"

text \<open>Compounds whose coefficient and counts are all finite non-negative integers.\<close>

definition naturales :: "compuesto list \<Rightarrow> bool" where
  "naturales cs = list_all (\<lambda>c. es_natural (coeficiente c) \<and> todos es_natural (elementos c)) cs"

text \<open>A parser state whose dictionaries have each key once, as an object has.\<close>

definition pila_distinta :: "pila \<Rightarrow> bool" where
  "pila_distinta p \<longleftrightarrow>
     distinct (map fst (base p)) \<and> list_all (\<lambda>g. distinct (map fst g)) (grupos p)"



text \<open>
  The array of a parser state placed on top of an outer array: its bottom entry becomes
  a group above the outer groups.
\<close>

definition sobre :: "conteo \<Rightarrow> bool \<Rightarrow> conteo list \<Rightarrow> pila \<Rightarrow> pila" where
  "sobre b e gs q = \<lparr>base = b, base_en_pila = e, grupos = grupos q @ base q # gs\<rparr>"

section \<open>Sample data\<close>

text \<open>
  Modelled from the spec: the element table \<^verbatim>\<open>ELEMENTOS\<close>, a mapping from symbol to
  atomic mass and name, is not among the source files. The sample below holds the
  standard atomic masses of hydrogen, oxygen, calcium, aluminium and sulfur as the
  binary64 values of their decimal literals (\<open>doble\<close>), for the evaluations on the
  reaction of hydrogen with oxygen.
\<close>

definition doble :: "real \<Rightarrow> real" where
  "doble x = valor (binary64 x)"

definition tabla_ejemplo :: tabla where
  "tabla_ejemplo =
     map_of [(js ''H'', doble 1.008), (js ''O'', doble 15.999), (js ''Ca'', doble 40.078),
             (js ''Al'', doble 26.982), (js ''S'', doble 32.06)]"

definition agua :: jsstring where
  "agua = js ''2H2 + O2 -> 2H2O''"

definition en_moles :: "string \<Rightarrow> real \<Rightarrow> dato_reactivo" where
  "en_moles f n = \<lparr>dato_formula = js f, masa = None, moles = Some (Num n),
                   pureza = Some (Num 100)\<rparr>"

section \<open>Rounding to binary64\<close>

declare exp_sube.simps [simp del] exp_baja.simps [simp del]

lemmas fp = binary64_def exponente_def exp_sube.simps exp_baja.simps rne_def dos_a_def Let_def

lemma exp_sube_cotas:
  "1 \<le> x \<Longrightarrow> 0 \<le> exp_sube x \<and> 2 ^ nat (exp_sube x) \<le> x \<and> x < 2 * 2 ^ nat (exp_sube x)"
proof (induction x rule: exp_sube.induct)
  case (1 x)
  show ?case
  proof (cases "x < 2")
    case True
    then have "exp_sube x = 0" by (subst exp_sube.simps) simp
    with "1.prems" True show ?thesis by simp
  next
    case False
    then have "1 \<le> x / 2" by simp
    from "1.IH" [OF False this] have ih: "0 \<le> exp_sube (x / 2)"
      "2 ^ nat (exp_sube (x / 2)) \<le> x / 2" "x / 2 < 2 * 2 ^ nat (exp_sube (x / 2))"
      by simp_all
    from False have e: "exp_sube x = exp_sube (x / 2) + 1" by (subst exp_sube.simps) simp
    from ih(1) have n: "nat (exp_sube x) = Suc (nat (exp_sube (x / 2)))"
      by (simp add: e nat_add_distrib)
    show ?thesis by (simp only: n) (use ih in \<open>simp add: e\<close>)
  qed
qed

lemma exp_sube_unico:
  assumes "2 ^ E \<le> x" and "x < 2 * 2 ^ E"
  shows "exp_sube x = int E"
proof -
  have "(1::real) \<le> 2 ^ E" by simp
  with assms(1) have x1: "1 \<le> x" by linarith
  let ?F = "nat (exp_sube x)"
  from exp_sube_cotas [OF x1] have c: "0 \<le> exp_sube x" "2 ^ ?F \<le> x" "x < 2 * 2 ^ ?F"
    by simp_all
  from c(2) assms(2) have "(2::real) ^ ?F < 2 ^ Suc E" by simp
  then have a: "?F < Suc E" by (simp only: power_strict_increasing_iff [of "2::real"])
  from assms(1) c(3) have "(2::real) ^ E < 2 ^ Suc ?F" by simp
  then have b: "E < Suc ?F" by (simp only: power_strict_increasing_iff [of "2::real"])
  from a b c(1) show ?thesis by linarith
qed

lemma dos_a_grande: "52 \<le> E \<Longrightarrow> dos_a (int E - 52) = 2 ^ (E - 52)"
  by (simp add: dos_a_def nat_diff_distrib')

lemma dos_a_pequeno: "E < 52 \<Longrightarrow> dos_a (int E - 52) = 1 / 2 ^ (52 - E)"
proof -
  assume "E < 52"
  then have "nat (52 - int E) = 52 - E" by linarith
  with \<open>E < 52\<close> show ?thesis by (simp add: dos_a_def)
qed

lemma dos_a_pos: "0 < dos_a k"
  by (simp add: dos_a_def)

lemma dos_a_escala: "dos_a (int E - 52) * 2 ^ 52 = 2 ^ E"
proof (cases "52 \<le> E")
  case True
  then have s: "E - 52 + 52 = E" by simp
  have "(2::real) ^ (E - 52) * 2 ^ 52 = 2 ^ (E - 52 + 52)"
    by (rule power_add [symmetric])
  then have "(2::real) ^ (E - 52) * 2 ^ 52 = 2 ^ E" by (simp only: s)
  then show ?thesis by (simp only: dos_a_grande [OF True])
next
  case False
  then have l: "E < 52" and s: "52 - E + E = 52" by simp_all
  define a where "a = (2::real) ^ (52 - E)"
  have a0: "a \<noteq> 0" by (simp add: a_def)
  have "a * 2 ^ E = 2 ^ (52 - E + E)"
    unfolding a_def by (rule power_add [symmetric])
  then have "a * 2 ^ E = 2 ^ 52" by (simp only: s)
  with a0 have "1 / a * 2 ^ 52 = 2 ^ E" by (simp add: field_simps)
  then show ?thesis by (simp only: dos_a_pequeno [OF l] a_def)
qed

lemma rne_entero: "rne (of_int k) = k"
  by (simp add: rne_def)

lemma rne_abajo: "of_int a \<le> y \<Longrightarrow> a \<le> rne y"
proof -
  assume "of_int a \<le> y"
  then have "a \<le> \<lfloor>y\<rfloor>" by (simp add: le_floor_iff)
  then show ?thesis by (simp add: rne_def Let_def)
qed

lemma rne_arriba: "y \<le> of_int b \<Longrightarrow> rne y \<le> b"
proof -
  assume y: "y \<le> of_int b"
  then have f: "\<lfloor>y\<rfloor> \<le> b" by (simp add: floor_le_iff)
  show ?thesis
  proof (cases "\<lfloor>y\<rfloor> = b")
    case True
    with y have "y = of_int \<lfloor>y\<rfloor>" using of_int_floor_le [of y] by linarith
    then have "y - of_int \<lfloor>y\<rfloor> = 0" by simp
    with True show ?thesis by (simp add: rne_def Let_def)
  next
    case False
    with f have "\<lfloor>y\<rfloor> + 1 \<le> b" by linarith
    with f show ?thesis by (simp add: rne_def Let_def)
  qed
qed

lemma binary64_desde_uno:
  assumes "1 \<le> x"
  shows "binary64 x =
           (if 2 ^ 1024 \<le> \<bar>of_int (rne (x / dos_a (exp_sube x - 52))) * dos_a (exp_sube x - 52)\<bar>
            then Infinito
            else Num (of_int (rne (x / dos_a (exp_sube x - 52))) * dos_a (exp_sube x - 52)))"
proof -
  from exp_sube_cotas [OF assms] have "0 \<le> exp_sube x" by simp
  then have "max (exp_sube x) (- 1022) = exp_sube x" by simp
  with assms show ?thesis
    by (simp add: binary64_def exponente_def Let_def)
qed

text \<open>A value with a significand of 53 bits and exponent \<open>E\<close> is kept.\<close>

lemma binary64_representable:
  assumes "2 ^ 52 \<le> K" and "K < 2 ^ 53" and "x = real K * dos_a (int E - 52)"
  shows "binary64 x = (if 2 ^ 1024 \<le> x then Infinito else Num x)"
proof -
  have q: "dos_a (int E - 52) * 2 ^ 52 = 2 ^ E" "0 < dos_a (int E - 52)"
    by (rule dos_a_escala) (rule dos_a_pos)
  let ?q = "dos_a (int E - 52)"
  from assms(1) have "2 ^ 52 * ?q \<le> real K * ?q"
    using q(2) by (simp add: mult_right_mono)
  with q(1) assms(3) have lo: "2 ^ E \<le> x" by (simp add: mult.commute)
  from assms(2) have "real K * ?q < 2 ^ 53 * ?q"
    using q(2) by (simp add: mult_strict_right_mono)
  also have "2 ^ 53 * ?q = 2 * (?q * 2 ^ 52)" by simp
  also have "\<dots> = 2 * 2 ^ E" by (simp only: q(1))
  finally have hi: "x < 2 * 2 ^ E" by (simp add: assms(3))
  have e: "exp_sube x = int E" using lo hi by (rule exp_sube_unico)
  have "(1::real) \<le> 2 ^ E" by simp
  with lo have x1: "1 \<le> x" by linarith
  have d: "x / ?q = of_int (int K)" using q(2) by (simp add: assms(3))
  have r: "of_int (rne (x / ?q)) * ?q = x"
    by (simp only: d rne_entero) (simp add: assms(3))
  from x1 have "\<bar>x\<bar> = x" by simp
  with binary64_desde_uno [OF x1] show ?thesis
    by (simp only: e r)
qed

text \<open>A real of magnitude \<open>2 ^ 1024\<close> or more overflows.\<close>

lemma binary64_desborda:
  assumes "2 ^ 1024 \<le> x"
  shows "binary64 x = Infinito"
proof -
  have "(1::real) \<le> 2 ^ 1024" by simp
  with assms have x1: "1 \<le> x" by linarith
  define E where "E = nat (exp_sube x)"
  from exp_sube_cotas [OF x1] have c: "exp_sube x = int E" "2 ^ E \<le> x" "x < 2 * 2 ^ E"
    by (simp_all add: E_def)
  let ?q = "dos_a (int E - 52)"
  have q0: "0 < ?q" by (rule dos_a_pos)
  from assms c(3) have "(2::real) ^ 1024 < 2 ^ Suc E" by simp
  then have "1024 < Suc E" by (simp only: power_strict_increasing_iff [of "2::real"])
  then have "1024 \<le> E" by simp
  then have g: "(2::real) ^ 1024 \<le> 2 ^ E" by (simp only: power_increasing_iff [of "2::real"])
  from c(2) have "?q * 2 ^ 52 \<le> x" by (simp only: dos_a_escala)
  with q0 have "2 ^ 52 \<le> x / ?q" by (simp add: pos_le_divide_eq mult.commute)
  then have "real_of_int (2 ^ 52) \<le> x / ?q" by simp
  then have "2 ^ 52 \<le> rne (x / ?q)" by (rule rne_abajo)
  then have "real_of_int (2 ^ 52) \<le> of_int (rne (x / ?q))" by (simp only: of_int_le_iff)
  then have "(2::real) ^ 52 \<le> of_int (rne (x / ?q))" by simp
  with q0 have "2 ^ 52 * ?q \<le> of_int (rne (x / ?q)) * ?q"
    by (simp only: mult_le_cancel_right) simp
  moreover have "2 ^ 52 * ?q = 2 ^ E" by (simp only: mult.commute [of "2 ^ 52"] dos_a_escala)
  ultimately have "2 ^ 1024 \<le> of_int (rne (x / ?q)) * ?q" using g by linarith
  then have "2 ^ 1024 \<le> \<bar>of_int (rne (x / ?q)) * ?q\<bar>" by linarith
  with binary64_desde_uno [OF x1] show ?thesis by (simp only: c(1) if_True)
qed

lemma potencia_nat_abajo: "2 ^ E \<le> real n \<Longrightarrow> 2 ^ E \<le> n"
proof -
  assume "2 ^ E \<le> real n"
  then have "real (2 ^ E) \<le> real n" by simp
  then show ?thesis by (simp only: of_nat_le_iff)
qed

lemma potencia_nat_arriba: "real n < 2 * 2 ^ E \<Longrightarrow> n < 2 * 2 ^ E"
proof -
  assume "real n < 2 * 2 ^ E"
  then have "real n < real (2 * 2 ^ E)" by simp
  then show ?thesis by (simp only: of_nat_less_iff)
qed

lemma binary64_nat:
  assumes "n \<le> 2 ^ 53"
  shows "binary64 (real n) = Num (real n)"
proof (cases "n = 0")
  case True
  then show ?thesis by (simp add: binary64_def)
next
  case False
  then have x1: "1 \<le> real n" by simp
  define E where "E = nat (exp_sube (real n))"
  from exp_sube_cotas [OF x1] have "2 ^ E \<le> real n" "real n < 2 * 2 ^ E"
    by (simp_all add: E_def)
  then have lo: "2 ^ E \<le> n" and hi: "n < 2 * 2 ^ E"
    by (simp_all add: potencia_nat_abajo potencia_nat_arriba)
  from lo assms have "(2::nat) ^ E \<le> 2 ^ 53" by (rule le_trans)
  then have e53: "E \<le> 53" by (simp only: power_increasing_iff [of "2::nat"])
  have "\<exists>K F. 2 ^ 52 \<le> K \<and> K < 2 ^ 53 \<and> real n = real K * dos_a (int F - 52)"
  proof (cases "E < 52")
    case True
    then have s: "E + (52 - E) = 52" by simp
    have p: "(2::nat) ^ E * 2 ^ (52 - E) = 2 ^ 52"
      by (simp only: power_add [symmetric] s)
    from lo have "2 ^ E * 2 ^ (52 - E) \<le> n * 2 ^ (52 - E)" by (rule mult_le_mono1)
    then have a: "2 ^ 52 \<le> n * 2 ^ (52 - E)" by (simp only: p)
    from hi have "n * 2 ^ (52 - E) < (2 * 2 ^ E) * 2 ^ (52 - E)" by simp
    also have "\<dots> = 2 * (2 ^ E * 2 ^ (52 - E))" by (simp only: mult.assoc)
    also have "\<dots> = 2 ^ 53" by (simp only: p) simp
    finally have b: "n * 2 ^ (52 - E) < 2 ^ 53" .
    have "real n = real (n * 2 ^ (52 - E)) * dos_a (int E - 52)"
      by (simp add: dos_a_pequeno [OF True])
    with a b show ?thesis by blast
  next
    case False
    show ?thesis
    proof (cases "E = 52")
      case True
      with lo hi have "2 ^ 52 \<le> n" "n < 2 ^ 53" by simp_all
      moreover have "real n = real n * dos_a (int 52 - 52)" by (simp add: dos_a_def)
      ultimately show ?thesis by blast
    next
      case n52: False
      with False e53 have E: "E = 53" by simp
      with lo assms have n: "n = 2 ^ 53" by simp
      have "real n = real (2 ^ 52) * dos_a (int 53 - 52)" by (simp add: dos_a_def n)
      moreover have "(2::nat) ^ 52 \<le> 2 ^ 52" "(2::nat) ^ 52 < 2 ^ 53" by simp_all
      ultimately show ?thesis by blast
    qed
  qed
  then obtain K F where "2 ^ 52 \<le> K" "K < 2 ^ 53" "real n = real K * dos_a (int F - 52)"
    by blast
  from binary64_representable [OF this] assms show ?thesis by simp
qed

text \<open>The rounding of a natural number is a natural number that is kept, or Infinity.\<close>

lemma binary64_natural:
  "\<exists>k. (0 < n \<longrightarrow> 0 < k) \<and>
        binary64 (real n) = (if 2 ^ 1024 \<le> real k then Infinito else Num (real k)) \<and>
        binary64 (real k) = (if 2 ^ 1024 \<le> real k then Infinito else Num (real k))"
proof (cases "n \<le> 2 ^ 53")
  case True
  from binary64_nat [OF True] True show ?thesis
    by (intro exI [of _ n]) simp
next
  case False
  then have g: "2 ^ 53 < n" by simp
  then have x1: "1 \<le> real n" by simp
  define E where "E = nat (exp_sube (real n))"
  from exp_sube_cotas [OF x1] have c: "exp_sube (real n) = int E"
    "2 ^ E \<le> real n" "real n < 2 * 2 ^ E"
    by (simp_all add: E_def)
  from c(3) have hi: "n < 2 * 2 ^ E" by (rule potencia_nat_arriba)
  with g have "(2::nat) ^ 53 < 2 ^ Suc E" by simp
  then have "53 < Suc E" by (simp only: power_strict_increasing_iff [of "2::nat"])
  then have e52: "52 \<le> E" by simp
  define Q where "Q = (2::nat) ^ (E - 52)"
  have q: "dos_a (int E - 52) = real Q" by (simp add: dos_a_grande [OF e52] Q_def)
  have Q0: "0 < Q" by (simp add: Q_def)
  from e52 have s: "52 + (E - 52) = E" by simp
  have p: "(2::real) ^ 52 * real Q = 2 ^ E"
    unfolding Q_def of_nat_power of_nat_numeral by (simp only: power_add [symmetric] s)
  define y where "y = real n / real Q"
  define K where "K = rne y"
  from c(2) p Q0 have "2 ^ 52 \<le> y"
    by (simp add: y_def pos_le_divide_eq)
  then have "real_of_int (2 ^ 52) \<le> y" by simp
  then have lo: "2 ^ 52 \<le> K" unfolding K_def by (rule rne_abajo)
  from c(3) p Q0 have "y \<le> 2 ^ 53"
    by (simp add: y_def pos_divide_le_eq)
  then have "y \<le> real_of_int (2 ^ 53)" by simp
  then have up: "K \<le> 2 ^ 53" unfolding K_def by (rule rne_arriba)
  define k where "k = nat K * Q"
  from lo have K0: "0 < K" by simp
  then have rk: "real k = of_int K * real Q" by (simp add: k_def)
  from K0 Q0 have k0: "0 < k" by (simp add: k_def)
  have b: "binary64 (real n) = (if 2 ^ 1024 \<le> real k then Infinito else Num (real k))"
    using binary64_desde_uno [OF x1] k0
    by (simp only: c(1) q y_def [symmetric] K_def [symmetric] rk [symmetric]) simp
  have "\<exists>M F. 2 ^ 52 \<le> M \<and> M < 2 ^ 53 \<and> real k = real M * dos_a (int F - 52)"
  proof (cases "K < 2 ^ 53")
    case True
    with lo K0 have "2 ^ 52 \<le> nat K" "nat K < 2 ^ 53" by simp_all
    moreover from K0 have "real k = real (nat K) * dos_a (int E - 52)"
      by (simp add: q k_def)
    ultimately show ?thesis by blast
  next
    case False
    with up have K: "K = 2 ^ 53" by simp
    from e52 have t: "Suc E - 52 = Suc (E - 52)" by simp
    have "dos_a (int (Suc E) - 52) = 2 ^ (Suc E - 52)"
      by (rule dos_a_grande) (use e52 in simp)
    then have "dos_a (int (Suc E) - 52) = 2 * real Q"
      by (simp only: t power_Suc Q_def of_nat_power of_nat_numeral)
    then have "real k = real (2 ^ 52) * dos_a (int (Suc E) - 52)"
      by (simp add: rk K)
    moreover have "(2::nat) ^ 52 \<le> 2 ^ 52" "(2::nat) ^ 52 < 2 ^ 53" by simp_all
    ultimately show ?thesis by blast
  qed
  then obtain M F where "2 ^ 52 \<le> M" "M < 2 ^ 53" "real k = real M * dos_a (int F - 52)"
    by blast
  from binary64_representable [OF this] b k0 show ?thesis by blast
qed

lemma binary64_numeral:
  "numeral k \<le> (9007199254740992::nat) \<Longrightarrow> binary64 (numeral k) = Num (numeral k)"
  using binary64_nat [of "numeral k"] by simp

lemma binary64_cero: "binary64 0 = Num 0"
  by (simp add: binary64_def)

lemma binary64_uno: "binary64 1 = Num 1"
  using binary64_nat [of 1] by simp

lemmas enteros = binary64_numeral binary64_cero binary64_uno

lemma binary64_redondea: "redondea_naturales binary64"
proof -
  have "binary64 (real n) = Infinito \<or>
        (\<exists>k::nat. (0 < n \<longrightarrow> 0 < k) \<and> binary64 (real n) = Num (real k) \<and>
           binary64 (real k) = Num (real k))" for n
  proof -
    from binary64_natural [of n] obtain k where
      k: "0 < n \<longrightarrow> 0 < k"
         "binary64 (real n) = (if 2 ^ 1024 \<le> real k then Infinito else Num (real k))"
         "binary64 (real k) = (if 2 ^ 1024 \<le> real k then Infinito else Num (real k))"
      by blast
    show ?thesis
    proof (cases "(2::real) ^ 1024 \<le> real k")
      case True
      with k(2) show ?thesis by (simp only: if_True) simp
    next
      case False
      with k have "binary64 (real n) = Num (real k)" "binary64 (real k) = Num (real k)"
        by (simp_all only: if_False)
      with k(1) show ?thesis by blast
    qed
  qed
  then show ?thesis
    by (simp only: redondea_naturales_def binary64_cero binary64_uno) simp
qed

lemma exacta_redondea: "redondea_naturales exacta"
  by (auto simp: redondea_naturales_def exacta_def)

section \<open>Evaluation on concrete inputs\<close>

lemmas evaluar =
  js_def es_digito_def es_mayuscula_def es_minuscula_def es_espacio_def parseInt_def trim_def
  flecha_def replace_all_def sumar_def verdadero_def tope_def poner_tope_def pop_def
  cerrar_grupo_def agregar_def leer_numero_def parsearFormula_def parsearCompuesto_def
  normalizar_def parsearEcuacion_def enteros

lemma parsear_agua:
  "parsearEcuacion binary64 agua =
     Inr \<lparr>reactivos =
            [\<lparr>coeficiente = Num 2, formula = js ''H2'', elementos = [(js ''H'', Num 2)]\<rparr>,
             \<lparr>coeficiente = Num 1, formula = js ''O2'', elementos = [(js ''O'', Num 2)]\<rparr>],
          productos =
            [\<lparr>coeficiente = Num 2, formula = js ''H2O'',
              elementos = [(js ''H'', Num 2), (js ''O'', Num 1)]\<rparr>]\<rparr>"
  by (simp add: agua_def evaluar)

lemma formula_H2: "parsearFormula binary64 (js ''H2'') = Inr [(js ''H'', Num 2)]"
  by (simp add: evaluar)

lemma formula_O2: "parsearFormula binary64 (js ''O2'') = Inr [(js ''O'', Num 2)]"
  by (simp add: evaluar)

lemma formula_H2O:
  "parsearFormula binary64 (js ''H2O'') = Inr [(js ''H'', Num 2), (js ''O'', Num 1)]"
  by (simp add: evaluar)

lemma tabla_H: "tabla_ejemplo (js ''H'') = Some (1134907106097365 / 1125899906842624)"
  by (simp add: tabla_ejemplo_def js_def doble_def valor_def fp)

lemma tabla_O: "tabla_ejemplo (js ''O'') = Some (9006636304787571 / 562949953421312)"
  by (simp add: tabla_ejemplo_def js_def doble_def valor_def fp)

lemma masa_molar_H2:
  "calcularMasaMolar binary64 tabla_ejemplo (js ''H2'') =
     Inr (Num (1134907106097365 / 562949953421312))"
  by (simp add: calcularMasaMolar_def formula_H2 tabla_H) (simp add: fp)

lemma masa_molar_O2:
  "calcularMasaMolar binary64 tabla_ejemplo (js ''O2'') =
     Inr (Num (9006636304787571 / 281474976710656))"
  by (simp add: calcularMasaMolar_def formula_O2 tabla_O) (simp add: fp)

lemma masa_molar_H2O:
  "calcularMasaMolar binary64 tabla_ejemplo (js ''H2O'') =
     Inr (Num (1267692926360617 / 70368744177664))"
  by (simp add: calcularMasaMolar_def formula_H2O tabla_H tabla_O) (simp add: fp)

lemma validar_agua:
  "validarEcuacion binary64 tabla_ejemplo agua = \<lparr>valida = True, error = None\<rparr>"
  by (simp add: validarEcuacion_def parsear_agua validarElementos_def
        formula_H2 formula_O2 formula_H2O tabla_H tabla_O)

lemma balance_agua:
  "verificarBalance binary64 agua =
     Inr \<lparr>balanceada = True,
          detalles =
            [(js ''H'', \<lparr>en_reactivos = Num 4, en_productos = Num 4, balanceado = True\<rparr>),
             (js ''O'', \<lparr>en_reactivos = Num 2, en_productos = Num 2, balanceado = True\<rparr>)]\<rparr>"
  by (simp add: verificarBalance_def parsear_agua contarAtomos_def claves_set_def
        valor_o_cero_def sumar_def verdadero_def js_def enteros Let_def)

section \<open>The empty list of reactants\<close>

lemma valida_parsea:
  "valida (validarEcuacion rd ELEMENTOS ecuacion) \<Longrightarrow>
   \<exists>parseada. parsearEcuacion rd ecuacion = Inr parseada"
  by (cases "parsearEcuacion rd ecuacion") (simp_all add: validarEcuacion_def)

text \<open>
  C10. For a valid and balanced equation, an empty list of reactants leaves the candidate
  of the limiting-reagent search null, and the calculation ends with a TypeError instead
  of a result.
\<close>

theorem calcularEstequiometria_sin_reactivos:
  assumes "valida (validarEcuacion rd ELEMENTOS ecuacion)"
    and "verificarBalance rd ecuacion = Inr b"
    and "balanceada b"
  shows "calcularEstequiometria rd ELEMENTOS ecuacion [] datosProductoReal = Inl TypeError"
proof -
  obtain parseada where p: "parsearEcuacion rd ecuacion = Inr parseada"
    using valida_parsea [OF assms(1)] by blast
  have "encontrarReactivoLimitante rd ecuacion [] = Inl TypeError"
    by (simp add: encontrarReactivoLimitante_def p molesEfectivos_def)
  then show ?thesis
    using assms by (simp add: calcularEstequiometria_def)
qed

theorem calcularEstequiometria_sin_reactivos_witness:
  "valida (validarEcuacion binary64 tabla_ejemplo agua) \<and>
   map_sum id balanceada (verificarBalance binary64 agua) = Inr True \<and>
   calcularEstequiometria binary64 tabla_ejemplo agua [] None = Inl TypeError"
  using calcularEstequiometria_sin_reactivos [of binary64 tabla_ejemplo agua _ None]
  by (simp add: validar_agua balance_agua)

section \<open>Counts of a parsed formula\<close>

lemma es_natural_iff: "es_natural v \<longleftrightarrow> (\<exists>n::nat. v = Num (real n))"
proof
  assume "es_natural v"
  then obtain r where r: "v = Num r" "0 \<le> r" "of_int \<lfloor>r\<rfloor> = r"
    by (cases v) (simp_all add: es_natural_def)
  from r(2) have "0 \<le> \<lfloor>r\<rfloor>" by simp
  then have "real (nat \<lfloor>r\<rfloor>) = of_int \<lfloor>r\<rfloor>" by simp
  with r(1,3) show "\<exists>n::nat. v = Num (real n)" by metis
next
  assume "\<exists>n::nat. v = Num (real n)"
  then show "es_natural v" by (auto simp: es_natural_def)
qed

lemma update_list_all:
  "list_all P g \<Longrightarrow> P (k, v) \<Longrightarrow> list_all P (AList.update k v g)"
  by (induction g) auto

lemma todos_map_of: "todos P g \<Longrightarrow> map_of g e = Some v \<Longrightarrow> P v"
  by (auto simp: todos_def list_all_iff dest: map_of_SomeD)

lemma sumar_todos:
  assumes "\<And>a b. P a \<Longrightarrow> P b \<Longrightarrow> P (mas rd a b)"
    and "todos P g" and "P n"
  shows "todos P (sumar rd e n g)"
proof (cases "map_of g e")
  case None
  with assms(2,3) show ?thesis
    by (simp add: sumar_def todos_def update_list_all)
next
  case (Some v)
  from todos_map_of [OF assms(2) Some] have "P v" .
  with assms(1,3) have "P (mas rd v n)" by simp
  with assms(2,3) Some show ?thesis
    by (simp add: sumar_def todos_def update_list_all)
qed

lemma plegar_todos:
  assumes "\<And>a b. P a \<Longrightarrow> P b \<Longrightarrow> P (mas rd a b)"
    and "\<And>a b. P a \<Longrightarrow> P b \<Longrightarrow> P (multiplicar rd a b)"
  shows "todos P g \<Longrightarrow> todos P grupo \<Longrightarrow> P m \<Longrightarrow>
         todos P (foldl (\<lambda>g (elemento, n). sumar rd elemento (multiplicar rd n m) g) g grupo)"
proof (induction grupo arbitrary: g)
  case Nil
  then show ?case by simp
next
  case (Cons x grupo)
  obtain e n where x: "x = (e, n)" by (cases x)
  with Cons.prems have n: "P n" and r: "todos P grupo"
    by (simp_all add: todos_def)
  from n Cons.prems(3) have "P (multiplicar rd n m)" by (rule assms(2))
  with assms(1) Cons.prems(1) have "todos P (sumar rd e (multiplicar rd n m) g)"
    by (rule sumar_todos)
  from Cons.IH [OF this r Cons.prems(3)] show ?case by (simp add: x)
qed

lemma tope_todos: "pila_todos P p \<Longrightarrow> tope p = Some g \<Longrightarrow> todos P g"
  by (auto simp: pila_todos_def tope_def split: list.splits if_splits)

lemma poner_tope_todos:
  "pila_todos P p \<Longrightarrow> todos P g \<Longrightarrow> pila_todos P (poner_tope g p)"
  by (auto simp: pila_todos_def poner_tope_def split: list.splits)

lemma pop_todos:
  "pila_todos P p \<Longrightarrow> pop p = (grupo, p') \<Longrightarrow>
   pila_todos P p' \<and> (\<forall>g. grupo = Some g \<longrightarrow> todos P g)"
  by (auto simp: pila_todos_def pop_def split: list.splits if_splits)

lemma agregar_todos:
  assumes "\<And>a b. P a \<Longrightarrow> P b \<Longrightarrow> P (mas rd a b)"
    and "pila_todos P p" and "P n" and "agregar rd e n p = Inr p'"
  shows "pila_todos P p'"
proof -
  from assms(4) obtain g where g: "tope p = Some g"
    and p': "p' = poner_tope (sumar rd e n g) p"
    by (auto simp: agregar_def split: option.splits)
  from tope_todos [OF assms(2) g] have "todos P g" .
  with assms(1) have "todos P (sumar rd e n g)" using assms(3) by (rule sumar_todos)
  with assms(2) p' show ?thesis by (simp add: poner_tope_todos)
qed

lemma cerrar_grupo_todos:
  assumes "\<And>a b. P a \<Longrightarrow> P b \<Longrightarrow> P (mas rd a b)"
    and "\<And>a b. P a \<Longrightarrow> P b \<Longrightarrow> P (multiplicar rd a b)"
    and "pila_todos P p" and "P m" and "cerrar_grupo rd m p = Inr p'"
  shows "pila_todos P p'"
proof -
  obtain grupo q where pq: "pop p = (grupo, q)" by (cases "pop p")
  from pop_todos [OF assms(3) pq]
  have q: "pila_todos P q" and g: "\<forall>g. grupo = Some g \<longrightarrow> todos P g" by simp_all
  show ?thesis
  proof (cases grupo)
    case None
    with assms(5) pq q show ?thesis by (simp add: cerrar_grupo_def)
  next
    case (Some gr)
    show ?thesis
    proof (cases gr)
      case Nil
      with assms(5) pq q Some show ?thesis by (simp add: cerrar_grupo_def)
    next
      case (Cons x xs)
      with assms(5) pq Some obtain actual where
        t: "tope q = Some actual" and
        p': "p' = poner_tope
               (foldl (\<lambda>g (elemento, n). sumar rd elemento (multiplicar rd n m) g)
                  actual (x # xs)) q"
        by (auto simp: cerrar_grupo_def split: option.splits)
      from g Some Cons have "todos P (x # xs)" by simp
      with assms(1,2) tope_todos [OF q t]
      have "todos P (foldl (\<lambda>g (elemento, n). sumar rd elemento (multiplicar rd n m) g)
                       actual (x # xs))"
        using assms(4) by (rule plegar_todos)
      with q p' show ?thesis by (simp add: poner_tope_todos)
    qed
  qed
qed

text \<open>
  A property of numbers that every number read has, and that sums and products keep, holds
  for every count of the parser state.
\<close>

lemma bucle_todos:
  "\<forall>ds. P (leer_numero rd ds) \<Longrightarrow> \<forall>a b. P a \<longrightarrow> P b \<longrightarrow> P (mas rd a b) \<Longrightarrow>
   \<forall>a b. P a \<longrightarrow> P b \<longrightarrow> P (multiplicar rd a b) \<Longrightarrow>
   pila_todos P p \<Longrightarrow> bucle rd p s = Inr p' \<Longrightarrow> pila_todos P p'"
proof (induction rd p s arbitrary: p' rule: bucle.induct)
  case (1 rd p)
  then show ?case by simp
next
  case (2 rd p c cs)
  note leer = "2.prems"(1) and suma = "2.prems"(2) and por = "2.prems"(3)
  from suma have mas: "\<And>a b. P a \<Longrightarrow> P b \<Longrightarrow> P (mas rd a b)" by blast
  from por have mul: "\<And>a b. P a \<Longrightarrow> P b \<Longrightarrow> P (multiplicar rd a b)" by blast
  from leer have num: "\<And>ds. P (leer_numero rd ds)" by blast
  show ?case
  proof (cases "c = 40")
    case True
    from "2.prems"(4) have "pila_todos P (p\<lparr>grupos := [] # grupos p\<rparr>)"
      by (simp add: pila_todos_def todos_def)
    with "2.IH"(1) [OF True leer suma por] "2.prems"(5) True show ?thesis by simp
  next
    case n40: False
    show ?thesis
    proof (cases "c = 41")
      case True
      from "2.prems"(5) n40 True obtain q where
        q: "cerrar_grupo rd (leer_numero rd (takeWhile es_digito cs)) p = Inr q" and
        b: "bucle rd q (dropWhile es_digito cs) = Inr p'"
        by (auto split: sum.splits)
      have "pila_todos P q"
        by (rule cerrar_grupo_todos [OF mas mul "2.prems"(4) num q])
      from "2.IH"(2) [OF n40 True q leer suma por this b] show ?thesis .
    next
      case n41: False
      show ?thesis
      proof (cases "es_mayuscula c")
        case True
        from "2.prems"(5) n40 n41 True obtain q where
          q: "agregar rd (c # takeWhile es_minuscula cs)
                (leer_numero rd (takeWhile es_digito (dropWhile es_minuscula cs))) p = Inr q"
          and b: "bucle rd q (dropWhile es_digito (dropWhile es_minuscula cs)) = Inr p'"
          by (auto split: sum.splits)
        have "pila_todos P q"
          by (rule agregar_todos [OF mas "2.prems"(4) num q])
        from "2.IH"(3) [OF n40 n41 True q leer suma por this b] show ?thesis .
      next
        case False
        from "2.IH"(4) [OF n40 n41 False leer suma por "2.prems"(4)] "2.prems"(5)
          n40 n41 False
        show ?thesis by simp
      qed
    qed
  qed
qed

lemma parsearFormula_todos:
  assumes "\<And>ds. P (leer_numero rd ds)"
    and "\<And>a b. P a \<Longrightarrow> P b \<Longrightarrow> P (mas rd a b)"
    and "\<And>a b. P a \<Longrightarrow> P b \<Longrightarrow> P (multiplicar rd a b)"
    and "parsearFormula rd f = Inr m"
  shows "todos P m"
proof -
  from assms(4) obtain p where
    p: "bucle rd \<lparr>base = [], base_en_pila = True, grupos = []\<rparr> f = Inr p" and m: "m = base p"
    by (auto simp: parsearFormula_def split: sum.splits)
  have "pila_todos P \<lparr>base = [], base_en_pila = True, grupos = []\<rparr>"
    by (simp add: pila_todos_def todos_def)
  moreover from assms(1-3) have "\<forall>ds. P (leer_numero rd ds)"
    "\<forall>a b. P a \<longrightarrow> P b \<longrightarrow> P (mas rd a b)" "\<forall>a b. P a \<longrightarrow> P b \<longrightarrow> P (multiplicar rd a b)"
    by blast+
  ultimately have "pila_todos P p" using p by (intro bucle_todos [of P rd _ f p])
  with m show ?thesis by (simp add: pila_todos_def)
qed

text \<open>With a rounding that is regular on the natural numbers every count is regular.\<close>

lemma regular_casos:
  "regular rd v \<longleftrightarrow>
     v = Infinito \<or> v = NaN \<or> (\<exists>k::nat. v = Num (real k) \<and> rd (real k) = Num (real k))"
  by (cases v)
     (auto simp: regular_def entero_no_negativo_def conservado_def es_natural_iff)

lemma redondeo_regular: "redondea_naturales rd \<Longrightarrow> regular rd (rd (real n))"
proof -
  assume "redondea_naturales rd"
  then have "rd (real n) = Infinito \<or>
             (\<exists>k::nat. rd (real n) = Num (real k) \<and> rd (real k) = Num (real k))"
    unfolding redondea_naturales_def by blast
  then show ?thesis by (simp only: regular_casos) blast
qed

lemma leer_regular: "redondea_naturales rd \<Longrightarrow> regular rd (leer_numero rd ds)"
proof (cases "ds = []")
  case True
  assume "redondea_naturales rd"
  then have "rd (real 1) = Num (real 1)" by (simp add: redondea_naturales_def)
  then have "regular rd (Num (real 1))" by (simp only: regular_casos) blast
  with True show ?thesis by (simp add: leer_numero_def)
next
  case False
  assume "redondea_naturales rd"
  with False show ?thesis by (simp add: leer_numero_def parseInt_def redondeo_regular)
qed

lemma mas_regular:
  assumes "redondea_naturales rd" and "regular rd a" and "regular rd b"
  shows "regular rd (mas rd a b)"
proof -
  have n: "regular rd NaN" and i: "regular rd Infinito"
    by (simp_all add: regular_casos)
  from assms(2) consider "a = Infinito" | "a = NaN" | j where "a = Num (real j)"
    by (auto simp: regular_casos)
  then show ?thesis
  proof cases
    case 1
    from assms(3) consider "b = Infinito" | "b = NaN" | k where "b = Num (real k)"
      by (auto simp: regular_casos)
    then show ?thesis using 1 n i by cases simp_all
  next
    case 2
    with n show ?thesis by simp
  next
    case 3
    from assms(3) consider "b = Infinito" | "b = NaN" | k where "b = Num (real k)"
      by (auto simp: regular_casos)
    then show ?thesis
    proof cases
      case (3 k)
      have "mas rd a b = rd (real (j + k))" by (simp add: \<open>a = Num (real j)\<close> 3)
      with redondeo_regular [OF assms(1), of "j + k"] show ?thesis by simp
    qed (use 3 n i in simp_all)
  qed
qed

lemma multiplicar_regular:
  assumes "redondea_naturales rd" and "regular rd a" and "regular rd b"
  shows "regular rd (multiplicar rd a b)"
proof -
  have n: "regular rd NaN" and i: "regular rd Infinito"
    by (simp_all add: regular_casos)
  from assms(2) consider "a = Infinito" | "a = NaN" | j where "a = Num (real j)"
    by (auto simp: regular_casos)
  then show ?thesis
  proof cases
    case 1
    from assms(3) consider "b = Infinito" | "b = NaN" | k where "b = Num (real k)"
      by (auto simp: regular_casos)
    then show ?thesis using 1 n i by cases simp_all
  next
    case 2
    with n show ?thesis by simp
  next
    case 3
    from assms(3) consider "b = Infinito" | "b = NaN" | k where "b = Num (real k)"
      by (auto simp: regular_casos)
    then show ?thesis
    proof cases
      case (3 k)
      have "multiplicar rd a b = rd (real (j * k))" by (simp add: \<open>a = Num (real j)\<close> 3)
      with redondeo_regular [OF assms(1), of "j * k"] show ?thesis by simp
    qed (use 3 n i in simp_all)
  qed
qed

lemma parsearFormula_regular:
  assumes "redondea_naturales rd" and "parsearFormula rd f = Inr m"
  shows "todos (regular rd) m"
  using assms(2)
proof (rule parsearFormula_todos [of "regular rd" rd, rotated 3])
  fix ds
  show "regular rd (leer_numero rd ds)" using assms(1) by (rule leer_regular)
next
  fix a b
  assume "regular rd a" "regular rd b"
  with assms(1) show "regular rd (mas rd a b)" by (rule mas_regular)
next
  fix a b
  assume "regular rd a" "regular rd b"
  with assms(1) show "regular rd (multiplicar rd a b)" by (rule multiplicar_regular)
qed





section \<open>Conversions between mass and moles\<close>








text \<open>
  In binary64 the two conversions are inverse only up to rounding: 10 g of water converted
  to moles and back are 10.000000000000002 g.
\<close>

lemma ida_y_vuelta_redondeada:
  "(case masaAMoles binary64 tabla_ejemplo (Num 10) (js ''H2O'') of
      Inl e \<Rightarrow> Inl e | Inr n \<Rightarrow> molesAMasa binary64 tabla_ejemplo n (js ''H2O'')) =
   Inr (Num (10 + 1 / 2 ^ 49))"
  by (simp add: masaAMoles_def molesAMasa_def masa_molar_H2O) (simp add: fp)

section \<open>Percent yield\<close>

lemma js_eq [simp]: "js a = js b \<longleftrightarrow> a = b"
  by (simp add: js_def inj_map_eq_map inj_of_char)

lemma agua_limitante:
  "encontrarReactivoLimitante binary64 agua
     [\<lparr>rcm_formula = js ''H2'', masaInicial = a, rcm_moles = Num 2,
       rcm_pureza = Num 100\<rparr>,
      \<lparr>rcm_formula = js ''O2'', masaInicial = b, rcm_moles = Num 2,
       rcm_pureza = Num 100\<rparr>] =
   Inr \<lparr>lim_formula = js ''H2'', lim_moles = Num 2, proporcion = Num 1\<rparr>"
  by (simp add: encontrarReactivoLimitante_def parsear_agua molesEfectivos_def
        coeficiente_de_def verdadero_def enteros Let_def)

lemma agua_con_moles:
  "mapear (con_moles binary64 tabla_ejemplo) [en_moles ''H2'' 2, en_moles ''O2'' 2] =
   Inr [\<lparr>rcm_formula = js ''H2'', masaInicial = Num (1134907106097365 / 281474976710656), rcm_moles = Num 2,
         rcm_pureza = Num 100\<rparr>,
        \<lparr>rcm_formula = js ''O2'', masaInicial = Num (9006636304787571 / 140737488355328), rcm_moles = Num 2,
         rcm_pureza = Num 100\<rparr>]"
  by (simp add: con_moles_def en_moles_def a_numero_def verdadero_def molesAMasa_def
        masa_molar_H2 masa_molar_O2) (simp add: fp)

lemma agua_exceso:
  "calcularExceso binary64 tabla_ejemplo agua
     [\<lparr>rcm_formula = js ''H2'', masaInicial = a, rcm_moles = Num 2,
       rcm_pureza = Num 100\<rparr>,
      \<lparr>rcm_formula = js ''O2'', masaInicial = b, rcm_moles = Num 2,
       rcm_pureza = Num 100\<rparr>]
     \<lparr>lim_formula = js ''H2'', lim_moles = Num 2, proporcion = Num 1\<rparr> =
   Inr [\<lparr>ex_formula = js ''O2'', molesIniciales = Num 2, molesUsados = Num 1,
         molesSobrantes = Num 1, masaSobrante = Num (9006636304787571 / 281474976710656)\<rparr>]"
  by (simp add: calcularExceso_def parsear_agua molesAMasa_def masa_molar_O2 Let_def enteros)
     (simp add: fp)

lemma agua_teorico:
  "calcularRendimientoTeorico binary64 tabla_ejemplo agua
     \<lparr>lim_formula = js ''H2'', lim_moles = Num 2, proporcion = Num 1\<rparr> =
   Inr [\<lparr>pt_formula = js ''H2O'', pt_coeficiente = Num 2, molesTeoricoS = Num 2,
         masaTeorica = Num (1267692926360617 / 35184372088832)\<rparr>]"
  by (simp add: calcularRendimientoTeorico_def parsear_agua molesAMasa_def masa_molar_H2O
        enteros) (simp add: fp)

lemma agua_armar:
  "armar binary64 tabla_ejemplo
     \<lparr>lim_formula = js ''H2'', lim_moles = Num 2, proporcion = Num 1\<rparr>
     [\<lparr>ex_formula = js ''O2'', molesIniciales = Num 2, molesUsados = Num 1,
       molesSobrantes = Num 1, masaSobrante = s\<rparr>]
     [\<lparr>pt_formula = js ''H2O'', pt_coeficiente = Num 2, molesTeoricoS = Num 2,
       masaTeorica = t\<rparr>] porcentaje =
   Inr \<lparr>ecuacionValida = True, res_balanceada = True,
        reactivoLimitante =
          \<lparr>rl_formula = js ''H2'', rl_masaMolar = Num (1134907106097365 / 562949953421312), rl_molesUsados = Num 2\<rparr>,
        reactivosEnExceso =
          [\<lparr>er_formula = js ''O2'', er_masaMolar = Num (9006636304787571 / 281474976710656), er_molesIniciales = Num 2,
            er_molesUsados = Num 1, er_molesSobrantes = Num 1, er_masaSobrante = s\<rparr>],
        res_productos =
          [\<lparr>ps_formula = js ''H2O'', ps_masaMolar = Num (1267692926360617 / 70368744177664), molesTeoricos = Num 2,
            ps_masaTeorica = t\<rparr>],
        porcentajeRendimiento = porcentaje\<rparr>"
  by (simp add: armar_def masa_molar_H2 masa_molar_O2 masa_molar_H2O)

lemma agua_estequiometria:
  "calcularEstequiometria binary64 tabla_ejemplo agua
     [en_moles ''H2'' 2, en_moles ''O2'' 2] d =
     (case porcentaje_de binary64 tabla_ejemplo
             [\<lparr>pt_formula = js ''H2O'', pt_coeficiente = Num 2, molesTeoricoS = Num 2,
               masaTeorica = Num (1267692926360617 / 35184372088832)\<rparr>] d of
        Inl e \<Rightarrow> Inl e
      | Inr porcentaje \<Rightarrow>
          Inr \<lparr>ecuacionValida = True, res_balanceada = True,
               reactivoLimitante =
                 \<lparr>rl_formula = js ''H2'', rl_masaMolar = Num (1134907106097365 / 562949953421312), rl_molesUsados = Num 2\<rparr>,
               reactivosEnExceso =
                 [\<lparr>er_formula = js ''O2'', er_masaMolar = Num (9006636304787571 / 281474976710656),
                   er_molesIniciales = Num 2, er_molesUsados = Num 1,
                   er_molesSobrantes = Num 1, er_masaSobrante = Num (9006636304787571 / 281474976710656)\<rparr>],
               res_productos =
                 [\<lparr>ps_formula = js ''H2O'', ps_masaMolar = Num (1267692926360617 / 70368744177664), molesTeoricos = Num 2,
                   ps_masaTeorica = Num (1267692926360617 / 35184372088832)\<rparr>],
               porcentajeRendimiento = porcentaje\<rparr>)"
  by (simp add: calcularEstequiometria_def validar_agua balance_agua agua_con_moles
        agua_limitante agua_exceso agua_teorico agua_armar del: mapear.simps
        split: sum.split)

lemma agua_porcentaje:
  "porcentaje_de binary64 tabla_ejemplo
     [\<lparr>pt_formula = js ''H2O'', pt_coeficiente = Num 2, molesTeoricoS = Num 2,
       masaTeorica = Num (1267692926360617 / 35184372088832)\<rparr>]
     (Some \<lparr>pr_formula = js ''H2O'', masaReal = Some (Num 9), molesReales = Some (Num 1)\<rparr>) =
   Inr (Some (Num 50))"
  by (simp add: porcentaje_de_def molesAMasa_def masa_molar_H2O a_numero_def
        calcularPorcentajeRendimiento_def) (simp add: fp)

theorem porcentaje_prefiere_masa_counterexample:
  "map_sum id porcentajeRendimiento
     (calcularEstequiometria binary64 tabla_ejemplo agua
        [en_moles ''H2'' 2, en_moles ''O2'' 2]
        (Some \<lparr>pr_formula = js ''H2O'', masaReal = Some (Num 9),
               molesReales = Some (Num 1)\<rparr>)) = Inr (Some (Num 50)) \<and>
   map_sum id (map ps_masaTeorica \<circ> res_productos)
     (calcularEstequiometria binary64 tabla_ejemplo agua
        [en_moles ''H2'' 2, en_moles ''O2'' 2]
        (Some \<lparr>pr_formula = js ''H2O'', masaReal = Some (Num 9),
               molesReales = Some (Num 1)\<rparr>)) = Inr [Num (doble 36.03)] \<and>
   calcularPorcentajeRendimiento binary64 (Num 9) (Num (doble 36.03)) \<noteq> Num 50"
proof -
  have d: "doble 36.03 = 1267692926360617 / 35184372088832"
    by (simp add: doble_def valor_def fp)
  have "calcularPorcentajeRendimiento binary64 (Num 9)
          (Num (1267692926360617 / 35184372088832)) \<noteq> Num 50"
    by (simp add: calcularPorcentajeRendimiento_def fp)
  then show ?thesis
    unfolding d by (simp add: agua_estequiometria agua_porcentaje)
qed

lemma mapear_find:
  assumes "mapear g xs = Inr ys"
    and "\<And>x y. g x = Inr y \<Longrightarrow> P y = Q x"
    and "find P ys = Some y"
  shows "\<exists>x. find Q xs = Some x \<and> g x = Inr y"
  using assms(1,3)
proof (induction xs arbitrary: ys)
  case Nil
  then show ?case by simp
next
  case (Cons x xs)
  from Cons.prems(1) obtain z zs where
    z: "g x = Inr z" and zs: "mapear g xs = Inr zs" and ys: "ys = z # zs"
    by (auto split: sum.splits)
  show ?case
  proof (cases "Q x")
    case True
    with assms(2) [OF z] Cons.prems(2) ys z show ?thesis by simp
  next
    case False
    with assms(2) [OF z] Cons.prems(2) ys have "find P zs = Some y" by simp
    from Cons.IH [OF zs this] False show ?thesis by simp
  qed
qed

lemma armar_campos:
  assumes "armar rd ELEMENTOS limitante excesos productosTeoricos porcentaje = Inr r"
  shows "porcentajeRendimiento r = porcentaje \<and>
         mapear (\<lambda>p. case calcularMasaMolar rd ELEMENTOS (pt_formula p) of
                        Inl err \<Rightarrow> Inl err
                      | Inr m \<Rightarrow>
                          Inr \<lparr>ps_formula = pt_formula p, ps_masaMolar = m,
                               molesTeoricos = molesTeoricoS p,
                               ps_masaTeorica = masaTeorica p\<rparr>)
           productosTeoricos = Inr (res_productos r)"
  using assms by (auto simp: armar_def split: sum.splits)

lemma estequiometria_etapas:
  assumes "calcularEstequiometria rd ELEMENTOS ecuacion datosReactivos datosProductoReal = Inr r"
  shows "\<exists>limitante excesos productosTeoricos porcentaje.
           porcentaje_de rd ELEMENTOS productosTeoricos datosProductoReal = Inr porcentaje \<and>
           armar rd ELEMENTOS limitante excesos productosTeoricos porcentaje = Inr r"
  using assms
  by (auto simp: calcularEstequiometria_def Let_def split: if_splits sum.splits)

text \<open>
  C1, as the code has it. When the calculation returns a result and the actual product
  names a theoretical product, the percent yield is (actual mass / theoretical mass) * 100,
  or 0 when the theoretical mass is exactly 0, where the actual mass is the actual moles
  times the molar mass of the product whenever actual moles are supplied (also when an
  actual mass is supplied with them), and the supplied actual mass only when actual moles
  are absent.
\<close>

theorem porcentaje_prefiere_moles:
  assumes "calcularEstequiometria rd ELEMENTOS ecuacion datosReactivos (Some d) = Inr r"
    and "find (\<lambda>p. ps_formula p = pr_formula d) (res_productos r) = Some p"
  shows "porcentajeRendimiento r =
           Some (let masa_real =
                       (case molesReales d of
                          Some n \<Rightarrow> multiplicar rd n (ps_masaMolar p)
                        | None \<Rightarrow> a_numero (masaReal d))
                 in if ps_masaTeorica p = Num 0 then Num 0
                    else multiplicar rd (dividir rd masa_real (ps_masaTeorica p)) (Num 100))"
proof -
  obtain limitante excesos pts pc where
    pc: "porcentaje_de rd ELEMENTOS pts (Some d) = Inr pc" and
    ar: "armar rd ELEMENTOS limitante excesos pts pc = Inr r"
    using estequiometria_etapas [OF assms(1)] by blast
  let ?g = "\<lambda>p. case calcularMasaMolar rd ELEMENTOS (pt_formula p) of
                   Inl err \<Rightarrow> Inl err
                 | Inr m \<Rightarrow>
                     Inr \<lparr>ps_formula = pt_formula p, ps_masaMolar = m,
                          molesTeoricos = molesTeoricoS p,
                          ps_masaTeorica = masaTeorica p\<rparr>"
  from armar_campos [OF ar] have r: "porcentajeRendimiento r = pc"
    and m: "mapear ?g pts = Inr (res_productos r)" by simp_all
  have "\<exists>x. find (\<lambda>x. pt_formula x = pr_formula d) pts = Some x \<and> ?g x = Inr p"
  proof (rule mapear_find [where P = "\<lambda>p. ps_formula p = pr_formula d", OF m _ assms(2)])
    fix x y
    assume "?g x = Inr y"
    then show "(ps_formula y = pr_formula d) = (pt_formula x = pr_formula d)"
      by (auto split: sum.splits)
  qed
  then obtain x where
    x: "find (\<lambda>x. pt_formula x = pr_formula d) pts = Some x" and gx: "?g x = Inr p"
    by blast
  from x have fx: "pt_formula x = pr_formula d"
    by (auto simp: find_Some_iff)
  from gx fx have mm: "calcularMasaMolar rd ELEMENTOS (pr_formula d) = Inr (ps_masaMolar p)"
    and mt: "ps_masaTeorica p = masaTeorica x"
    by (auto split: sum.splits)
  from pc show ?thesis
    by (auto simp: porcentaje_de_def x r mt mm molesAMasa_def a_numero_def
          calcularPorcentajeRendimiento_def split: option.splits)
qed

theorem porcentaje_prefiere_moles_witness:
  "calcularEstequiometria binary64 tabla_ejemplo agua [en_moles ''H2'' 2, en_moles ''O2'' 2]
     (Some \<lparr>pr_formula = js ''H2O'', masaReal = Some (Num 9), molesReales = Some (Num 1)\<rparr>) =
   Inr \<lparr>ecuacionValida = True, res_balanceada = True,
        reactivoLimitante =
          \<lparr>rl_formula = js ''H2'', rl_masaMolar = Num (doble 2.016), rl_molesUsados = Num 2\<rparr>,
        reactivosEnExceso =
          [\<lparr>er_formula = js ''O2'', er_masaMolar = Num (doble 31.998),
            er_molesIniciales = Num 2, er_molesUsados = Num 1, er_molesSobrantes = Num 1,
            er_masaSobrante = Num (doble 31.998)\<rparr>],
        res_productos =
          [\<lparr>ps_formula = js ''H2O'', ps_masaMolar = Num (doble 18.015),
            molesTeoricos = Num 2, ps_masaTeorica = Num (doble 36.03)\<rparr>],
        porcentajeRendimiento = Some (Num 50)\<rparr>"
proof -
  let ?d = "\<lparr>pr_formula = js ''H2O'', masaReal = Some (Num 9), molesReales = Some (Num 1)\<rparr>"
  let ?p = "\<lparr>ps_formula = js ''H2O'', ps_masaMolar = Num (1267692926360617 / 70368744177664),
             molesTeoricos = Num 2, ps_masaTeorica = Num (1267692926360617 / 35184372088832)\<rparr>"
  let ?l = "\<lparr>rl_formula = js ''H2'', rl_masaMolar = Num (1134907106097365 / 562949953421312), rl_molesUsados = Num 2\<rparr>"
  let ?e = "\<lparr>er_formula = js ''O2'', er_masaMolar = Num (9006636304787571 / 281474976710656),
             er_molesIniciales = Num 2, er_molesUsados = Num 1, er_molesSobrantes = Num 1,
             er_masaSobrante = Num (9006636304787571 / 281474976710656)\<rparr>"
  have dobles: "doble 2.016 = 1134907106097365 / 562949953421312" "doble 31.998 = 9006636304787571 / 281474976710656"
    "doble 18.015 = 1267692926360617 / 70368744177664" "doble 36.03 = 1267692926360617 / 35184372088832"
    by (simp_all add: doble_def valor_def fp)
  have "\<exists>r. calcularEstequiometria binary64 tabla_ejemplo agua
          [en_moles ''H2'' 2, en_moles ''O2'' 2] (Some ?d) = Inr r \<and>
        res_productos r = [?p] \<and> reactivoLimitante r = ?l \<and> reactivosEnExceso r = [?e] \<and>
        ecuacionValida r \<and> res_balanceada r"
    by (simp add: agua_estequiometria agua_porcentaje)
  then obtain r where
    r: "calcularEstequiometria binary64 tabla_ejemplo agua
          [en_moles ''H2'' 2, en_moles ''O2'' 2] (Some ?d) = Inr r"
    and ps: "res_productos r = [?p]"
    and rest: "reactivoLimitante r = ?l" "reactivosEnExceso r = [?e]"
      "ecuacionValida r" "res_balanceada r"
    by blast
  have f: "find (\<lambda>p. ps_formula p = pr_formula ?d) (res_productos r) = Some ?p"
    by (simp add: ps)
  from porcentaje_prefiere_moles [OF r f]
  have "porcentajeRendimiento r = Some (Num 50)" by (simp add: fp)
  with r ps rest show ?thesis unfolding dobles by (cases r) simp
qed

section \<open>Validation of an equation\<close>

text \<open>
  C2. The text \<^verbatim>\<open>-> H2O\<close> has no reactant: its left side is empty. The split of the
  empty side on \<^verbatim>\<open>+\<close> is the list of one empty segment, so the test for an empty list
  of reactants does not fire, and validation accepts an equation whose only reactant term
  has the empty formula.
\<close>

theorem validarEcuacion_sin_reactivo:
  "validarEcuacion binary64 tabla_ejemplo (js ''-> H2O'') = \<lparr>valida = True, error = None\<rparr> \<and>
   parsearEcuacion binary64 (js ''-> H2O'') =
     Inr \<lparr>reactivos = [\<lparr>coeficiente = Num 1, formula = [], elementos = []\<rparr>],
          productos =
            [\<lparr>coeficiente = Num 1, formula = js ''H2O'',
              elementos = [(js ''H'', Num 2), (js ''O'', Num 1)]\<rparr>]\<rparr>"
proof -
  have p: "parsearEcuacion binary64 (js ''-> H2O'') =
     Inr \<lparr>reactivos = [\<lparr>coeficiente = Num 1, formula = [], elementos = []\<rparr>],
          productos =
            [\<lparr>coeficiente = Num 1, formula = js ''H2O'',
              elementos = [(js ''H'', Num 2), (js ''O'', Num 1)]\<rparr>]\<rparr>"
    by (simp add: evaluar)
  have e: "parsearFormula binary64 [] = Inr []"
    by (simp add: parsearFormula_def)
  show ?thesis
    by (simp add: validarEcuacion_def p validarElementos_def e formula_H2O tabla_H tabla_O)
qed

section \<open>The limiting reagent\<close>

lemma menor_irrefl: "\<not> menor a a"
  by (cases a) simp_all

lemma menor_asym: "menor a b \<Longrightarrow> \<not> menor b a"
  by (cases a; cases b) simp_all

lemma menor_trans: "menor a b \<Longrightarrow> menor b c \<Longrightarrow> menor a c"
  by (cases a; cases b; cases c) simp_all

lemma menor_no_menor: "menor m m0 \<Longrightarrow> \<not> menor a m0 \<Longrightarrow> \<not> menor a m"
  by (cases a; cases m; cases m0) simp_all


lemma buscar_menor_inv:
  assumes "buscar_menor rd (l0, m0) xs = (l, m)"
  shows "(\<forall>y \<in> set xs. \<not> menor (dividir rd (ef_moles y) (ef_coeficiente y)) m) \<and>
         ((l = l0 \<and> m = m0) \<or>
          (\<exists>pre x post. xs = pre @ x # post \<and> l = Some x \<and>
             m = dividir rd (ef_moles x) (ef_coeficiente x) \<and> menor m m0 \<and>
             (\<forall>y \<in> set pre. dividir rd (ef_moles y) (ef_coeficiente y) \<noteq> m)))"
  using assms
proof (induction xs arbitrary: l0 m0)
  case Nil
  then show ?case by simp
next
  case (Cons x xs)
  let ?r = "\<lambda>y. dividir rd (ef_moles y) (ef_coeficiente y)"
  show ?case
  proof (cases "menor (?r x) m0")
    case True
    with Cons.prems have b: "buscar_menor rd (Some x, ?r x) xs = (l, m)"
      by (simp add: Let_def)
    from Cons.IH [OF b] have
      all: "\<forall>y \<in> set xs. \<not> menor (?r y) m" and
      alt: "(l = Some x \<and> m = ?r x) \<or>
            (\<exists>pre z post. xs = pre @ z # post \<and> l = Some z \<and> m = ?r z \<and>
               menor m (?r x) \<and> (\<forall>y \<in> set pre. ?r y \<noteq> m))"
      by simp_all
    from alt show ?thesis
    proof
      assume u: "l = Some x \<and> m = ?r x"
      with all have "\<forall>y \<in> set (x # xs). \<not> menor (?r y) m"
        by (simp add: menor_irrefl)
      moreover from u True have
        "x # xs = [] @ x # xs \<and> l = Some x \<and> m = ?r x \<and> menor m m0 \<and>
         (\<forall>y \<in> set []. ?r y \<noteq> m)"
        by simp
      ultimately show ?thesis by blast
    next
      assume "\<exists>pre z post. xs = pre @ z # post \<and> l = Some z \<and> m = ?r z \<and>
                menor m (?r x) \<and> (\<forall>y \<in> set pre. ?r y \<noteq> m)"
      then obtain pre z post where
        z: "xs = pre @ z # post" "l = Some z" "m = ?r z" "menor m (?r x)"
           "\<forall>y \<in> set pre. ?r y \<noteq> m"
        by blast
      from z(4) have nx: "\<not> menor (?r x) m" and ne: "?r x \<noteq> m"
        using menor_asym menor_irrefl by auto
      from z(4) True have "menor m m0" by (rule menor_trans)
      with z ne have
        "x # xs = (x # pre) @ z # post \<and> l = Some z \<and> m = ?r z \<and> menor m m0 \<and>
         (\<forall>y \<in> set (x # pre). ?r y \<noteq> m)"
        by simp
      moreover from all nx have "\<forall>y \<in> set (x # xs). \<not> menor (?r y) m" by simp
      ultimately show ?thesis by blast
    qed
  next
    case False
    with Cons.prems have b: "buscar_menor rd (l0, m0) xs = (l, m)"
      by (simp add: Let_def)
    from Cons.IH [OF b] have
      all: "\<forall>y \<in> set xs. \<not> menor (?r y) m" and
      alt: "(l = l0 \<and> m = m0) \<or>
            (\<exists>pre z post. xs = pre @ z # post \<and> l = Some z \<and> m = ?r z \<and>
               menor m m0 \<and> (\<forall>y \<in> set pre. ?r y \<noteq> m))"
      by simp_all
    from alt show ?thesis
    proof
      assume u: "l = l0 \<and> m = m0"
      with all False have "\<forall>y \<in> set (x # xs). \<not> menor (?r y) m" by simp
      with u show ?thesis by blast
    next
      assume "\<exists>pre z post. xs = pre @ z # post \<and> l = Some z \<and> m = ?r z \<and>
                menor m m0 \<and> (\<forall>y \<in> set pre. ?r y \<noteq> m)"
      then obtain pre z post where
        z: "xs = pre @ z # post" "l = Some z" "m = ?r z" "menor m m0"
           "\<forall>y \<in> set pre. ?r y \<noteq> m"
        by blast
      from z(4) False have nx: "\<not> menor (?r x) m" by (rule menor_no_menor)
      from z(4) False have ne: "?r x \<noteq> m" by auto
      from z ne have
        "x # xs = (x # pre) @ z # post \<and> l = Some z \<and> m = ?r z \<and> menor m m0 \<and>
         (\<forall>y \<in> set (x # pre). ?r y \<noteq> m)"
        by simp
      moreover from all nx have "\<forall>y \<in> set (x # xs). \<not> menor (?r y) m" by simp
      ultimately show ?thesis by blast
    qed
  qed
qed

lemma razon_efectivo:
  "molesEfectivos rd rs datos =
     map (\<lambda>dato. \<lparr>ef_formula = rcm_formula dato,
                   ef_moles = multiplicar rd (rcm_moles dato) (dividir rd (rcm_pureza dato) (Num 100)),
                   ef_coeficiente = coeficiente_de rs (rcm_formula dato)\<rparr>) datos"
  by (simp add: molesEfectivos_def)

lemma limitante_inv:
  assumes "buscar_menor rd (None, Infinito) (molesEfectivos rd rs datos) = (l, m)"
  shows "(l = None \<and> (\<forall>y \<in> set datos. \<not> menor (razon rd rs y) Infinito)) \<or>
         (\<exists>pre d post. datos = pre @ d # post \<and>
            l = Some \<lparr>ef_formula = rcm_formula d,
                      ef_moles = multiplicar rd (rcm_moles d) (dividir rd (rcm_pureza d) (Num 100)),
                      ef_coeficiente = coeficiente_de rs (rcm_formula d)\<rparr> \<and>
            m = razon rd rs d \<and> menor m Infinito \<and>
            (\<forall>y \<in> set datos. \<not> menor (razon rd rs y) (razon rd rs d)) \<and>
            (\<forall>y \<in> set pre. razon rd rs y \<noteq> razon rd rs d))"
proof -
  let ?f = "\<lambda>dato. \<lparr>ef_formula = rcm_formula dato,
                   ef_moles = multiplicar rd (rcm_moles dato) (dividir rd (rcm_pureza dato) (Num 100)),
                   ef_coeficiente = coeficiente_de rs (rcm_formula dato)\<rparr>"
  let ?r = "\<lambda>y. dividir rd (ef_moles y) (ef_coeficiente y)"
  have rz: "\<And>d. ?r (?f d) = razon rd rs d"
    by (simp add: razon_def)
  from buscar_menor_inv [OF assms] have
    all: "\<forall>y \<in> set (map ?f datos). \<not> menor (?r y) m" and
    alt: "(l = None \<and> m = Infinito) \<or>
          (\<exists>pre x post. map ?f datos = pre @ x # post \<and> l = Some x \<and> m = ?r x \<and>
             menor m Infinito \<and> (\<forall>y \<in> set pre. ?r y \<noteq> m))"
    by (simp_all add: razon_efectivo)
  from all have all': "\<forall>y \<in> set datos. \<not> menor (razon rd rs y) m"
    by (simp add: razon_def)
  from alt show ?thesis
  proof
    assume "l = None \<and> m = Infinito"
    with all' show ?thesis by simp
  next
    assume "\<exists>pre x post. map ?f datos = pre @ x # post \<and> l = Some x \<and> m = ?r x \<and>
              menor m Infinito \<and> (\<forall>y \<in> set pre. ?r y \<noteq> m)"
    then obtain pre x post where
      x: "map ?f datos = pre @ x # post" "l = Some x" "m = ?r x" "menor m Infinito"
         "\<forall>y \<in> set pre. ?r y \<noteq> m"
      by blast
    from x(1) obtain us d vs where
      d: "datos = us @ d # vs" "pre = map ?f us" "x = ?f d"
      by (auto simp: map_eq_append_conv map_eq_Cons_conv)
    from x(3) d(3) have m: "m = razon rd rs d" by (simp add: razon_def)
    from x(5) d(2) m have "\<forall>y \<in> set us. razon rd rs y \<noteq> razon rd rs d"
      by (simp add: razon_def)
    with d x(2,4) m all' show ?thesis by blast
  qed
qed

text \<open>
  C5, as the code has it. The ratio of a reactant is its effective moles (moles times
  purity over 100) divided by the coefficient of the first reactant of the parsed equation
  with the same formula string, and by 1 when there is none or when that coefficient is 0
  or NaN.
  A limiting reagent is returned exactly when some ratio is below Infinity; it is then the
  first reactant of the list with the smallest ratio: no reactant has a smaller one and no
  earlier reactant has the same one.
\<close>

theorem limitante_menor_razon:
  assumes "parsearEcuacion rd ecuacion = Inr parseada"
  shows
    "(\<forall>l. encontrarReactivoLimitante rd ecuacion datos = Inr l \<longrightarrow>
        (\<exists>pre d post. datos = pre @ d # post \<and>
           lim_formula l = rcm_formula d \<and>
           lim_moles l = multiplicar rd (rcm_moles d) (dividir rd (rcm_pureza d) (Num 100)) \<and>
           proporcion l = razon rd (reactivos parseada) d \<and>
           (\<forall>y \<in> set datos.
              \<not> menor (razon rd (reactivos parseada) y) (razon rd (reactivos parseada) d)) \<and>
           (\<forall>y \<in> set pre. razon rd (reactivos parseada) y \<noteq> razon rd (reactivos parseada) d))) \<and>
     ((\<exists>l. encontrarReactivoLimitante rd ecuacion datos = Inr l) \<longleftrightarrow>
        (\<exists>d \<in> set datos. menor (razon rd (reactivos parseada) d) Infinito)) \<and>
     (encontrarReactivoLimitante rd ecuacion datos = Inl TypeError \<longleftrightarrow>
        (\<forall>d \<in> set datos. \<not> menor (razon rd (reactivos parseada) d) Infinito)) \<and>
     (\<forall>d. razon rd (reactivos parseada) d =
        dividir rd (multiplicar rd (rcm_moles d) (dividir rd (rcm_pureza d) (Num 100)))
          (case find (\<lambda>r. formula r = rcm_formula d) (reactivos parseada) of
             None \<Rightarrow> Num 1
           | Some r \<Rightarrow> if coeficiente r = Num 0 \<or> coeficiente r = NaN then Num 1
                       else coeficiente r))"
proof -
  let ?rs = "reactivos parseada"
  obtain l m where b: "buscar_menor rd (None, Infinito) (molesEfectivos rd ?rs datos) = (l, m)"
    by (cases "buscar_menor rd (None, Infinito) (molesEfectivos rd ?rs datos)")
  have e: "encontrarReactivoLimitante rd ecuacion datos =
             (case l of
                None \<Rightarrow> Inl TypeError
              | Some x \<Rightarrow> Inr \<lparr>lim_formula = ef_formula x, lim_moles = ef_moles x,
                                  proporcion = m\<rparr>)"
    by (simp add: encontrarReactivoLimitante_def assms b split: option.splits)
  have c: "\<forall>d. razon rd ?rs d =
        dividir rd (multiplicar rd (rcm_moles d) (dividir rd (rcm_pureza d) (Num 100)))
          (case find (\<lambda>r. formula r = rcm_formula d) ?rs of
             None \<Rightarrow> Num 1
           | Some r \<Rightarrow> if coeficiente r = Num 0 \<or> coeficiente r = NaN then Num 1
                       else coeficiente r)"
    by (simp add: razon_def coeficiente_de_def verdadero_def split: option.splits)
  from limitante_inv [OF b] show ?thesis
  proof
    assume n: "l = None \<and> (\<forall>y \<in> set datos. \<not> menor (razon rd ?rs y) Infinito)"
    with e have "encontrarReactivoLimitante rd ecuacion datos = Inl TypeError" by simp
    with n c show ?thesis by simp
  next
    assume "\<exists>pre d post. datos = pre @ d # post \<and>
            l = Some \<lparr>ef_formula = rcm_formula d,
                      ef_moles = multiplicar rd (rcm_moles d) (dividir rd (rcm_pureza d) (Num 100)),
                      ef_coeficiente = coeficiente_de ?rs (rcm_formula d)\<rparr> \<and>
            m = razon rd ?rs d \<and> menor m Infinito \<and>
            (\<forall>y \<in> set datos. \<not> menor (razon rd ?rs y) (razon rd ?rs d)) \<and>
            (\<forall>y \<in> set pre. razon rd ?rs y \<noteq> razon rd ?rs d)"
    then obtain pre d post where
      d: "datos = pre @ d # post"
         "l = Some \<lparr>ef_formula = rcm_formula d,
                      ef_moles = multiplicar rd (rcm_moles d) (dividir rd (rcm_pureza d) (Num 100)),
                      ef_coeficiente = coeficiente_de ?rs (rcm_formula d)\<rparr>"
         "m = razon rd ?rs d" "menor m Infinito"
         "\<forall>y \<in> set datos. \<not> menor (razon rd ?rs y) (razon rd ?rs d)"
         "\<forall>y \<in> set pre. razon rd ?rs y \<noteq> razon rd ?rs d"
      by blast
    from e d(2,3) have r:
      "encontrarReactivoLimitante rd ecuacion datos =
         Inr \<lparr>lim_formula = rcm_formula d,
              lim_moles = multiplicar rd (rcm_moles d) (dividir rd (rcm_pureza d) (Num 100)),
              proporcion = razon rd ?rs d\<rparr>"
      by simp
    have p1: "\<forall>l. encontrarReactivoLimitante rd ecuacion datos = Inr l \<longrightarrow>
        (\<exists>pre d post. datos = pre @ d # post \<and>
           lim_formula l = rcm_formula d \<and>
           lim_moles l = multiplicar rd (rcm_moles d) (dividir rd (rcm_pureza d) (Num 100)) \<and>
           proporcion l = razon rd ?rs d \<and>
           (\<forall>y \<in> set datos. \<not> menor (razon rd ?rs y) (razon rd ?rs d)) \<and>
           (\<forall>y \<in> set pre. razon rd ?rs y \<noteq> razon rd ?rs d))"
      using r d(1,5,6) by auto
    from d(1,3,4) have p2: "\<exists>d \<in> set datos. menor (razon rd ?rs d) Infinito"
      by auto
    from p2 r have p3:
      "encontrarReactivoLimitante rd ecuacion datos = Inl TypeError \<longleftrightarrow>
         (\<forall>d \<in> set datos. \<not> menor (razon rd ?rs d) Infinito)"
      by auto
    from p1 p2 p3 r c show ?thesis by simp
  qed
qed
theorem limitante_menor_razon_witness:
  "parsearEcuacion binary64 agua =
     Inr \<lparr>reactivos =
            [\<lparr>coeficiente = Num 2, formula = js ''H2'', elementos = [(js ''H'', Num 2)]\<rparr>,
             \<lparr>coeficiente = Num 1, formula = js ''O2'', elementos = [(js ''O'', Num 2)]\<rparr>],
          productos =
            [\<lparr>coeficiente = Num 2, formula = js ''H2O'',
              elementos = [(js ''H'', Num 2), (js ''O'', Num 1)]\<rparr>]\<rparr> \<and>
   razon binary64
     [\<lparr>coeficiente = Num 2, formula = js ''H2'', elementos = [(js ''H'', Num 2)]\<rparr>,
      \<lparr>coeficiente = Num 1, formula = js ''O2'', elementos = [(js ''O'', Num 2)]\<rparr>]
     \<lparr>rcm_formula = js ''H2'', masaInicial = Num 8, rcm_moles = Num 4,
      rcm_pureza = Num 100\<rparr> = Num 2 \<and>
   (\<exists>l. encontrarReactivoLimitante binary64 agua
          [\<lparr>rcm_formula = js ''H2'', masaInicial = Num 8, rcm_moles = Num 4,
            rcm_pureza = Num 100\<rparr>,
           \<lparr>rcm_formula = js ''O2'', masaInicial = Num 32, rcm_moles = Num 1,
            rcm_pureza = Num 100\<rparr>] = Inr l)"
proof -
  let ?rs = "[\<lparr>coeficiente = Num 2, formula = js ''H2'', elementos = [(js ''H'', Num 2)]\<rparr>,
              \<lparr>coeficiente = Num 1, formula = js ''O2'', elementos = [(js ''O'', Num 2)]\<rparr>]"
  let ?h = "\<lparr>rcm_formula = js ''H2'', masaInicial = Num 8, rcm_moles = Num 4,
             rcm_pureza = Num 100\<rparr>"
  let ?o = "\<lparr>rcm_formula = js ''O2'', masaInicial = Num 32, rcm_moles = Num 1,
             rcm_pureza = Num 100\<rparr>"
  have rz: "razon binary64 ?rs ?h = Num 2"
    by (simp add: razon_def coeficiente_de_def verdadero_def enteros)
  from limitante_menor_razon [OF parsear_agua, of "[?h, ?o]"]
  have "(\<exists>l. encontrarReactivoLimitante binary64 agua [?h, ?o] = Inr l) \<longleftrightarrow>
        (\<exists>d \<in> set [?h, ?o]. menor (razon binary64 ?rs d) Infinito)"
    by simp
  with rz have "\<exists>l. encontrarReactivoLimitante binary64 agua [?h, ?o] = Inr l"
    by simp
  with rz parsear_agua show ?thesis by simp
qed

theorem limitante_coeficiente_cero_counterexample:
  "map_sum id (map coeficiente \<circ> reactivos)
     (parsearEcuacion binary64 (js ''0H2 + O2 -> O2'')) = Inr [Num 0, Num 1] \<and>
   encontrarReactivoLimitante binary64 (js ''0H2 + O2 -> O2'')
     [\<lparr>rcm_formula = js ''H2'', masaInicial = Num 2, rcm_moles = Num 1,
       rcm_pureza = Num 100\<rparr>,
      \<lparr>rcm_formula = js ''O2'', masaInicial = Num 64, rcm_moles = Num 2,
       rcm_pureza = Num 100\<rparr>] =
     Inr \<lparr>lim_formula = js ''H2'', lim_moles = Num 1, proporcion = Num 1\<rparr> \<and>
   dividir binary64 (multiplicar binary64 (Num 1) (dividir binary64 (Num 100) (Num 100)))
     (Num 0) = Infinito \<and>
   dividir binary64 (multiplicar binary64 (Num 2) (dividir binary64 (Num 100) (Num 100)))
     (Num 1) = Num 2 \<and>
   menor (Num 2) Infinito"
proof -
  have p: "parsearEcuacion binary64 (js ''0H2 + O2 -> O2'') =
     Inr \<lparr>reactivos =
            [\<lparr>coeficiente = Num 0, formula = js ''H2'', elementos = [(js ''H'', Num 2)]\<rparr>,
             \<lparr>coeficiente = Num 1, formula = js ''O2'', elementos = [(js ''O'', Num 2)]\<rparr>],
          productos =
            [\<lparr>coeficiente = Num 1, formula = js ''O2'', elementos = [(js ''O'', Num 2)]\<rparr>]\<rparr>"
    by (simp add: evaluar)
  show ?thesis
    by (simp add: p encontrarReactivoLimitante_def molesEfectivos_def coeficiente_de_def
          verdadero_def Let_def enteros)
qed

section \<open>Keys of a parsed formula\<close>

lemma sumar_distinct: "distinct (map fst g) \<Longrightarrow> distinct (map fst (sumar rd e n g))"
  by (simp add: sumar_def distinct_update split: option.splits)

lemma sumar_claves: "fst ` set (sumar rd e n g) = insert e (fst ` set g)"
  by (simp add: sumar_def dom_update split: option.splits)

lemma plegar_distinct:
  "distinct (map fst g) \<Longrightarrow>
   distinct (map fst (foldl (\<lambda>g (elemento, n). sumar rd elemento (multiplicar rd n m) g) g els))"
proof (induction els arbitrary: g)
  case Nil
  then show ?case by simp
next
  case (Cons x els)
  obtain e n where x: "x = (e, n)" by (cases x)
  from Cons.prems have "distinct (map fst (sumar rd e (multiplicar rd n m) g))" by (rule sumar_distinct)
  from Cons.IH [OF this] show ?case by (simp add: x)
qed

lemma plegar_claves:
  "fst ` set (foldl (\<lambda>g (elemento, n). sumar rd elemento (multiplicar rd n m) g) g els) =
     fst ` set g \<union> fst ` set els"
proof (induction els arbitrary: g)
  case Nil
  then show ?case by simp
next
  case (Cons x els)
  obtain e n where x: "x = (e, n)" by (cases x)
  from Cons.IH [of "sumar rd e (multiplicar rd n m) g"] show ?case
    by (simp add: x sumar_claves)
qed

lemma tope_distinto: "pila_distinta p \<Longrightarrow> tope p = Some g \<Longrightarrow> distinct (map fst g)"
  by (auto simp: pila_distinta_def tope_def split: list.splits if_splits)

lemma poner_tope_distinta:
  "pila_distinta p \<Longrightarrow> distinct (map fst g) \<Longrightarrow> pila_distinta (poner_tope g p)"
  by (auto simp: pila_distinta_def poner_tope_def split: list.splits)

lemma pop_distinta: "pila_distinta p \<Longrightarrow> pop p = (grupo, p') \<Longrightarrow> pila_distinta p'"
  by (auto simp: pila_distinta_def pop_def split: list.splits if_splits)

lemma agregar_distinta: "pila_distinta p \<Longrightarrow> agregar rd e n p = Inr p' \<Longrightarrow> pila_distinta p'"
  by (auto simp: agregar_def split: option.splits
        intro!: poner_tope_distinta sumar_distinct dest: tope_distinto)

lemma cerrar_grupo_distinta:
  assumes "pila_distinta p" and "cerrar_grupo rd m p = Inr p'"
  shows "pila_distinta p'"
proof -
  obtain grupo q where pq: "pop p = (grupo, q)" by (cases "pop p")
  from pop_distinta [OF assms(1) pq] have q: "pila_distinta q" .
  show ?thesis
  proof (cases "\<exists>x xs. grupo = Some (x # xs)")
    case False
    with assms(2) pq q show ?thesis
      by (auto simp: cerrar_grupo_def split: option.splits list.splits)
  next
    case True
    then obtain x xs where g: "grupo = Some (x # xs)" by blast
    with assms(2) pq obtain actual where
      t: "tope q = Some actual" and
      p': "p' = poner_tope
             (foldl (\<lambda>g (elemento, n). sumar rd elemento (multiplicar rd n m) g) actual (x # xs)) q"
      by (auto simp: cerrar_grupo_def split: option.splits)
    from tope_distinto [OF q t]
    have "distinct (map fst
            (foldl (\<lambda>g (elemento, n). sumar rd elemento (multiplicar rd n m) g) actual (x # xs)))"
      by (rule plegar_distinct)
    with q p' show ?thesis by (simp add: poner_tope_distinta)
  qed
qed

lemma bucle_distinta: "pila_distinta p \<Longrightarrow> bucle rd p s = Inr p' \<Longrightarrow> pila_distinta p'"
proof (induction rd p s arbitrary: p' rule: bucle.induct)
  case (1 rd p)
  then show ?case by simp
next
  case (2 rd p c cs)
  show ?case
  proof (cases "c = 40")
    case True
    from "2.prems"(1) have "pila_distinta (p\<lparr>grupos := [] # grupos p\<rparr>)"
      by (simp add: pila_distinta_def)
    with "2.IH"(1) [OF True] "2.prems" True show ?thesis by simp
  next
    case n40: False
    show ?thesis
    proof (cases "c = 41")
      case True
      from "2.prems"(2) n40 True obtain q where
        q: "cerrar_grupo rd (leer_numero rd (takeWhile es_digito cs)) p = Inr q" and
        b: "bucle rd q (dropWhile es_digito cs) = Inr p'"
        by (auto split: sum.splits)
      from cerrar_grupo_distinta [OF "2.prems"(1) q] have "pila_distinta q" .
      from "2.IH"(2) [OF n40 True q this b] show ?thesis .
    next
      case n41: False
      show ?thesis
      proof (cases "es_mayuscula c")
        case True
        from "2.prems"(2) n40 n41 True obtain q where
          q: "agregar rd (c # takeWhile es_minuscula cs)
                (leer_numero rd (takeWhile es_digito (dropWhile es_minuscula cs))) p = Inr q"
          and b: "bucle rd q (dropWhile es_digito (dropWhile es_minuscula cs)) = Inr p'"
          by (auto split: sum.splits)
        from agregar_distinta [OF "2.prems"(1) q] have "pila_distinta q" .
        from "2.IH"(3) [OF n40 n41 True q this b] show ?thesis .
      next
        case False
        from "2.IH"(4) [OF n40 n41 False "2.prems"(1)] "2.prems"(2) n40 n41 False
        show ?thesis by simp
      qed
    qed
  qed
qed

lemma parsearFormula_distinct: "parsearFormula rd f = Inr m \<Longrightarrow> distinct (map fst m)"
proof -
  assume "parsearFormula rd f = Inr m"
  then obtain p where
    p: "bucle rd \<lparr>base = [], base_en_pila = True, grupos = []\<rparr> f = Inr p" and m: "m = base p"
    by (auto simp: parsearFormula_def split: sum.splits)
  have "pila_distinta \<lparr>base = [], base_en_pila = True, grupos = []\<rparr>"
    by (simp add: pila_distinta_def)
  from bucle_distinta [OF this p] m show ?thesis
    by (simp add: pila_distinta_def)
qed

lemma mapear_todos:
  "mapear f xs = Inr ys \<Longrightarrow> (\<And>x y. f x = Inr y \<Longrightarrow> P y) \<Longrightarrow> list_all P ys"
  by (induction xs arbitrary: ys) (auto split: sum.splits)

lemma parsearEcuacion_distinct:
  assumes "parsearEcuacion rd ecuacion = Inr parseada"
  shows "list_all (\<lambda>c. distinct (map fst (elementos c))) (reactivos parseada) \<and>
         list_all (\<lambda>c. distinct (map fst (elementos c))) (productos parseada)"
proof -
  have c: "\<And>x y. parsearCompuesto rd x = Inr y \<Longrightarrow> distinct (map fst (elementos y))"
    by (auto simp: parsearCompuesto_def Let_def split: sum.splits
          dest: parsearFormula_distinct)
  from assms obtain xs ys where
    "mapear (parsearCompuesto rd) xs = Inr (reactivos parseada)"
    "mapear (parsearCompuesto rd) ys = Inr (productos parseada)"
    by (auto simp: parsearEcuacion_def split: list.splits sum.splits)
  then show ?thesis
    using c by (auto intro: mapear_todos)
qed

section \<open>Formula groups\<close>







lemma tope_sobre: "base_en_pila q \<Longrightarrow> tope (sobre b e gs q) = tope q"
  by (simp add: tope_def sobre_def split: list.splits)

lemma tope_base: "base_en_pila q \<Longrightarrow> \<exists>g. tope q = Some g"
  by (simp add: tope_def split: list.splits)

lemma poner_tope_sobre:
  "poner_tope g (sobre b e gs q) = sobre b e gs (poner_tope g q)"
  by (simp add: poner_tope_def sobre_def split: list.splits)

lemma poner_tope_campos:
  "base_en_pila (poner_tope g q) = base_en_pila q \<and>
   length (grupos (poner_tope g q)) = length (grupos q)"
  by (simp add: poner_tope_def split: list.splits)

lemma agregar_sobre:
  assumes "base_en_pila q"
  shows "\<exists>q'. agregar rd el n q = Inr q' \<and> base_en_pila q' \<and>
           length (grupos q') = length (grupos q) \<and>
           agregar rd el n (sobre b e gs q) = Inr (sobre b e gs q')"
proof -
  from tope_base [OF assms] obtain g where g: "tope q = Some g" by blast
  with assms show ?thesis
    by (simp add: agregar_def tope_sobre poner_tope_sobre poner_tope_campos)
qed













section \<open>The reaction arrow\<close>

lemma length_js_split:
  "sep = [45, 62] \<Longrightarrow> length (js_split sep acc s) = contar_flechas s + 1"
proof (induction sep acc s rule: js_split.induct)
  case (1 sep acc)
  then show ?case by simp
next
  case (2 sep acc c cs)
  show ?case
  proof (cases "take (length sep) (c # cs) = sep")
    case True
    with "2.prems" obtain cs' where cs: "c = 45" "cs = 62 # cs'"
      by (cases cs) auto
    with "2.IH"(1) "2.prems" True show ?thesis by simp
  next
    case False
    with "2.prems" have c: "contar_flechas (c # cs) = contar_flechas cs"
      by (cases cs) auto
    from False have s: "js_split sep acc (c # cs) = js_split sep (acc @ [c]) cs"
      by simp
    from "2.IH"(2) False "2.prems"
    have "length (js_split sep (acc @ [c]) cs) = contar_flechas cs + 1"
      by blast
    with c s show ?thesis by simp
  qed
qed

lemma bucle_error: "bucle rd p s = Inl e \<Longrightarrow> e = TypeError"
proof (induction rd p s rule: bucle.induct)
  case (1 rd p)
  then show ?case by simp
next
  case (2 rd p c cs)
  show ?case
  proof (cases "c = 40")
    case True
    with 2 show ?thesis by simp
  next
    case n40: False
    show ?thesis
    proof (cases "c = 41")
      case True
      with 2 n40 show ?thesis
        by (auto simp: cerrar_grupo_def Let_def
              split: sum.splits prod.splits option.splits list.splits)
    next
      case n41: False
      show ?thesis
      proof (cases "es_mayuscula c")
        case True
        with 2 n40 n41 show ?thesis
          by (auto simp: agregar_def split: sum.splits option.splits)
      next
        case False
        with 2 n40 n41 show ?thesis by simp
      qed
    qed
  qed
qed

lemma parsearCompuesto_error: "parsearCompuesto rd c = Inl e \<Longrightarrow> e = TypeError"
  by (auto simp: parsearCompuesto_def parsearFormula_def Let_def
        split: sum.splits dest: bucle_error)

lemma mapear_error:
  "mapear f xs = Inl e \<Longrightarrow> \<exists>x \<in> set xs. f x = Inl e"
  by (induction xs) (auto split: sum.splits)

lemma compuestos_error: "mapear (parsearCompuesto rd) xs = Inl e \<Longrightarrow> e = TypeError"
  using mapear_error [of "parsearCompuesto rd" xs e] parsearCompuesto_error by blast

lemma normalizar_flechas:
  "normalizar ecuacion =
     concat (map (\<lambda>c. if c = 8594 \<or> c = 61 then [45, 62] else [c]) ecuacion)"
  by (induction ecuacion) (simp_all add: normalizar_def replace_all_def flecha_def)

text \<open>A formula text without a closing parenthesis is parsed without an error.\<close>

lemma bucle_sin_cierre:
  "41 \<notin> set s \<Longrightarrow> base_en_pila p \<Longrightarrow> \<exists>p'. bucle rd p s = Inr p' \<and> base_en_pila p'"
proof (induction rd p s rule: bucle.induct)
  case (1 rd p)
  then show ?case by simp
next
  case (2 rd p c cs)
  from "2.prems"(1) have n41: "c \<noteq> 41" and cs: "41 \<notin> set cs" by auto
  show ?case
  proof (cases "c = 40")
    case True
    from "2.prems"(2) have "base_en_pila (p\<lparr>grupos := [] # grupos p\<rparr>)" by simp
    from "2.IH"(1) [OF True cs this] True show ?thesis by simp
  next
    case n40: False
    show ?thesis
    proof (cases "es_mayuscula c")
      case True
      from agregar_sobre [OF "2.prems"(2)]
      obtain q where
        q: "agregar rd (c # takeWhile es_minuscula cs)
              (leer_numero rd (takeWhile es_digito (dropWhile es_minuscula cs))) p = Inr q"
           "base_en_pila q"
        by blast
      from cs have "41 \<notin> set (dropWhile es_digito (dropWhile es_minuscula cs))"
        by (auto dest!: set_dropWhileD)
      from "2.IH"(3) [OF n40 n41 True q(1) this q(2)] q(1) n40 n41 True show ?thesis
        by simp
    next
      case False
      from "2.IH"(4) [OF n40 n41 False cs "2.prems"(2)] n40 n41 False show ?thesis
        by simp
    qed
  qed
qed

lemma set_trim: "set (trim s) \<subseteq> set s"
  by (auto simp: trim_def dest!: set_dropWhileD)

lemma parsearCompuesto_sin_cierre:
  assumes "41 \<notin> set c"
  shows "\<exists>y. parsearCompuesto rd c = Inr y"
proof -
  from assms set_trim [of c] have "41 \<notin> set (dropWhile es_digito (trim c))"
    by (auto dest!: set_dropWhileD)
  from bucle_sin_cierre [OF this, of "\<lparr>base = [], base_en_pila = True, grupos = []\<rparr>" rd]
  show ?thesis
    by (auto simp: parsearCompuesto_def parsearFormula_def Let_def)
qed

lemma set_js_split: "x \<in> set (js_split sep acc s) \<Longrightarrow> set x \<subseteq> set acc \<union> set s"
proof (induction sep acc s rule: js_split.induct)
  case (1 sep acc)
  then show ?case by simp
next
  case (2 sep acc c cs)
  show ?case
  proof (cases "sep \<noteq> [] \<and> take (length sep) (c # cs) = sep")
    case True
    with "2.prems" have "x = acc \<or> x \<in> set (js_split sep [] (drop (length sep) (c # cs)))"
      by simp
    then show ?thesis
    proof
      assume "x = acc"
      then show ?thesis by auto
    next
      assume "x \<in> set (js_split sep [] (drop (length sep) (c # cs)))"
      from "2.IH"(1) [OF True this] have "set x \<subseteq> set (drop (length sep) (c # cs))"
        by simp
      with set_drop_subset [of "length sep" "c # cs"] show ?thesis by auto
    qed
  next
    case False
    with "2.prems" have "x \<in> set (js_split sep (acc @ [c]) cs)"
      by (simp split: if_splits)
    from "2.IH"(2) [OF False this] show ?thesis by auto
  qed
qed

lemma mapear_sin_error:
  "\<forall>x \<in> set xs. \<exists>y. f x = Inr y \<Longrightarrow> \<exists>ys. mapear f xs = Inr ys"
  by (induction xs) auto

lemma lado_sin_cierre:
  assumes "41 \<notin> set lado"
  shows "\<exists>cs. mapear (parsearCompuesto rd) (js_split [43] [] (trim lado)) = Inr cs"
proof (rule mapear_sin_error, rule ballI)
  fix x
  assume "x \<in> set (js_split [43] [] (trim lado))"
  from set_js_split [OF this] set_trim [of lado] assms have "41 \<notin> set x" by auto
  then show "\<exists>y. parsearCompuesto rd x = Inr y" by (rule parsearCompuesto_sin_cierre)
qed

lemma lado_vacio:
  assumes "trim lado = []"
  shows "mapear (parsearCompuesto rd) (js_split [43] [] (trim lado)) =
           Inr [\<lparr>coeficiente = Num 1, formula = [], elementos = []\<rparr>]"
  by (simp only: assms) (simp add: parsearCompuesto_def parsearFormula_def leer_numero_def trim_def)

text \<open>
  C3, as the code has it. Every arrow U+2192 and every sign \<^verbatim>\<open>=\<close> is replaced by
  \<^verbatim>\<open>->\<close> and nothing else is changed. The arrow error is raised if and only if the
  normalized text does not hold exactly one \<^verbatim>\<open>->\<close>, that is if and only if the split
  does not give exactly two parts; the parts themselves are not tested. The only other
  error of the function is the TypeError of a formula. When the split gives two parts and
  the equation is returned, a side that is empty or blank is the list of one term with
  coefficient 1, the empty formula and no element; and an equation with exactly one
  \<^verbatim>\<open>->\<close> and no closing parenthesis is returned.
\<close>

theorem parsearEcuacion_flecha:
  "(parsearEcuacion rd ecuacion = Inl FlechaUnica \<longleftrightarrow>
      contar_flechas (normalizar ecuacion) \<noteq> 1) \<and>
   (parsearEcuacion rd ecuacion = Inl FlechaUnica \<longleftrightarrow>
      length (js_split flecha [] (normalizar ecuacion)) \<noteq> 2) \<and>
   (\<forall>e. parsearEcuacion rd ecuacion = Inl e \<longrightarrow> e = FlechaUnica \<or> e = TypeError) \<and>
   normalizar ecuacion =
     concat (map (\<lambda>c. if c = 8594 \<or> c = 61 then [45, 62] else [c]) ecuacion) \<and>
   (\<forall>parte0 parte1 parseada.
      js_split flecha [] (normalizar ecuacion) = [parte0, parte1] \<longrightarrow>
      parsearEcuacion rd ecuacion = Inr parseada \<longrightarrow>
      (trim parte0 = [] \<longrightarrow>
         reactivos parseada = [\<lparr>coeficiente = Num 1, formula = [], elementos = []\<rparr>]) \<and>
      (trim parte1 = [] \<longrightarrow>
         productos parseada = [\<lparr>coeficiente = Num 1, formula = [], elementos = []\<rparr>])) \<and>
   (contar_flechas (normalizar ecuacion) = 1 \<longrightarrow> 41 \<notin> set ecuacion \<longrightarrow>
      (\<exists>parseada. parsearEcuacion rd ecuacion = Inr parseada))"
proof -
  let ?partes = "js_split flecha [] (normalizar ecuacion)"
  have len: "length ?partes = contar_flechas (normalizar ecuacion) + 1"
    by (simp add: length_js_split flecha_def)
  have a: "parsearEcuacion rd ecuacion = Inl FlechaUnica \<longleftrightarrow> length ?partes \<noteq> 2"
  proof (cases "length ?partes = 2")
    case True
    then obtain p0 p1 where "?partes = [p0, p1]"
      by (auto simp: length_Suc_conv numeral_2_eq_2)
    then show ?thesis
      by (auto simp: parsearEcuacion_def split: sum.splits dest: compuestos_error)
  next
    case False
    then have "parsearEcuacion rd ecuacion = Inl FlechaUnica"
      by (auto simp: parsearEcuacion_def split: list.splits)
    with False show ?thesis by simp
  qed
  have b: "\<forall>e. parsearEcuacion rd ecuacion = Inl e \<longrightarrow> e = FlechaUnica \<or> e = TypeError"
    by (auto simp: parsearEcuacion_def split: list.splits sum.splits dest: compuestos_error)
  have c: "(trim parte0 = [] \<longrightarrow>
              reactivos parseada = [\<lparr>coeficiente = Num 1, formula = [], elementos = []\<rparr>]) \<and>
           (trim parte1 = [] \<longrightarrow>
              productos parseada = [\<lparr>coeficiente = Num 1, formula = [], elementos = []\<rparr>])"
    if "?partes = [parte0, parte1]" "parsearEcuacion rd ecuacion = Inr parseada"
    for parte0 parte1 parseada
  proof -
    from that have
      "mapear (parsearCompuesto rd) (js_split [43] [] (trim parte0)) = Inr (reactivos parseada)"
      "mapear (parsearCompuesto rd) (js_split [43] [] (trim parte1)) = Inr (productos parseada)"
      by (auto simp: parsearEcuacion_def split: sum.splits)
    with lado_vacio [of parte0 rd] lado_vacio [of parte1 rd] show ?thesis by auto
  qed
  have d: "\<exists>parseada. parsearEcuacion rd ecuacion = Inr parseada"
    if "contar_flechas (normalizar ecuacion) = 1" "41 \<notin> set ecuacion"
  proof -
    from that(1) len have "length ?partes = 2" by simp
    then obtain p0 p1 where p: "?partes = [p0, p1]"
      by (auto simp: length_Suc_conv numeral_2_eq_2)
    from that(2) have n: "41 \<notin> set (normalizar ecuacion)"
      by (auto simp: normalizar_flechas split: if_splits)
    have "p0 \<in> set ?partes" "p1 \<in> set ?partes" by (simp_all add: p)
    from this [THEN set_js_split] n have "41 \<notin> set p0" "41 \<notin> set p1" by auto
    from lado_sin_cierre [OF this(1), of rd] lado_sin_cierre [OF this(2), of rd] p
    show ?thesis by (auto simp: parsearEcuacion_def)
  qed
  from a b c d len normalizar_flechas [of ecuacion] show ?thesis by (intro conjI) auto
qed

theorem parsearEcuacion_flecha_witness:
  "parsearEcuacion binary64 (js ''H2 -> O2 -> H2O'') = Inl FlechaUnica \<and>
   contar_flechas (normalizar (js ''H2 -> O2 -> H2O'')) = 2 \<and>
   parsearEcuacion binary64 (js ''H2) = O2'') = Inl TypeError \<and>
   js_split flecha [] (normalizar (js ''= H2O'')) = [[], js '' H2O''] \<and>
   contar_flechas (normalizar (js ''= H2O'')) = 1 \<and> 41 \<notin> set (js ''= H2O'') \<and>
   map_sum id reactivos (parsearEcuacion binary64 (js ''= H2O'')) =
     Inr [\<lparr>coeficiente = Num 1, formula = [], elementos = []\<rparr>]"
proof -
  have c: "contar_flechas (normalizar (js ''H2 -> O2 -> H2O'')) = 2"
    by (simp add: evaluar)
  have t: "parsearEcuacion binary64 (js ''H2) = O2'') = Inl TypeError"
    by (simp add: evaluar)
  have s: "js_split flecha [] (normalizar (js ''= H2O'')) = [[], js '' H2O'']"
    "contar_flechas (normalizar (js ''= H2O'')) = 1" "41 \<notin> set (js ''= H2O'')"
    "trim [] = []"
    by (simp_all add: evaluar)
  from parsearEcuacion_flecha [of binary64 "js ''= H2O''"] s
  have "\<exists>parseada. parsearEcuacion binary64 (js ''= H2O'') = Inr parseada \<and>
          reactivos parseada = [\<lparr>coeficiente = Num 1, formula = [], elementos = []\<rparr>]"
    by blast
  then have "map_sum id reactivos (parsearEcuacion binary64 (js ''= H2O'')) =
     Inr [\<lparr>coeficiente = Num 1, formula = [], elementos = []\<rparr>]"
    by auto
  with parsearEcuacion_flecha [of binary64 "js ''H2 -> O2 -> H2O''"] c t s show ?thesis
    by simp
qed

theorem parsearEcuacion_lado_vacio_counterexample:
  "js_split flecha [] (normalizar (js ''H2 + O2 ='')) = [js ''H2 + O2 '', []] \<and>
   parsearEcuacion binary64 (js ''H2 + O2 ='') =
     Inr \<lparr>reactivos =
            [\<lparr>coeficiente = Num 1, formula = js ''H2'', elementos = [(js ''H'', Num 2)]\<rparr>,
             \<lparr>coeficiente = Num 1, formula = js ''O2'', elementos = [(js ''O'', Num 2)]\<rparr>],
          productos = [\<lparr>coeficiente = Num 1, formula = [], elementos = []\<rparr>]\<rparr>"
  by (simp add: evaluar)

section \<open>Scaling the amounts\<close>













section \<open>The balance of an equation\<close>

lemma parsearEcuacion_regular:
  assumes "redondea_naturales rd" and "parsearEcuacion rd ecuacion = Inr parseada"
  shows "list_all (\<lambda>c. regular rd (coeficiente c) \<and> todos (regular rd) (elementos c))
           (reactivos parseada) \<and>
         list_all (\<lambda>c. regular rd (coeficiente c) \<and> todos (regular rd) (elementos c))
           (productos parseada)"
proof -
  have c: "\<And>x y. parsearCompuesto rd x = Inr y \<Longrightarrow>
             regular rd (coeficiente y) \<and> todos (regular rd) (elementos y)"
    using leer_regular [OF assms(1)] parsearFormula_regular [OF assms(1)]
    by (auto simp: parsearCompuesto_def Let_def split: sum.splits)
  from assms(2) obtain xs ys where
    "mapear (parsearCompuesto rd) xs = Inr (reactivos parseada)"
    "mapear (parsearCompuesto rd) ys = Inr (productos parseada)"
    by (auto simp: parsearEcuacion_def split: list.splits sum.splits)
  then show ?thesis
    using c by (auto intro: mapear_todos)
qed

lemma regular_finito: "regular rd v \<Longrightarrow> es_finito v \<Longrightarrow> es_natural v"
  by (cases v) (auto simp: regular_def entero_no_negativo_def es_finito_def)

lemma todos_ambos:
  assumes "todos P g" and "todos Q g" and "\<And>v. P v \<Longrightarrow> Q v \<Longrightarrow> R v"
  shows "todos R g"
proof -
  have "R n" if "(e, n) \<in> set g" for e n
  proof -
    from assms(1,2) that have "P n" "Q n" by (auto simp: todos_def list_all_iff)
    then show ?thesis by (rule assms(3))
  qed
  then show ?thesis by (auto simp: todos_def list_all_iff)
qed

lemma regulares_finitos:
  assumes "list_all (\<lambda>c. regular rd (coeficiente c) \<and> todos (regular rd) (elementos c)) cs"
    and "finitos cs"
  shows "naturales cs"
proof -
  have "es_natural (coeficiente c) \<and> todos es_natural (elementos c)" if "c \<in> set cs" for c
  proof -
    from assms that have r: "regular rd (coeficiente c)" "todos (regular rd) (elementos c)"
      and f: "es_finito (coeficiente c)" "todos es_finito (elementos c)"
      by (auto simp: finitos_def list_all_iff)
    from r(2) f(2) have "todos es_natural (elementos c)"
      by (rule todos_ambos) (rule regular_finito)
    with r(1) f(1) show ?thesis by (simp add: regular_finito)
  qed
  then show ?thesis by (simp add: naturales_def list_all_iff)
qed

lemma cuenta_ausente: "k \<notin> fst ` set g \<Longrightarrow> cuenta g k = 0"
proof -
  assume "k \<notin> fst ` set g"
  then have "map_of g k = None" by (simp add: map_of_eq_None_iff)
  then show ?thesis by (simp add: cuenta_def)
qed

lemma cuenta_natural: "todos es_natural g \<Longrightarrow> \<exists>n::nat. cuenta g k = real n"
proof (cases "map_of g k")
  case None
  then have "cuenta g k = real 0" by (simp add: cuenta_def)
  then show ?thesis by blast
next
  case (Some v)
  assume "todos es_natural g"
  from todos_map_of [OF this Some] obtain n :: nat where "v = Num (real n)"
    by (auto simp: es_natural_iff)
  with Some have "cuenta g k = real n" by (simp add: cuenta_def valor_def)
  then show ?thesis by blast
qed

lemma cuenta_no_negativa: "todos es_natural g \<Longrightarrow> 0 \<le> cuenta g k"
  using cuenta_natural [of g k] by auto

text \<open>
  With a rounding that is exact on the natural numbers up to a bound, a sum that stays
  within the bound is the exact sum.
\<close>

lemma cuenta_update:
  "cuenta (AList.update e w g) k = (if k = e then valor w else cuenta g k)"
  by (simp add: cuenta_def update_conv')

lemma sumar_exacto:
  assumes "\<forall>n::nat. real n \<le> B \<longrightarrow> rd (real n) = Num (real n)"
    and "todos es_natural g" and "es_natural n" and "cuenta g e + valor n \<le> B"
  shows "cuenta (sumar rd e n g) k = cuenta g k + (if k = e then valor n else 0) \<and>
         todos es_natural (sumar rd e n g)"
proof (cases "map_of g e")
  case None
  then have s: "sumar rd e n g = AList.update e n g" by (simp add: sumar_def)
  from None have "cuenta g e = 0" by (simp add: cuenta_def)
  then have "cuenta (sumar rd e n g) k = cuenta g k + (if k = e then valor n else 0)"
    by (simp add: s cuenta_update)
  moreover from assms(2,3) have "todos es_natural (sumar rd e n g)"
    by (simp add: s todos_def update_list_all)
  ultimately show ?thesis by simp
next
  case (Some v)
  from todos_map_of [OF assms(2) Some] obtain a :: nat where a: "v = Num (real a)"
    by (auto simp: es_natural_iff)
  from assms(3) obtain b :: nat where b: "n = Num (real b)"
    by (auto simp: es_natural_iff)
  from b have vn: "valor n = real b" by (simp add: valor_def)
  from Some a have c: "cuenta g e = real a" by (simp add: cuenta_def valor_def)
  show ?thesis
  proof (cases "a = 0")
    case True
    with Some a have s: "sumar rd e n g = AList.update e n g"
      by (simp add: sumar_def verdadero_def)
    from c True have "cuenta (sumar rd e n g) k = cuenta g k + (if k = e then valor n else 0)"
      by (simp add: s cuenta_update)
    moreover from assms(2,3) have "todos es_natural (sumar rd e n g)"
      by (simp add: s todos_def update_list_all)
    ultimately show ?thesis by simp
  next
    case False
    from assms(4) c vn have "real (a + b) \<le> B" by simp
    with assms(1) have "rd (real (a + b)) = Num (real (a + b))" by blast
    then have r: "rd (real a + real b) = Num (real (a + b))" by simp
    from False Some have "sumar rd e n g = AList.update e (mas rd v n) g"
      by (simp add: sumar_def verdadero_def a)
    also have "mas rd v n = Num (real (a + b))" by (simp add: a b r)
    finally have s: "sumar rd e n g = AList.update e (Num (real (a + b))) g" .
    have w: "valor (Num (real (a + b))) = real a + real b" by (simp add: valor_def)
    from c vn have "cuenta (sumar rd e n g) k = cuenta g k + (if k = e then valor n else 0)"
      by (simp only: s cuenta_update w) simp
    moreover have "es_natural (Num (real (a + b)))"
      by (simp only: es_natural_iff) blast
    with assms(2) have "todos es_natural (sumar rd e n g)"
      by (simp add: s todos_def update_list_all)
    ultimately show ?thesis by simp
  qed
qed

lemma plegar_exacto:
  assumes "\<forall>n::nat. real n \<le> B \<longrightarrow> rd (real n) = Num (real n)"
    and "es_natural m"
  shows "distinct (map fst els) \<Longrightarrow> todos es_natural els \<Longrightarrow> todos es_natural g \<Longrightarrow>
         \<forall>k. cuenta g k + cuenta els k * valor m \<le> B \<Longrightarrow>
         (\<forall>k. cuenta (foldl (\<lambda>g (elemento, n). sumar rd elemento (multiplicar rd n m) g)
                        g els) k = cuenta g k + cuenta els k * valor m) \<and>
         todos es_natural
           (foldl (\<lambda>g (elemento, n). sumar rd elemento (multiplicar rd n m) g) g els)"
proof (induction els arbitrary: g)
  case Nil
  then show ?case by (simp add: cuenta_def)
next
  case (Cons x els)
  obtain e n where x: "x = (e, n)" by (cases x)
  from Cons.prems(1) x have d: "distinct (map fst els)" and a: "e \<notin> fst ` set els"
    by simp_all
  from Cons.prems(2) x obtain i :: nat where i: "n = Num (real i)"
    and r: "todos es_natural els"
    by (auto simp: todos_def es_natural_iff)
  from assms(2) obtain j :: nat where j: "m = Num (real j)"
    by (auto simp: es_natural_iff)
  have c: "cuenta (x # els) k = (if k = e then real i else cuenta els k)" for k
    by (simp add: cuenta_def x i valor_def)
  from a have z: "cuenta els e = 0" by (rule cuenta_ausente)
  from Cons.prems(4) have "cuenta g e + cuenta (x # els) e * valor m \<le> B" by blast
  with c [of e] j have cota: "cuenta g e + real i * real j \<le> B"
    by (simp add: valor_def)
  moreover from cuenta_no_negativa [OF Cons.prems(3), of e] have "0 \<le> cuenta g e" .
  ultimately have "real (i * j) \<le> B" by simp
  with assms(1) have "rd (real (i * j)) = Num (real (i * j))" by blast
  then have rij: "rd (real i * real j) = Num (real i * real j)" by simp
  then have p: "multiplicar rd n m = Num (real i * real j)"
    by (simp add: i j)
  have "es_natural (Num (real (i * j)))"
    by (simp only: es_natural_iff) blast
  then have nat: "es_natural (Num (real i * real j))" by simp
  let ?g = "sumar rd e (Num (real i * real j)) g"
  from cota have "cuenta g e + valor (Num (real i * real j)) \<le> B" by (simp add: valor_def)
  from sumar_exacto [OF assms(1) Cons.prems(3) nat this]
  have s: "\<And>k. cuenta ?g k = cuenta g k + (if k = e then real i * real j else 0)"
    and t: "todos es_natural ?g"
    by (simp_all add: valor_def)
  have vm: "valor m = real j" by (simp add: j valor_def)
  have "\<forall>k. cuenta ?g k + cuenta els k * valor m \<le> B"
  proof
    fix k
    from Cons.prems(4) have "cuenta g k + cuenta (x # els) k * valor m \<le> B" by blast
    with c [of k] z show "cuenta ?g k + cuenta els k * valor m \<le> B"
      by (simp only: s vm split: if_splits) simp_all
  qed
  from Cons.IH [OF d r t this] have
    ih: "\<And>k. cuenta (foldl (\<lambda>g (elemento, n). sumar rd elemento (multiplicar rd n m) g)
                  ?g els) k = cuenta ?g k + cuenta els k * valor m"
    and nt: "todos es_natural
               (foldl (\<lambda>g (elemento, n). sumar rd elemento (multiplicar rd n m) g) ?g els)"
    by simp_all
  have f: "foldl (\<lambda>g (elemento, n). sumar rd elemento (multiplicar rd n m) g) g (x # els) =
           foldl (\<lambda>g (elemento, n). sumar rd elemento (multiplicar rd n m) g) ?g els"
    by (simp add: x p)
  have "cuenta (foldl (\<lambda>g (elemento, n). sumar rd elemento (multiplicar rd n m) g)
                  g (x # els)) k = cuenta g k + cuenta (x # els) k * valor m" for k
    using z by (simp only: f ih s c vm split: if_splits) simp_all
  with nt show ?case by (simp only: f) simp
qed

lemma atomos_no_negativos: "naturales cs \<Longrightarrow> 0 \<le> atomos_lado cs k"
proof (induction cs)
  case Nil
  then show ?case by (simp add: atomos_lado_def)
next
  case (Cons c cs)
  from Cons.prems obtain j :: nat where "coeficiente c = Num (real j)"
    and "todos es_natural (elementos c)" and "naturales cs"
    by (auto simp: naturales_def es_natural_iff)
  with Cons.IH cuenta_no_negativa [of "elementos c" k] show ?case
    by (simp add: atomos_lado_def valor_def)
qed

lemma contar_exacto:
  assumes "\<forall>n::nat. real n \<le> B \<longrightarrow> rd (real n) = Num (real n)"
  shows "list_all (\<lambda>c. distinct (map fst (elementos c))) cs \<Longrightarrow> naturales cs \<Longrightarrow>
         todos es_natural g \<Longrightarrow> \<forall>k. cuenta g k + atomos_lado cs k \<le> B \<Longrightarrow>
         (\<forall>k. cuenta (foldl (\<lambda>conteo c.
                   foldl (\<lambda>conteo (elemento, n).
                            sumar rd elemento (multiplicar rd n (coeficiente c)) conteo)
                     conteo (elementos c)) g cs) k =
               cuenta g k + atomos_lado cs k) \<and>
         fst ` set (foldl (\<lambda>conteo c.
                   foldl (\<lambda>conteo (elemento, n).
                            sumar rd elemento (multiplicar rd n (coeficiente c)) conteo)
                     conteo (elementos c)) g cs) =
           fst ` set g \<union> presentes cs \<and>
         todos es_natural (foldl (\<lambda>conteo c.
                   foldl (\<lambda>conteo (elemento, n).
                            sumar rd elemento (multiplicar rd n (coeficiente c)) conteo)
                     conteo (elementos c)) g cs)"
proof (induction cs arbitrary: g)
  case Nil
  then show ?case by (simp add: atomos_lado_def presentes_def)
next
  case (Cons c cs)
  let ?g = "foldl (\<lambda>conteo (elemento, n).
                     sumar rd elemento (multiplicar rd n (coeficiente c)) conteo)
              g (elementos c)"
  from Cons.prems(1) have d: "distinct (map fst (elementos c))"
    and r: "list_all (\<lambda>c. distinct (map fst (elementos c))) cs"
    by simp_all
  from Cons.prems(2) have m: "es_natural (coeficiente c)"
    and els: "todos es_natural (elementos c)" and ns: "naturales cs"
    by (simp_all add: naturales_def)
  have s: "atomos_lado (c # cs) k =
             valor (coeficiente c) * cuenta (elementos c) k + atomos_lado cs k" for k
    by (simp add: atomos_lado_def)
  have "\<forall>k. cuenta g k + cuenta (elementos c) k * valor (coeficiente c) \<le> B"
  proof
    fix k
    from Cons.prems(4) have "cuenta g k + atomos_lado (c # cs) k \<le> B" by blast
    with atomos_no_negativos [OF ns, of k] s [of k]
    show "cuenta g k + cuenta (elementos c) k * valor (coeficiente c) \<le> B"
      by (simp add: mult.commute)
  qed
  from plegar_exacto [OF assms m d els Cons.prems(3) this]
  have a: "\<And>k. cuenta ?g k = cuenta g k + cuenta (elementos c) k * valor (coeficiente c)"
    and t: "todos es_natural ?g"
    by simp_all
  have b: "fst ` set ?g = fst ` set g \<union> fst ` set (elementos c)"
    by (rule plegar_claves)
  have p: "presentes (c # cs) = fst ` set (elementos c) \<union> presentes cs"
    by (simp add: presentes_def)
  have "\<forall>k. cuenta ?g k + atomos_lado cs k \<le> B"
  proof
    fix k
    from Cons.prems(4) have "cuenta g k + atomos_lado (c # cs) k \<le> B" by blast
    with s [of k] show "cuenta ?g k + atomos_lado cs k \<le> B"
      by (simp add: a mult.commute)
  qed
  from Cons.IH [OF r ns t this] a b s p show ?case
    by (simp add: Un_assoc mult.commute)
qed

lemma contarAtomos_exacto:
  assumes "\<forall>n::nat. real n \<le> B \<longrightarrow> rd (real n) = Num (real n)"
    and "list_all (\<lambda>c. distinct (map fst (elementos c))) cs" and "naturales cs"
    and "\<forall>k. atomos_lado cs k \<le> B"
  shows "cuenta (contarAtomos rd cs) k = atomos_lado cs k"
    and "fst ` set (contarAtomos rd cs) = presentes cs"
    and "todos es_natural (contarAtomos rd cs)"
proof -
  have "todos es_natural []" by (simp add: todos_def)
  moreover from assms(4) have "\<forall>k. cuenta [] k + atomos_lado cs k \<le> B"
    by (simp add: cuenta_def)
  ultimately have
    "(\<forall>k. cuenta (contarAtomos rd cs) k = cuenta [] k + atomos_lado cs k) \<and>
     fst ` set (contarAtomos rd cs) = fst ` set ([]::conteo) \<union> presentes cs \<and>
     todos es_natural (contarAtomos rd cs)"
    unfolding contarAtomos_def by (rule contar_exacto [OF assms(1) assms(2) assms(3)])
  then show "cuenta (contarAtomos rd cs) k = atomos_lado cs k"
    and "fst ` set (contarAtomos rd cs) = presentes cs"
    and "todos es_natural (contarAtomos rd cs)"
    by (simp_all add: cuenta_def)
qed

lemma valor_o_cero_cuenta: "todos es_natural g \<Longrightarrow> valor_o_cero g k = Num (cuenta g k)"
proof (cases "map_of g k")
  case None
  then show ?thesis by (simp add: valor_o_cero_def cuenta_def)
next
  case (Some v)
  assume "todos es_natural g"
  from todos_map_of [OF this Some] obtain n :: nat where "v = Num (real n)"
    by (auto simp: es_natural_iff)
  with Some show ?thesis
    by (simp add: valor_o_cero_def cuenta_def valor_def verdadero_def)
qed

lemma ausente_sin_atomos: "k \<notin> presentes cs \<Longrightarrow> atomos_lado cs k = 0"
proof (induction cs)
  case Nil
  then show ?case by (simp add: atomos_lado_def)
next
  case (Cons c cs)
  from Cons.prems have "k \<notin> fst ` set (elementos c)" and "k \<notin> presentes cs"
    by (simp_all add: presentes_def)
  with Cons.IH show ?case
    by (simp add: atomos_lado_def cuenta_ausente)
qed

lemma set_claves_set: "set (claves_set ks) = set ks"
  by (simp add: claves_set_def)

lemma bucle_balance:
  "foldl (\<lambda>b elemento.
            \<lparr>balanceada = (if r elemento \<noteq> p elemento then False else balanceada b),
             detalles = AList.update elemento
               \<lparr>en_reactivos = Num (r elemento), en_productos = Num (p elemento),
                balanceado = (r elemento = p elemento)\<rparr> (detalles b)\<rparr>)
     \<lparr>balanceada = b0, detalles = d0\<rparr> els =
   \<lparr>balanceada = (b0 \<and> (\<forall>e \<in> set els. r e = p e)),
    detalles = foldl (\<lambda>d e. AList.update e
                  \<lparr>en_reactivos = Num (r e), en_productos = Num (p e),
                   balanceado = (r e = p e)\<rparr> d)
                 d0 els\<rparr>"
proof (induction els arbitrary: b0 d0)
  case Nil
  then show ?case by simp
next
  case (Cons e els)
  let ?F = "\<lambda>b elemento.
            \<lparr>balanceada = (if r elemento \<noteq> p elemento then False else balanceada b),
             detalles = AList.update elemento
               \<lparr>en_reactivos = Num (r elemento), en_productos = Num (p elemento),
                balanceado = (r elemento = p elemento)\<rparr> (detalles b)\<rparr>"
  let ?d = "AList.update e
              \<lparr>en_reactivos = Num (r e), en_productos = Num (p e),
               balanceado = (r e = p e)\<rparr> d0"
  have i: "(if r e \<noteq> p e then False else b0) = (b0 \<and> r e = p e)"
    by auto
  have "foldl ?F \<lparr>balanceada = b0, detalles = d0\<rparr> (e # els) =
        foldl ?F \<lparr>balanceada = (b0 \<and> r e = p e), detalles = ?d\<rparr> els"
    by (simp only: foldl_Cons balance.simps i)
  also have "\<dots> = \<lparr>balanceada = ((b0 \<and> r e = p e) \<and> (\<forall>x \<in> set els. r x = p x)),
                      detalles = foldl (\<lambda>d e. AList.update e
                         \<lparr>en_reactivos = Num (r e), en_productos = Num (p e),
                          balanceado = (r e = p e)\<rparr> d) ?d els\<rparr>"
    by (rule Cons.IH)
  finally show ?case by (simp add: conj_assoc)
qed

lemma detalles_map_of:
  "map_of (foldl (\<lambda>d e. AList.update e (f e) d) d0 els) k =
     (if k \<in> set els then Some (f k) else map_of d0 k)"
proof (induction els arbitrary: d0)
  case Nil
  then show ?case by simp
next
  case (Cons e els)
  from Cons.IH [of "AList.update e (f e) d0"] show ?case
    by (simp add: update_conv')
qed

text \<open>
  C9, as the code has it. For an equation text that parses with every coefficient and
  count finite and in which, on each side and for every element, the atoms (coefficient
  times count in the compound, summed over the integers) are at most \<open>2 ^ 53\<close>,
  \<^verbatim>\<open>verificarBalance\<close> returns, and its flag is true if and only if, for every element
  present on either side, the atoms on the reactant side equal the atoms on the product
  side; an element absent from a side counts 0 there, and the details hold, for exactly
  the elements present, both totals and whether they are equal.
\<close>

theorem verificarBalance_correcto:
  assumes "parsearEcuacion binary64 ecuacion = Inr parseada"
    and "finitos (reactivos parseada)" and "finitos (productos parseada)"
    and "\<forall>e. atomos_lado (reactivos parseada) e \<le> 2 ^ 53 \<and>
             atomos_lado (productos parseada) e \<le> 2 ^ 53"
  shows "\<exists>b. verificarBalance binary64 ecuacion = Inr b \<and>
           (balanceada b \<longleftrightarrow>
              (\<forall>e \<in> presentes (reactivos parseada) \<union> presentes (productos parseada).
                 atomos_lado (reactivos parseada) e = atomos_lado (productos parseada) e)) \<and>
           (\<forall>e. map_of (detalles b) e =
              (if e \<in> presentes (reactivos parseada) \<union> presentes (productos parseada)
               then Some \<lparr>en_reactivos = Num (atomos_lado (reactivos parseada) e),
                          en_productos = Num (atomos_lado (productos parseada) e),
                          balanceado = (atomos_lado (reactivos parseada) e =
                                        atomos_lado (productos parseada) e)\<rparr>
               else None)) \<and>
           (\<forall>e. e \<notin> presentes (reactivos parseada) \<longrightarrow>
              atomos_lado (reactivos parseada) e = 0) \<and>
           (\<forall>e. e \<notin> presentes (productos parseada) \<longrightarrow>
              atomos_lado (productos parseada) e = 0)"
proof -
  let ?R = "reactivos parseada" and ?P = "productos parseada"
  let ?els = "claves_set (map fst (contarAtomos binary64 ?R) @
                map fst (contarAtomos binary64 ?P))"
  let ?det = "\<lambda>e. \<lparr>en_reactivos = Num (atomos_lado ?R e),
                    en_productos = Num (atomos_lado ?P e),
                    balanceado = (atomos_lado ?R e = atomos_lado ?P e)\<rparr>"
  have ex: "\<forall>n::nat. real n \<le> 2 ^ 53 \<longrightarrow> binary64 (real n) = Num (real n)"
  proof (intro allI impI)
    fix n :: nat
    assume "real n \<le> 2 ^ 53"
    then have "real n \<le> real (2 ^ 53)" by simp
    then have "n \<le> 2 ^ 53" by (simp only: of_nat_le_iff)
    then show "binary64 (real n) = Num (real n)" by (rule binary64_nat)
  qed
  from parsearEcuacion_distinct [OF assms(1)] have
    dR: "list_all (\<lambda>c. distinct (map fst (elementos c))) ?R" and
    dP: "list_all (\<lambda>c. distinct (map fst (elementos c))) ?P"
    by simp_all
  from parsearEcuacion_regular [OF binary64_redondea assms(1)] have
    rR: "list_all (\<lambda>c. regular binary64 (coeficiente c) \<and>
                       todos (regular binary64) (elementos c)) ?R" and
    rP: "list_all (\<lambda>c. regular binary64 (coeficiente c) \<and>
                       todos (regular binary64) (elementos c)) ?P"
    by simp_all
  from rR assms(2) have nR: "naturales ?R" by (rule regulares_finitos)
  from rP assms(3) have nP: "naturales ?P" by (rule regulares_finitos)
  from assms(4) have cR: "\<forall>k. atomos_lado ?R k \<le> 2 ^ 53"
    and cP: "\<forall>k. atomos_lado ?P k \<le> 2 ^ 53"
    by simp_all
  note eR = contarAtomos_exacto [OF ex dR nR cR]
  note eP = contarAtomos_exacto [OF ex dP nP cP]
  have vR: "valor_o_cero (contarAtomos binary64 ?R) = (\<lambda>e. Num (atomos_lado ?R e))"
    by (rule ext) (simp add: valor_o_cero_cuenta [OF eR(3)] eR(1))
  have vP: "valor_o_cero (contarAtomos binary64 ?P) = (\<lambda>e. Num (atomos_lado ?P e))"
    by (rule ext) (simp add: valor_o_cero_cuenta [OF eP(3)] eP(1))
  have els: "set ?els = presentes ?R \<union> presentes ?P"
    using eR(2) eP(2) by (simp add: set_claves_set)
  have ig: "igual (Num a) (Num b) = (a = b)" for a b :: real
    by simp
  have "verificarBalance binary64 ecuacion =
          Inr (foldl (\<lambda>b elemento.
                 \<lparr>balanceada = (if atomos_lado ?R elemento \<noteq> atomos_lado ?P elemento
                                 then False else balanceada b),
                  detalles = AList.update elemento
                    \<lparr>en_reactivos = Num (atomos_lado ?R elemento),
                     en_productos = Num (atomos_lado ?P elemento),
                     balanceado = (atomos_lado ?R elemento = atomos_lado ?P elemento)\<rparr>
                    (detalles b)\<rparr>)
                \<lparr>balanceada = True, detalles = []\<rparr> ?els)"
    by (simp only: verificarBalance_def assms(1) sum.case Let_def vR vP ig)
  then have v: "verificarBalance binary64 ecuacion =
             Inr \<lparr>balanceada = (\<forall>e \<in> set ?els. atomos_lado ?R e = atomos_lado ?P e),
                  detalles = foldl (\<lambda>d e. AList.update e (?det e) d) [] ?els\<rparr>"
    by (simp only: bucle_balance simp_thms)
  have m: "\<forall>e. map_of (foldl (\<lambda>d e. AList.update e (?det e) d) [] ?els) e =
             (if e \<in> presentes ?R \<union> presentes ?P then Some (?det e) else None)"
    by (simp only: detalles_map_of els) simp
  from v m els ausente_sin_atomos show ?thesis
    by simp
qed

theorem verificarBalance_correcto_witness:
  "verificarBalance binary64 agua =
     Inr \<lparr>balanceada = True,
          detalles =
            [(js ''H'', \<lparr>en_reactivos = Num 4, en_productos = Num 4, balanceado = True\<rparr>),
             (js ''O'', \<lparr>en_reactivos = Num 2, en_productos = Num 2, balanceado = True\<rparr>)]\<rparr> \<and>
   finitos
     [\<lparr>coeficiente = Num 2, formula = js ''H2'', elementos = [(js ''H'', Num 2)]\<rparr>,
      \<lparr>coeficiente = Num 1, formula = js ''O2'', elementos = [(js ''O'', Num 2)]\<rparr>] \<and>
   finitos
     [\<lparr>coeficiente = Num 2, formula = js ''H2O'',
       elementos = [(js ''H'', Num 2), (js ''O'', Num 1)]\<rparr>] \<and>
   atomos_lado
     [\<lparr>coeficiente = Num 2, formula = js ''H2'', elementos = [(js ''H'', Num 2)]\<rparr>,
      \<lparr>coeficiente = Num 1, formula = js ''O2'', elementos = [(js ''O'', Num 2)]\<rparr>]
     (js ''H'') = 4 \<and>
   atomos_lado
     [\<lparr>coeficiente = Num 2, formula = js ''H2O'',
       elementos = [(js ''H'', Num 2), (js ''O'', Num 1)]\<rparr>] (js ''H'') = 4 \<and>
   presentes
     [\<lparr>coeficiente = Num 2, formula = js ''H2'', elementos = [(js ''H'', Num 2)]\<rparr>,
      \<lparr>coeficiente = Num 1, formula = js ''O2'', elementos = [(js ''O'', Num 2)]\<rparr>] \<union>
   presentes
     [\<lparr>coeficiente = Num 2, formula = js ''H2O'',
       elementos = [(js ''H'', Num 2), (js ''O'', Num 1)]\<rparr>] = {js ''H'', js ''O''}"
proof -
  let ?R = "[\<lparr>coeficiente = Num 2, formula = js ''H2'', elementos = [(js ''H'', Num 2)]\<rparr>,
             \<lparr>coeficiente = Num 1, formula = js ''O2'', elementos = [(js ''O'', Num 2)]\<rparr>]"
  let ?P = "[\<lparr>coeficiente = Num 2, formula = js ''H2O'',
              elementos = [(js ''H'', Num 2), (js ''O'', Num 1)]\<rparr>]"
  have f: "finitos (reactivos \<lparr>reactivos = ?R, productos = ?P\<rparr>)"
    "finitos (productos \<lparr>reactivos = ?R, productos = ?P\<rparr>)"
    by (simp_all add: finitos_def todos_def es_finito_def)
  have c: "\<forall>e. atomos_lado (reactivos \<lparr>reactivos = ?R, productos = ?P\<rparr>) e \<le> 2 ^ 53 \<and>
               atomos_lado (productos \<lparr>reactivos = ?R, productos = ?P\<rparr>) e \<le> 2 ^ 53"
    by (simp add: atomos_lado_def cuenta_def valor_def)
  have a: "atomos_lado ?R (js ''H'') = 4" "atomos_lado ?P (js ''H'') = 4"
    by (simp_all add: atomos_lado_def cuenta_def valor_def)
  have p: "presentes ?R \<union> presentes ?P = {js ''H'', js ''O''}"
    by (auto simp: presentes_def)
  from verificarBalance_correcto [OF parsear_agua f c] balance_agua a p f show ?thesis
    by simp
qed

text \<open>
  Without the bound the flag is wrong: in \<^verbatim>\<open>H9007199254740992 + H -> H9007199254740992\<close>
  the reactant side has one atom of hydrogen more than the product side, and the sum
  \<open>2 ^ 53 + 1\<close> is rounded to \<open>2 ^ 53\<close>.
\<close>

lemma redondeo_impar: "binary64 9007199254740993 = Num 9007199254740992"
  by (simp add: fp)

theorem verificarBalance_redondeo_counterexample:
  "parsearEcuacion binary64 (js ''H9007199254740992 + H -> H9007199254740992'') =
     Inr \<lparr>reactivos =
            [\<lparr>coeficiente = Num 1, formula = js ''H9007199254740992'',
              elementos = [(js ''H'', Num 9007199254740992)]\<rparr>,
             \<lparr>coeficiente = Num 1, formula = js ''H'', elementos = [(js ''H'', Num 1)]\<rparr>],
          productos =
            [\<lparr>coeficiente = Num 1, formula = js ''H9007199254740992'',
              elementos = [(js ''H'', Num 9007199254740992)]\<rparr>]\<rparr> \<and>
   verificarBalance binary64 (js ''H9007199254740992 + H -> H9007199254740992'') =
     Inr \<lparr>balanceada = True,
          detalles =
            [(js ''H'', \<lparr>en_reactivos = Num 9007199254740992,
                         en_productos = Num 9007199254740992, balanceado = True\<rparr>)]\<rparr> \<and>
   atomos_lado
     [\<lparr>coeficiente = Num 1, formula = js ''H9007199254740992'',
       elementos = [(js ''H'', Num 9007199254740992)]\<rparr>,
      \<lparr>coeficiente = Num 1, formula = js ''H'', elementos = [(js ''H'', Num 1)]\<rparr>]
     (js ''H'') = 9007199254740993 \<and>
   atomos_lado
     [\<lparr>coeficiente = Num 1, formula = js ''H9007199254740992'',
       elementos = [(js ''H'', Num 9007199254740992)]\<rparr>] (js ''H'') = 9007199254740992"
proof -
  have p: "parsearEcuacion binary64 (js ''H9007199254740992 + H -> H9007199254740992'') =
     Inr \<lparr>reactivos =
            [\<lparr>coeficiente = Num 1, formula = js ''H9007199254740992'',
              elementos = [(js ''H'', Num 9007199254740992)]\<rparr>,
             \<lparr>coeficiente = Num 1, formula = js ''H'', elementos = [(js ''H'', Num 1)]\<rparr>],
          productos =
            [\<lparr>coeficiente = Num 1, formula = js ''H9007199254740992'',
              elementos = [(js ''H'', Num 9007199254740992)]\<rparr>]\<rparr>"
    by (simp add: evaluar Let_def)
  show ?thesis
    by (simp add: p verificarBalance_def contarAtomos_def claves_set_def valor_o_cero_def
          sumar_def verdadero_def Let_def enteros redondeo_impar atomos_lado_def cuenta_def
          valor_def)
qed

section \<open>Counts, subscripts and coefficients\<close>

text \<open>The number read from a run of digits is the rounded integer that the digits write.\<close>

lemma valor_decimal_Cons:
  "valor_decimal (d # ds) = (d - 48) * 10 ^ length ds + valor_decimal ds"
proof -
  have "zip (rev ds @ [d]) ([0..<length ds] @ [length ds]) =
        zip (rev ds) [0..<length ds] @ zip [d] [length ds]"
    by (rule zip_append) simp
  then show ?thesis by (simp add: valor_decimal_def)
qed

lemma horner:
  "foldl (\<lambda>n d. 10 * n + (d - 48)) a ds = a * 10 ^ length ds + valor_decimal ds"
proof (induction ds arbitrary: a)
  case Nil
  then show ?case by (simp add: valor_decimal_def)
next
  case (Cons d ds)
  from Cons.IH [of "10 * a + (d - 48)"] show ?case
    by (simp add: valor_decimal_Cons algebra_simps)
qed

lemma leer_numero_valor:
  "leer_numero rd ds = (if ds = [] then Num 1 else rd (real (valor_decimal ds)))"
  using horner [of 0 ds] by (simp add: leer_numero_def parseInt_def)

lemma valor_decimal_pos:
  assumes "ds \<noteq> []" and "es_digito (hd ds)" and "hd ds \<noteq> 48"
  shows "0 < valor_decimal ds"
proof -
  from assms(1) obtain d ds' where ds: "ds = d # ds'" by (cases ds) auto
  with assms have "0 < d - 48" by (simp add: es_digito_def)
  then show ?thesis by (simp add: ds valor_decimal_Cons)
qed

lemma valor_decimal_cero:
  "list_all es_digito ds \<Longrightarrow> valor_decimal ds = 0 \<longleftrightarrow> set ds \<subseteq> {48}"
proof (induction ds)
  case Nil
  then show ?case by (simp add: valor_decimal_def)
next
  case (Cons d ds)
  from Cons.prems have d: "48 \<le> d" by (simp add: es_digito_def)
  from Cons.prems have r: "list_all es_digito ds" by simp
  from d have "d - 48 = 0 \<longleftrightarrow> d = 48" by arith
  with Cons.IH [OF r] show ?case by (simp add: valor_decimal_Cons)
qed

text \<open>
  A rounding that is regular on the natural numbers reads a non-negative integer or
  Infinity, zero only from zeros and positive after a digit that is not zero.
\<close>

lemma entero_positivo_casos:
  "entero_positivo v \<longleftrightarrow> v = Infinito \<or> (\<exists>k::nat. 0 < k \<and> v = Num (real k))"
proof
  assume "entero_positivo v"
  then consider "v = Infinito" | "es_natural v" "v \<noteq> Num 0"
    by (auto simp: entero_positivo_def)
  then show "v = Infinito \<or> (\<exists>k::nat. 0 < k \<and> v = Num (real k))"
  proof cases
    case 1
    then show ?thesis by simp
  next
    case 2
    then obtain k :: nat where "v = Num (real k)" by (auto simp: es_natural_iff)
    with 2(2) have "0 < k \<and> v = Num (real k)" by (cases "k = 0") simp_all
    then show ?thesis by blast
  qed
next
  assume "v = Infinito \<or> (\<exists>k::nat. 0 < k \<and> v = Num (real k))"
  then show "entero_positivo v"
    by (auto simp: entero_positivo_def es_natural_iff)
qed

lemma redondeo_positivo:
  assumes "redondea_naturales rd" and "0 < n"
  shows "entero_positivo (rd (real n))"
proof -
  from assms(1) have "rd (real n) = Infinito \<or>
      (\<exists>k::nat. (0 < n \<longrightarrow> 0 < k) \<and> rd (real n) = Num (real k) \<and> rd (real k) = Num (real k))"
    unfolding redondea_naturales_def by blast
  with assms(2) show ?thesis by (simp only: entero_positivo_casos) blast
qed

lemma redondeo_no_NaN: "redondea_naturales rd \<Longrightarrow> rd (real n) \<noteq> NaN"
proof -
  assume "redondea_naturales rd"
  then have "rd (real n) = Infinito \<or> (\<exists>k::nat. rd (real n) = Num (real k))"
    unfolding redondea_naturales_def by blast
  then show ?thesis by auto
qed

lemma redondeo_cero: "redondea_naturales rd \<Longrightarrow> rd (real n) = Num 0 \<longleftrightarrow> n = 0"
proof (cases "n = 0")
  case True
  assume "redondea_naturales rd"
  with True show ?thesis by (simp add: redondea_naturales_def)
next
  case False
  assume "redondea_naturales rd"
  from redondeo_positivo [OF this, of n] False have "rd (real n) \<noteq> Num 0"
    by (auto simp: entero_positivo_casos)
  with False show ?thesis by simp
qed

lemma leer_numero_no_NaN: "redondea_naturales rd \<Longrightarrow> leer_numero rd ds \<noteq> NaN"
  by (simp add: leer_numero_valor redondeo_no_NaN)

lemma leer_numero_cero:
  assumes "redondea_naturales rd"
  shows "leer_numero rd (takeWhile es_digito s) = Num 0 \<longleftrightarrow>
           takeWhile es_digito s \<noteq> [] \<and> set (takeWhile es_digito s) \<subseteq> {48}"
proof -
  have "list_all es_digito (takeWhile es_digito s)"
    by (auto simp: list_all_iff dest: set_takeWhileD)
  from valor_decimal_cero [OF this] redondeo_cero [OF assms] show ?thesis
    by (simp add: leer_numero_valor)
qed

lemma ceros_mono: "ceros_tras_digito b s \<Longrightarrow> ceros_tras_digito True s"
  by (cases s) simp_all

lemma ceros_dropWhile: "ceros_tras_digito b s \<Longrightarrow> ceros_tras_digito True (dropWhile P s)"
proof (induction s arbitrary: b)
  case Nil
  then show ?case by simp
next
  case (Cons c cs)
  show ?case
  proof (cases "P c")
    case True
    from Cons.prems have "ceros_tras_digito (es_digito c) cs" by simp
    from Cons.IH [OF this] True show ?thesis by simp
  next
    case False
    with Cons.prems ceros_mono [of b "c # cs"] show ?thesis by simp
  qed
qed

lemma ceros_dropWhile_no_digito:
  assumes "\<And>c. P c \<Longrightarrow> \<not> es_digito c"
  shows "ceros_tras_digito False s \<Longrightarrow> ceros_tras_digito False (dropWhile P s)"
proof (induction s)
  case Nil
  then show ?case by simp
next
  case (Cons c cs)
  show ?case
  proof (cases "P c")
    case True
    with assms have "\<not> es_digito c" by simp
    with Cons True show ?thesis by simp
  next
    case False
    with Cons.prems show ?thesis by simp
  qed
qed

lemma ceros_prefijo: "ceros_tras_digito b (xs @ ys) \<Longrightarrow> ceros_tras_digito b xs"
  by (induction xs arbitrary: b) simp_all

lemma leer_numero_pos:
  assumes "redondea_naturales rd" and "ceros_tras_digito False s"
  shows "entero_positivo (leer_numero rd (takeWhile es_digito s))"
proof (cases "takeWhile es_digito s = []")
  case True
  have "entero_positivo (Num (real 1))" by (simp only: entero_positivo_casos) blast
  with True show ?thesis by (simp add: leer_numero_def)
next
  case False
  then obtain c cs where s: "s = c # cs" and c: "es_digito c"
    by (cases s) (auto split: if_splits)
  with assms(2) have "c \<noteq> 48" by auto
  with s c have "0 < valor_decimal (takeWhile es_digito s)"
    by (intro valor_decimal_pos) simp_all
  from redondeo_positivo [OF assms(1) this] False show ?thesis
    by (simp add: leer_numero_valor)
qed

lemma mas_positivo:
  assumes "redondea_naturales rd" and "entero_positivo a" and "entero_positivo b"
  shows "entero_positivo (mas rd a b)"
proof -
  have i: "entero_positivo Infinito" by (simp add: entero_positivo_def)
  from assms(2) consider "a = Infinito" | j where "0 < j" "a = Num (real j)"
    by (auto simp: entero_positivo_casos)
  then show ?thesis
  proof cases
    case 1
    from assms(3) consider "b = Infinito" | k :: nat where "b = Num (real k)"
      by (auto simp: entero_positivo_casos)
    then show ?thesis using 1 i by cases simp_all
  next
    case 2
    from assms(3) consider "b = Infinito" | k where "0 < k" "b = Num (real k)"
      by (auto simp: entero_positivo_casos)
    then show ?thesis
    proof cases
      case 1
      with 2 i show ?thesis by simp
    next
      case (2 k)
      have e: "mas rd a b = rd (real (j + k))" by (simp add: \<open>a = Num (real j)\<close> 2)
      from \<open>0 < j\<close> have "0 < j + k" by simp
      with assms(1) have "entero_positivo (rd (real (j + k)))" by (rule redondeo_positivo)
      then show ?thesis by (simp only: e)
    qed
  qed
qed

lemma multiplicar_positivo:
  assumes "redondea_naturales rd" and "entero_positivo a" and "entero_positivo b"
  shows "entero_positivo (multiplicar rd a b)"
proof -
  have i: "entero_positivo Infinito" by (simp add: entero_positivo_def)
  from assms(2) consider "a = Infinito" | j where "0 < j" "a = Num (real j)"
    by (auto simp: entero_positivo_casos)
  then show ?thesis
  proof cases
    case 1
    from assms(3) consider "b = Infinito" | k where "0 < k" "b = Num (real k)"
      by (auto simp: entero_positivo_casos)
    then show ?thesis using 1 i by cases simp_all
  next
    case 2
    from assms(3) consider "b = Infinito" | k where "0 < k" "b = Num (real k)"
      by (auto simp: entero_positivo_casos)
    then show ?thesis
    proof cases
      case 1
      with 2 i show ?thesis by simp
    next
      case (2 k)
      have e: "multiplicar rd a b = rd (real (j * k))"
        by (simp add: \<open>a = Num (real j)\<close> 2)
      from \<open>0 < j\<close> \<open>0 < k\<close> have "0 < j * k" by simp
      with assms(1) have "entero_positivo (rd (real (j * k)))" by (rule redondeo_positivo)
      then show ?thesis by (simp only: e)
    qed
  qed
qed

lemma bucle_positiva:
  "redondea_naturales rd \<Longrightarrow> pila_todos entero_positivo p \<Longrightarrow> ceros_tras_digito True s \<Longrightarrow>
   bucle rd p s = Inr p' \<Longrightarrow> pila_todos entero_positivo p'"
proof (induction rd p s arbitrary: p' rule: bucle.induct)
  case (1 rd p)
  then show ?case by simp
next
  case (2 rd p c cs)
  note rd = "2.prems"(1)
  have mas: "\<And>a b. entero_positivo a \<Longrightarrow> entero_positivo b \<Longrightarrow> entero_positivo (mas rd a b)"
    using rd by (rule mas_positivo)
  have mul: "\<And>a b. entero_positivo a \<Longrightarrow> entero_positivo b \<Longrightarrow>
               entero_positivo (multiplicar rd a b)"
    using rd by (rule multiplicar_positivo)
  from "2.prems"(3) have cs: "ceros_tras_digito (es_digito c) cs" by simp
  show ?case
  proof (cases "c = 40")
    case True
    from "2.prems"(2) have "pila_todos entero_positivo (p\<lparr>grupos := [] # grupos p\<rparr>)"
      by (simp add: pila_todos_def todos_def)
    with "2.IH"(1) [OF True rd] "2.prems"(4) True cs ceros_mono show ?thesis by simp
  next
    case n40: False
    show ?thesis
    proof (cases "c = 41")
      case True
      then have f: "ceros_tras_digito False cs"
        using cs by (simp add: es_digito_def)
      from "2.prems"(4) n40 True obtain q where
        q: "cerrar_grupo rd (leer_numero rd (takeWhile es_digito cs)) p = Inr q" and
        b: "bucle rd q (dropWhile es_digito cs) = Inr p'"
        by (auto split: sum.splits)
      have "pila_todos entero_positivo q"
        by (rule cerrar_grupo_todos [OF mas mul "2.prems"(2) leer_numero_pos [OF rd f] q])
      from "2.IH"(2) [OF n40 True q rd this ceros_dropWhile [OF f] b] show ?thesis .
    next
      case n41: False
      show ?thesis
      proof (cases "es_mayuscula c")
        case True
        then have f: "ceros_tras_digito False cs"
          using cs by (simp add: es_digito_def es_mayuscula_def)
        have m: "ceros_tras_digito False (dropWhile es_minuscula cs)"
          by (rule ceros_dropWhile_no_digito [OF _ f])
             (simp add: es_minuscula_def es_digito_def)
        from "2.prems"(4) n40 n41 True obtain q where
          q: "agregar rd (c # takeWhile es_minuscula cs)
                (leer_numero rd (takeWhile es_digito (dropWhile es_minuscula cs))) p = Inr q"
          and b: "bucle rd q (dropWhile es_digito (dropWhile es_minuscula cs)) = Inr p'"
          by (auto split: sum.splits)
        have "pila_todos entero_positivo q"
          by (rule agregar_todos [OF mas "2.prems"(2) leer_numero_pos [OF rd m] q])
        from "2.IH"(3) [OF n40 n41 True q rd this ceros_dropWhile [OF m] b] show ?thesis .
      next
        case False
        from "2.IH"(4) [OF n40 n41 False rd "2.prems"(2) ceros_mono [OF cs]] "2.prems"(4)
          n40 n41 False
        show ?thesis by simp
      qed
    qed
  qed
qed

lemma parsearFormula_positivo:
  assumes "redondea_naturales rd" and "ceros_tras_digito True f"
    and "parsearFormula rd f = Inr m"
  shows "todos entero_positivo m"
proof -
  from assms(3) obtain p where
    p: "bucle rd \<lparr>base = [], base_en_pila = True, grupos = []\<rparr> f = Inr p" and m: "m = base p"
    by (auto simp: parsearFormula_def split: sum.splits)
  have "pila_todos entero_positivo \<lparr>base = [], base_en_pila = True, grupos = []\<rparr>"
    by (simp add: pila_todos_def todos_def)
  from bucle_positiva [OF assms(1) this assms(2) p] m show ?thesis
    by (simp add: pila_todos_def)
qed

lemma trim_prefijo: "\<exists>ys. rev (dropWhile P (rev xs)) @ ys = xs"
proof
  have "rev (takeWhile P (rev xs) @ dropWhile P (rev xs)) = xs" by simp
  then show "rev (dropWhile P (rev xs)) @ rev (takeWhile P (rev xs)) = xs"
    by (simp only: rev_append)
qed

lemma ceros_trim: "ceros_tras_digito False s \<Longrightarrow> ceros_tras_digito False (trim s)"
proof -
  assume s: "ceros_tras_digito False s"
  have d: "ceros_tras_digito False (dropWhile es_espacio s)"
    by (rule ceros_dropWhile_no_digito [OF _ s]) (auto simp: es_espacio_def es_digito_def)
  obtain ys where "trim s @ ys = dropWhile es_espacio s"
    using trim_prefijo [of es_espacio "dropWhile es_espacio s"] by (auto simp: trim_def)
  with d show ?thesis by (metis ceros_prefijo)
qed

text \<open>
  C4, as the code has it. A number read from a run of digits is the binary64 value of the
  integer that the digits write: that integer itself up to \<open>2 ^ 53\<close>, Infinity from
  \<open>2 ^ 1024\<close> on, and always a non-negative integer or Infinity; it is 1 when no digit
  is written. The map returned by \<^verbatim>\<open>parsearFormula\<close> never holds a negative entry:
  every entry is a non-negative integer, Infinity or NaN. The coefficient returned by
  \<^verbatim>\<open>parsearCompuesto\<close> is the number read from the leading digits; it is zero exactly
  when it is written with zeros only. When no number of the text is written with a
  leading zero (every \<^verbatim>\<open>0\<close> directly follows a digit), every entry of the map and
  the coefficient are positive integers or Infinity.
\<close>

theorem conteos_enteros:
  "leer_numero binary64 ds =
     (if ds = [] then Num 1 else binary64 (real (valor_decimal ds))) \<and>
   (ds \<noteq> [] \<longrightarrow> valor_decimal ds \<le> 2 ^ 53 \<longrightarrow>
      leer_numero binary64 ds = Num (real (valor_decimal ds))) \<and>
   (ds \<noteq> [] \<longrightarrow> 2 ^ 1024 \<le> valor_decimal ds \<longrightarrow> leer_numero binary64 ds = Infinito) \<and>
   entero_no_negativo (leer_numero binary64 ds) \<and> leer_numero binary64 ds \<noteq> NaN \<and>
   (parsearFormula binary64 f = Inr m \<longrightarrow> (\<forall>(e, n) \<in> set m. entero_no_negativo n)) \<and>
   (parsearCompuesto binary64 texto = Inr c \<longrightarrow>
      coeficiente c = leer_numero binary64 (takeWhile es_digito (trim texto)) \<and>
      (\<forall>(e, n) \<in> set (elementos c). entero_no_negativo n) \<and>
      (coeficiente c = Num 0 \<longleftrightarrow>
         takeWhile es_digito (trim texto) \<noteq> [] \<and>
         set (takeWhile es_digito (trim texto)) \<subseteq> {48})) \<and>
   (sin_cero_inicial f \<longrightarrow> parsearFormula binary64 f = Inr m \<longrightarrow>
      (\<forall>(e, n) \<in> set m. entero_positivo n)) \<and>
   (sin_cero_inicial texto \<longrightarrow> parsearCompuesto binary64 texto = Inr c \<longrightarrow>
      entero_positivo (coeficiente c) \<and> (\<forall>(e, n) \<in> set (elementos c). entero_positivo n))"
proof -
  note rd = binary64_redondea
  have a: "leer_numero binary64 ds =
             (if ds = [] then Num 1 else binary64 (real (valor_decimal ds)))"
    by (rule leer_numero_valor)
  have b: "leer_numero binary64 ds = Num (real (valor_decimal ds))"
    if "ds \<noteq> []" "valor_decimal ds \<le> 2 ^ 53"
    using that by (simp add: leer_numero_valor binary64_nat)
  have b': "leer_numero binary64 ds = Infinito" if "ds \<noteq> []" "2 ^ 1024 \<le> valor_decimal ds"
  proof -
    from that(2) have "real (2 ^ 1024) \<le> real (valor_decimal ds)"
      by (simp only: of_nat_le_iff)
    then have "2 ^ 1024 \<le> real (valor_decimal ds)" by simp
    from binary64_desborda [OF this] that(1) show ?thesis
      by (simp only: leer_numero_valor if_False)
  qed
  have c: "entero_no_negativo (leer_numero binary64 ds)" "leer_numero binary64 ds \<noteq> NaN"
    using leer_regular [OF rd, of ds] leer_numero_no_NaN [OF rd, of ds]
    by (simp_all add: regular_def)
  have d: "\<forall>(e, n) \<in> set m. entero_no_negativo n" if "parsearFormula binary64 f = Inr m"
    for f m
    using parsearFormula_regular [OF rd that]
    by (auto simp: todos_def list_all_iff regular_def)
  have e: "coeficiente c = leer_numero binary64 (takeWhile es_digito (trim texto)) \<and>
           (\<forall>(e, n) \<in> set (elementos c). entero_no_negativo n) \<and>
           (coeficiente c = Num 0 \<longleftrightarrow>
              takeWhile es_digito (trim texto) \<noteq> [] \<and>
              set (takeWhile es_digito (trim texto)) \<subseteq> {48})"
    if "parsearCompuesto binary64 texto = Inr c"
  proof -
    from that have
      co: "coeficiente c = leer_numero binary64 (takeWhile es_digito (trim texto))" and
      el: "parsearFormula binary64 (dropWhile es_digito (trim texto)) = Inr (elementos c)"
      by (auto simp: parsearCompuesto_def Let_def split: sum.splits)
    from co leer_numero_cero [OF rd, of "trim texto"] d [OF el] show ?thesis by simp
  qed
  have g: "\<forall>(e, n) \<in> set m. entero_positivo n"
    if "sin_cero_inicial f" "parsearFormula binary64 f = Inr m"
    using parsearFormula_positivo [OF rd ceros_mono that(2)] that(1)
    by (simp add: sin_cero_inicial_def todos_def list_all_iff)
  have h: "entero_positivo (coeficiente c) \<and> (\<forall>(e, n) \<in> set (elementos c). entero_positivo n)"
    if "sin_cero_inicial texto" "parsearCompuesto binary64 texto = Inr c"
  proof -
    from that(1) have t: "ceros_tras_digito False (trim texto)"
      by (simp add: sin_cero_inicial_def ceros_trim)
    from that(2) have
      co: "coeficiente c = leer_numero binary64 (takeWhile es_digito (trim texto))" and
      el: "parsearFormula binary64 (dropWhile es_digito (trim texto)) = Inr (elementos c)"
      by (auto simp: parsearCompuesto_def Let_def split: sum.splits)
    from parsearFormula_positivo [OF rd ceros_dropWhile [OF t] el] leer_numero_pos [OF rd t] co
    show ?thesis by (simp add: todos_def list_all_iff)
  qed
  from a b b' c d [of f m] e g h show ?thesis by blast
qed

theorem conteos_enteros_witness:
  "js ''12'' \<noteq> [] \<and> valor_decimal (js ''12'') = 12 \<and>
   leer_numero binary64 (js ''12'') = Num 12 \<and>
   sin_cero_inicial (js ''Al2(SO4)3'') \<and>
   parsearFormula binary64 (js ''Al2(SO4)3'') =
     Inr [(js ''Al'', Num 2), (js ''S'', Num 3), (js ''O'', Num 12)] \<and>
   sin_cero_inicial (js '' 10H2O'') \<and>
   parsearCompuesto binary64 (js '' 10H2O'') =
     Inr \<lparr>coeficiente = Num 10, formula = js ''H2O'',
          elementos = [(js ''H'', Num 2), (js ''O'', Num 1)]\<rparr> \<and>
   takeWhile es_digito (trim (js '' 10H2O'')) = js ''10'' \<and>
   parsearFormula binary64 (js ''H9007199254740993'') =
     Inr [(js ''H'', Num 9007199254740992)]"
proof -
  have r: "parsearFormula binary64 (js ''H9007199254740993'') =
             Inr [(js ''H'', Num 9007199254740992)]"
    by (simp add: evaluar redondeo_impar)
  have v: "js ''12'' \<noteq> []" "valor_decimal (js ''12'') = 12"
    by (simp_all add: js_def valor_decimal_def)
  have a: "sin_cero_inicial (js ''Al2(SO4)3'')" "sin_cero_inicial (js '' 10H2O'')"
    by (simp_all add: sin_cero_inicial_def js_def es_digito_def)
  have b: "parsearFormula binary64 (js ''Al2(SO4)3'') =
             Inr [(js ''Al'', Num 2), (js ''S'', Num 3), (js ''O'', Num 12)]"
    by (simp add: evaluar)
  have c: "parsearCompuesto binary64 (js '' 10H2O'') =
     Inr \<lparr>coeficiente = Num 10, formula = js ''H2O'',
          elementos = [(js ''H'', Num 2), (js ''O'', Num 1)]\<rparr>"
    "takeWhile es_digito (trim (js '' 10H2O'')) = js ''10''"
    by (simp_all add: evaluar)
  from conteos_enteros [of "js ''12''" "js ''Al2(SO4)3''"
      "[(js ''Al'', Num 2), (js ''S'', Num 3), (js ''O'', Num 12)]" "js '' 10H2O''"
      "\<lparr>coeficiente = Num 10, formula = js ''H2O'',
        elementos = [(js ''H'', Num 2), (js ''O'', Num 1)]\<rparr>"] v
  have "leer_numero binary64 (js ''12'') = Num 12" by (simp add: enteros)
  with v a b c r show ?thesis by simp
qed

theorem conteo_cero_counterexample:
  "parsearFormula binary64 (js ''H0'') = Inr [(js ''H'', Num 0)] \<and>
   parsearCompuesto binary64 (js ''0H2'') =
     Inr \<lparr>coeficiente = Num 0, formula = js ''H2'', elementos = [(js ''H'', Num 2)]\<rparr> \<and>
   \<not> entero_positivo (Num 0)"
  by (simp add: evaluar entero_positivo_def)


end
